theory Spec2Isabelle
  imports Main "HOL-Library.Word"
begin

unbundle bit_operations_syntax

section \<open>Results, constants and the environment of dcsNet.c\<close>

text \<open>
  Modelled from the spec: the type \<open>le_result_t\<close> is declared outside
  \<^verbatim>\<open>dcsNet.c\<close>; these are the seven results of the spec's result taxonomy (section 6.4).
\<close>

datatype le_result =
    LE_OK | LE_FAULT | LE_NOT_FOUND | LE_OVERFLOW | LE_BAD_PARAMETER | LE_DUPLICATE
  | LE_UNSUPPORTED

text \<open>
  The constants that \<^verbatim>\<open>dcsNet.c\<close> takes from headers that are not part of the file are
  parameters of the model: the widths of the address and interface buffers, the widths of
  the fields of the two output structures of the le_net API, the three technology tags
  the file compares with, and the largest value of the C type \<open>long\<close>.
\<close>

record dcs_consts =
  PA_DCS_IPV4_ADDR_MAX_BYTES :: nat
  PA_DCS_IPV6_ADDR_MAX_BYTES :: nat
  PA_DCS_INTERFACE_NAME_MAX_BYTES :: nat
  sizeof_ipv4Addr :: nat
  sizeof_ipv6Addr :: nat
  LE_DCS_TECH_UNKNOWN :: nat
  LE_DCS_TECH_CELLULAR :: nat
  LE_DCS_TECH_MAX :: nat
  LONG_MAX :: int

definition IPV6_PREFIX_LENGTH_MAX :: int where
  "IPV6_PREFIX_LENGTH_MAX = 8 * 8 * 2"

definition IPV6_PREFIX_LEN_STR_LENGTH :: nat where
  "IPV6_PREFIX_LEN_STR_LENGTH = 3"

definition DEFAULT_GW_OPTION :: string where
  "DEFAULT_GW_OPTION = ''routers''"

definition DNS_ADDRESS_OPTION :: string where
  "DNS_ADDRESS_OPTION = ''domain-name-servers''"

definition MAX_NUM_DEFAULT_GATEWAY_ADDRESS_BY_TYPE :: nat where
  "MAX_NUM_DEFAULT_GATEWAY_ADDRESS_BY_TYPE = 1"

definition MAX_NUM_DNS_ADDRESS_BY_TYPE :: nat where
  "MAX_NUM_DNS_ADDRESS_BY_TYPE = 2"

definition DHCP_LEASE_OPTION_MAX_LEN_BYTES :: nat where
  "DHCP_LEASE_OPTION_MAX_LEN_BYTES = 50"

definition LEASE_FILE_MAX_LINE_LENGTH_BYTES :: "dcs_consts \<Rightarrow> nat" where
  "LEASE_FILE_MAX_LINE_LENGTH_BYTES k =
     DHCP_LEASE_OPTION_MAX_LEN_BYTES
     + MAX_NUM_DNS_ADDRESS_BY_TYPE * PA_DCS_IPV6_ADDR_MAX_BYTES k
     + MAX_NUM_DNS_ADDRESS_BY_TYPE * PA_DCS_IPV4_ADDR_MAX_BYTES k"

datatype DhcpAddress_t = LE_NET_DEFAULT_GATEWAY_ADDRESS | LE_NET_DNS_SERVER_ADDRESS

datatype pa_dcs_RouteAction_t = PA_DCS_ROUTE_ADD | PA_DCS_ROUTE_DELETE

text \<open>
  A session reference and a channel reference are opaque handles, compared by equality
  only; the session reference 0 is the nil reference of the internal client le_data.
\<close>

type_synonym le_msg_SessionRef_t = nat
type_synonym le_dcs_ChannelRef_t = nat

record le_dcs_channelDb_t =
  channelName :: string
  technology :: nat
  techRef :: nat

text \<open>
  Modelled from the spec: \<open>pa_dcs_GetDefaultGateway\<close> is a platform adapter entry point
  outside \<^verbatim>\<open>dcsNet.c\<close>. By its contract (section 6.1) it fills the gateway address and
  the interface of each family in the structure it is given and reports one result per
  family; its reply is this record.
\<close>

record gw_reply =
  replyV4GW :: string
  replyV4Interface :: string
  replyV6GW :: string
  replyV6Interface :: string
  v4Ret :: le_result
  v6Ret :: le_result

text \<open>
  Everything a public operation asks of its collaborators (the IPC layer, the platform
  adapter, the channel registry, the technology providers, the file system and the C
  library's IPv6 parser) is a field of the environment the operation runs in. An
  operation of the model takes the environment of that one call.
\<close>

record env =
  le_net_GetClientSessionRef :: le_msg_SessionRef_t
  pa_dcs_GetDefaultGateway :: gw_reply
  pa_dcs_SetDefaultGateway :: "string \<Rightarrow> string \<Rightarrow> bool \<Rightarrow> le_result"
  pa_dcs_ChangeRoute :: "pa_dcs_RouteAction_t \<Rightarrow> string \<Rightarrow> string \<Rightarrow> string \<Rightarrow> le_result"
  pa_dcs_GetDhcpLeaseFilePath :: "string \<Rightarrow> le_result \<times> string"
  le_flock_TryOpenStream :: "string \<Rightarrow> le_result \<times> string option"
  le_dcs_GetChannelDbFromRef :: "le_dcs_ChannelRef_t \<Rightarrow> le_dcs_channelDb_t option"
  le_dcsTech_GetNetInterface :: "nat \<Rightarrow> le_dcs_ChannelRef_t \<Rightarrow> le_result \<times> string"
  le_dcsTech_GetDefaultGWAddress :: "nat \<Rightarrow> nat \<Rightarrow> le_result \<times> string \<times> string"
  inet_pton_AF_INET6 :: "string \<Rightarrow> bool"

text \<open>
  What an operation does to the outside is recorded as a list of events, in the order of
  the calls: the calls that program the kernel, the queries that name the source of an
  address, and the messages logged with \<open>LE_WARN\<close> (by their format string). Messages of
  the levels \<open>LE_DEBUG\<close>, \<open>LE_INFO\<close> and \<open>LE_ERROR\<close> have no effect on any result and are
  not recorded.
\<close>

datatype event =
    PaSetDefaultGateway string string bool
  | PaChangeRoute pa_dcs_RouteAction_t string string string
  | PaGetDhcpLeaseFilePath string
  | FlockTryOpenStream string
  | TechGetDefaultGWAddress nat nat
  | LeWarn string

section \<open>C strings\<close>

text \<open>
  A C string is the list of its bytes before the terminating NUL. A buffer is a list of
  bytes that may contain NULs; \<open>cstr\<close> reads the string that starts a buffer.
\<close>

definition NUL :: char where
  "NUL = CHR 0x00"

definition cstr :: "string \<Rightarrow> string" where
  "cstr buf = takeWhile (\<lambda>c. c \<noteq> NUL) buf"

definition memset0 :: "nat \<Rightarrow> string" where
  "memset0 n = replicate n NUL"

text \<open>\<open>strncpy dst src n\<close> writes exactly \<open>n\<close> bytes: the string, cut or padded with NULs.\<close>

definition strncpy :: "string \<Rightarrow> nat \<Rightarrow> string" where
  "strncpy src n = take n (src @ replicate n NUL)"

definition write_at :: "string \<Rightarrow> nat \<Rightarrow> string \<Rightarrow> string" where
  "write_at buf off bytes = take off buf @ bytes @ drop (off + length bytes) buf"

text \<open>\<open>strncmp a b n = 0\<close> on two strings: they agree on their first \<open>n\<close> bytes.\<close>

definition strncmp0 :: "string \<Rightarrow> string \<Rightarrow> nat \<Rightarrow> bool" where
  "strncmp0 a b n = (take n a = take n b)"

text \<open>
  Modelled from the spec: \<open>le_utf8_Copy\<close> belongs to the framework, outside
  \<^verbatim>\<open>dcsNet.c\<close>. It copies a string into a buffer of \<open>n\<close> bytes, keeps the buffer
  NUL-terminated, and reports \<open>OVERFLOW\<close> when the value exceeds the buffer (section 4.1).
  The model is for single-byte characters, as addresses and interface names are.
\<close>

definition le_utf8_Copy :: "string \<Rightarrow> nat \<Rightarrow> string \<times> le_result" where
  "le_utf8_Copy src n = (take (n - 1) src, if length src < n then LE_OK else LE_OVERFLOW)"

text \<open>\<open>strstr\<close> returns the rest of the haystack from the first occurrence of the needle.\<close>

fun strstr :: "string \<Rightarrow> string \<Rightarrow> string option" where
  "strstr [] needle = (if needle = [] then Some [] else None)"
| "strstr (c # cs) needle =
     (if take (length needle) (c # cs) = needle then Some (c # cs) else strstr cs needle)"

text \<open>
  The line that \<open>fgets\<close> reads into a buffer with room for \<open>n\<close> characters: it
  ends after a newline, at the end of the file, or when the room is used up. The stream
  then stands behind the characters read.
\<close>

fun fgets :: "nat \<Rightarrow> string \<Rightarrow> string" where
  "fgets 0 s = []"
| "fgets (Suc n) [] = []"
| "fgets (Suc n) (c # cs) = (if c = CHR 0x0A then [c] else c # fgets n cs)"

text \<open>
  The tokens that repeated calls of \<open>strtok_r\<close> with the delimiter string \<open>" "\<close> return:
  the maximal runs of characters other than the space. The first argument is the token
  read so far.
\<close>

fun strtok_r :: "string \<Rightarrow> string \<Rightarrow> string list" where
  "strtok_r cur [] = (if cur = [] then [] else [cur])"
| "strtok_r cur (c # cs) =
     (if c = CHR '' '' then (if cur = [] then strtok_r [] cs else cur # strtok_r [] cs)
      else strtok_r (cur @ [c]) cs)"

section \<open>The lease parser\<close>

text \<open>
  The body of the \<open>while (fgets ...)\<close> loop of \<open>GetDhcpLeaseFileEntry\<close> on a line that
  holds the option: copy the text one byte past the option into the destination, then cut
  it at the first semicolon. (When the option ends the line, the source reads behind the
  end of the line; the model reads the empty string there.)
\<close>

definition copyLeaseEntry :: "string \<Rightarrow> string \<Rightarrow> nat \<Rightarrow> le_result \<times> string" where
  "copyLeaseEntry searchPtr searchStr destSizeBytes =
     (case le_utf8_Copy
             (drop (length (take DHCP_LEASE_OPTION_MAX_LEN_BYTES searchStr) + 1) searchPtr)
             destSizeBytes of
        (dest, result) \<Rightarrow> (result, takeWhile (\<lambda>c. c \<noteq> CHR '';'') dest))"

text \<open>
  The loop itself. \<open>result\<close> is the value the variable has when the loop starts; it is
  returned when no line holds the option. The destination was zeroed before, so it reads
  as the empty string then. (A NUL byte inside a line ends the line for \<open>strstr\<close> and
  for the copy in the source; the model searches and copies the whole line, so it is the
  source's behaviour on lease files without NUL bytes.)
\<close>

function scanLeaseFile ::
  "dcs_consts \<Rightarrow> string \<Rightarrow> nat \<Rightarrow> le_result \<Rightarrow> string \<Rightarrow> le_result \<times> string" where
  "scanLeaseFile k searchStr destSizeBytes result leaseFile =
     (if leaseFile = [] then (result, [])
      else
        let line = fgets (LEASE_FILE_MAX_LINE_LENGTH_BYTES k - 1) leaseFile
        in (case strstr line searchStr of
              Some searchPtr \<Rightarrow> copyLeaseEntry searchPtr searchStr destSizeBytes
            | None \<Rightarrow>
                scanLeaseFile k searchStr destSizeBytes result (drop (length line) leaseFile)))"
  by pat_completeness auto
termination
proof (relation "measure (\<lambda>(k, searchStr, destSizeBytes, result, leaseFile). length leaseFile)",
    goal_cases)
  case 1
  show ?case by simp
next
  case (2 k searchStr destSizeBytes result leaseFile line)
  obtain m where m: "LEASE_FILE_MAX_LINE_LENGTH_BYTES k - 1 = Suc m"
    by (simp add: LEASE_FILE_MAX_LINE_LENGTH_BYTES_def DHCP_LEASE_OPTION_MAX_LEN_BYTES_def)
  from 2(1) obtain c cs where "leaseFile = c # cs" by (cases leaseFile) auto
  with 2(2) m have "line \<noteq> []" by simp
  with 2(1) show ?case by (cases line) simp_all
qed

declare scanLeaseFile.simps [simp del]

text \<open>The lines that the successive calls of \<open>fgets\<close> in that loop read from a file.\<close>

function leaseLines :: "dcs_consts \<Rightarrow> string \<Rightarrow> string list" where
  "leaseLines k leaseFile =
     (if leaseFile = [] then []
      else
        let line = fgets (LEASE_FILE_MAX_LINE_LENGTH_BYTES k - 1) leaseFile
        in line # leaseLines k (drop (length line) leaseFile))"
  by pat_completeness auto
termination
proof (relation "measure (\<lambda>(k, leaseFile). length leaseFile)", goal_cases)
  case 1
  show ?case by simp
next
  case (2 k leaseFile line)
  obtain m where m: "LEASE_FILE_MAX_LINE_LENGTH_BYTES k - 1 = Suc m"
    by (simp add: LEASE_FILE_MAX_LINE_LENGTH_BYTES_def DHCP_LEASE_OPTION_MAX_LEN_BYTES_def)
  from 2(1) obtain c cs where "leaseFile = c # cs" by (cases leaseFile) auto
  with 2(2) m have "line \<noteq> []" by simp
  with 2(1) show ?case by (cases line) simp_all
qed

declare leaseLines.simps [simp del]

definition GetDhcpLeaseFileEntry ::
  "dcs_consts \<Rightarrow> env \<Rightarrow> string \<Rightarrow> DhcpAddress_t \<Rightarrow> nat \<Rightarrow> le_result \<times> string \<times> event list" where
  "GetDhcpLeaseFileEntry k e interfaceStr infoType destSizeBytes =
     (case pa_dcs_GetDhcpLeaseFilePath e interfaceStr of
        (result, pathBuff) \<Rightarrow>
          if result \<noteq> LE_OK then (LE_FAULT, [], [PaGetDhcpLeaseFilePath interfaceStr])
          else
            let searchStr =
                  fst (le_utf8_Copy
                         (case infoType of
                            LE_NET_DNS_SERVER_ADDRESS \<Rightarrow> DNS_ADDRESS_OPTION
                          | LE_NET_DEFAULT_GATEWAY_ADDRESS \<Rightarrow> DEFAULT_GW_OPTION)
                         DHCP_LEASE_OPTION_MAX_LEN_BYTES);
                evs = [PaGetDhcpLeaseFilePath interfaceStr, FlockTryOpenStream pathBuff]
            in (case le_flock_TryOpenStream e pathBuff of
                  (result, None) \<Rightarrow> (result, [], evs)
                | (result, Some leaseFile) \<Rightarrow>
                    (case scanLeaseFile k searchStr destSizeBytes result leaseFile of
                       (result, dest) \<Rightarrow> (result, dest, evs))))"

text \<open>
  The token loop of \<open>GetLeaseAddresses\<close>. The two output pointers advance by one slot
  for each address stored, so the slot written is the one at the count times the slot
  width.
\<close>

fun fillAddresses ::
  "nat \<Rightarrow> nat \<Rightarrow> nat \<Rightarrow> string list \<Rightarrow> string \<times> nat \<times> string \<times> nat \<Rightarrow>
   string \<times> nat \<times> string \<times> nat" where
  "fillAddresses v4AddrSize v6AddrSize numAddresses [] st = st"
| "fillAddresses v4AddrSize v6AddrSize numAddresses (token # rest)
     (v4Addr, ipv4AddrCnt, v6Addr, ipv6AddrCnt) =
     (let isIpv6 = (CHR '':'' \<in> set token)
      in if \<not> isIpv6 \<and> ipv4AddrCnt < numAddresses then
           fillAddresses v4AddrSize v6AddrSize numAddresses rest
             (write_at v4Addr (ipv4AddrCnt * v4AddrSize) (strncpy token v4AddrSize),
              ipv4AddrCnt + 1, v6Addr, ipv6AddrCnt)
         else if isIpv6 \<and> ipv6AddrCnt < numAddresses then
           fillAddresses v4AddrSize v6AddrSize numAddresses rest
             (v4Addr, ipv4AddrCnt,
              write_at v6Addr (ipv6AddrCnt * v6AddrSize) (strncpy token v6AddrSize),
              ipv6AddrCnt + 1)
         else
           fillAddresses v4AddrSize v6AddrSize numAddresses rest
             (v4Addr, ipv4AddrCnt, v6Addr, ipv6AddrCnt))"

text \<open>
  What the token loop amounts to, for each family: the tokens of the family are stored
  one slot after the other, from the slot \<open>cnt\<close> on. A token belongs to IPv6 when it
  has a colon.
\<close>

fun storeTokens :: "nat \<Rightarrow> string list \<Rightarrow> string \<Rightarrow> nat \<Rightarrow> string" where
  "storeTokens sz [] buf cnt = buf"
| "storeTokens sz (t # ts) buf cnt =
     storeTokens sz ts (write_at buf (cnt * sz) (strncpy t sz)) (cnt + 1)"

definition hasColon :: "string \<Rightarrow> bool" where
  "hasColon t = (CHR '':'' \<in> set t)"

text \<open>
  The first token of a lease entry that belongs to a family, and the empty string when
  the entry has no token of that family: what a caller asking for one address of each
  family is to receive.
\<close>

definition firstToken :: "bool \<Rightarrow> string \<Rightarrow> string" where
  "firstToken isIpv6 entry =
     (case filter (\<lambda>t. hasColon t = isIpv6) (strtok_r [] entry) of
        [] \<Rightarrow> []
      | t # ts \<Rightarrow> t)"

text \<open>
  \<open>GetLeaseAddresses\<close> takes the two output buffers as the caller has them and returns
  them as it leaves them.
\<close>

definition GetLeaseAddresses ::
  "dcs_consts \<Rightarrow> env \<Rightarrow> string \<Rightarrow> DhcpAddress_t \<Rightarrow> string \<Rightarrow> nat \<Rightarrow> string \<Rightarrow> nat \<Rightarrow> nat \<Rightarrow>
   le_result \<times> string \<times> string \<times> event list" where
  "GetLeaseAddresses k e interfaceStr infoType v4Addr v4AddrSize v6Addr v6AddrSize numAddresses =
     (if numAddresses > MAX_NUM_DNS_ADDRESS_BY_TYPE then (LE_FAULT, v4Addr, v6Addr, [])
      else
        let v4Zero = write_at v4Addr 0 (memset0 (v4AddrSize * numAddresses));
            v6Zero = write_at v6Addr 0 (memset0 (v6AddrSize * numAddresses));
            addrBufferSizeBytes =
              MAX_NUM_DNS_ADDRESS_BY_TYPE
              * (PA_DCS_IPV4_ADDR_MAX_BYTES k + PA_DCS_IPV6_ADDR_MAX_BYTES k + 1)
        in (case GetDhcpLeaseFileEntry k e interfaceStr infoType addrBufferSizeBytes of
              (result, addressBuffer, evs) \<Rightarrow>
                if result = LE_OK then
                  (case fillAddresses v4AddrSize v6AddrSize numAddresses
                          (strtok_r [] addressBuffer) (v4Zero, 0, v6Zero, 0) of
                     (v4Out, _, v6Out, _) \<Rightarrow> (result, v4Out, v6Out, evs))
                else (result, v4Zero, v6Zero, evs)))"

section \<open>Reading the addresses of a channel\<close>

record le_net_DefaultGatewayAddresses_t =
  ipv4Addr :: string
  ipv6Addr :: string

record le_net_DnsServerAddresses_t =
  ipv4Addr1 :: string
  ipv4Addr2 :: string
  ipv6Addr1 :: string
  ipv6Addr2 :: string

text \<open>
  The output structure is passed by pointer: \<open>None\<close> is the null pointer, \<open>Some a\<close> a
  structure whose string fields read as \<open>a\<close>. Both operations return the structure as
  they leave it. The fields of both structures have the widths \<open>sizeof_ipv4Addr\<close> and
  \<open>sizeof_ipv6Addr\<close>.
\<close>

definition le_net_GetDefaultGW ::
  "dcs_consts \<Rightarrow> env \<Rightarrow> le_dcs_ChannelRef_t \<Rightarrow> le_net_DefaultGatewayAddresses_t option \<Rightarrow>
   le_result \<times> le_net_DefaultGatewayAddresses_t option \<times> event list" where
  "le_net_GetDefaultGW k e channelRef addr =
     (case addr of
        None \<Rightarrow> (LE_FAULT, None, [])
      | Some a \<Rightarrow>
          (case le_dcs_GetChannelDbFromRef e channelRef of
             None \<Rightarrow> (LE_FAULT, addr, [])
           | Some channelDb \<Rightarrow>
               (case le_dcsTech_GetNetInterface e (technology channelDb) channelRef of
                  (ret, intf) \<Rightarrow>
                    if ret \<noteq> LE_OK then (LE_FAULT, addr, [])
                    else
                      (case GetLeaseAddresses k e intf LE_NET_DEFAULT_GATEWAY_ADDRESS
                              (write_at (strncpy (ipv4Addr a) (sizeof_ipv4Addr k)) 0 [NUL])
                              (sizeof_ipv4Addr k)
                              (write_at (strncpy (ipv6Addr a) (sizeof_ipv6Addr k)) 0 [NUL])
                              (sizeof_ipv6Addr k)
                              MAX_NUM_DEFAULT_GATEWAY_ADDRESS_BY_TYPE of
                         (result, v4Out, v6Out, evs) \<Rightarrow>
                           (result, Some \<lparr>ipv4Addr = cstr v4Out, ipv6Addr = cstr v6Out\<rparr>,
                            evs)))))"

definition le_net_GetDNS ::
  "dcs_consts \<Rightarrow> env \<Rightarrow> le_dcs_ChannelRef_t \<Rightarrow> le_net_DnsServerAddresses_t option \<Rightarrow>
   le_result \<times> le_net_DnsServerAddresses_t option \<times> event list" where
  "le_net_GetDNS k e channelRef addr =
     (case addr of
        None \<Rightarrow> (LE_FAULT, None, [])
      | Some a \<Rightarrow>
          (case le_dcs_GetChannelDbFromRef e channelRef of
             None \<Rightarrow> (LE_FAULT, addr, [])
           | Some channelDb \<Rightarrow>
               (case le_dcsTech_GetNetInterface e (technology channelDb) channelRef of
                  (result, intf) \<Rightarrow>
                    if result \<noteq> LE_OK then (LE_FAULT, addr, [])
                    else
                      let cleared = \<lparr>ipv4Addr1 = [], ipv4Addr2 = [],
                                      ipv6Addr1 = [], ipv6Addr2 = []\<rparr>
                      in (case GetLeaseAddresses k e intf LE_NET_DNS_SERVER_ADDRESS
                                 (memset0 (2 * PA_DCS_IPV4_ADDR_MAX_BYTES k))
                                 (PA_DCS_IPV4_ADDR_MAX_BYTES k)
                                 (memset0 (2 * PA_DCS_IPV6_ADDR_MAX_BYTES k))
                                 (PA_DCS_IPV6_ADDR_MAX_BYTES k)
                                 MAX_NUM_DNS_ADDRESS_BY_TYPE of
                            (result, v4DnsAddrs, v6DnsAddrs, evs) \<Rightarrow>
                              if result \<noteq> LE_OK then (LE_FAULT, Some cleared, evs)
                              else
                                (result,
                                 Some \<lparr>ipv4Addr1 =
                                         fst (le_utf8_Copy (cstr v4DnsAddrs) (sizeof_ipv4Addr k)),
                                       ipv4Addr2 =
                                         fst (le_utf8_Copy
                                                (cstr (drop (PA_DCS_IPV4_ADDR_MAX_BYTES k)
                                                         v4DnsAddrs))
                                                (sizeof_ipv4Addr k)),
                                       ipv6Addr1 =
                                         fst (le_utf8_Copy (cstr v6DnsAddrs) (sizeof_ipv6Addr k)),
                                       ipv6Addr2 =
                                         fst (le_utf8_Copy
                                                (cstr (drop (PA_DCS_IPV6_ADDR_MAX_BYTES k)
                                                         v6DnsAddrs))
                                                (sizeof_ipv6Addr k))\<rparr>,
                                 evs)))))"

section \<open>The stack of default gateway backups\<close>

record pa_dcs_DefaultGwBackup_t =
  appSessionRef :: le_msg_SessionRef_t
  defaultV4GW :: string
  defaultV4Interface :: string
  setV4GwToSystem :: bool
  defaultV6GW :: string
  defaultV6Interface :: string
  setV6GwToSystem :: bool

text \<open>
  \<open>DcsDefaultGwConfigDbList\<close> is a doubly linked list of \<open>DcsDefaultGwConfigDb_t\<close>, each
  holding one \<open>backupConfig\<close>. The model is the list of the \<open>backupConfig\<close> values from
  the head on; a pointer to a member of the list is its position.
\<close>

type_synonym DcsDefaultGwConfigDbList = "pa_dcs_DefaultGwBackup_t list"

definition zeroed :: pa_dcs_DefaultGwBackup_t where
  "zeroed = \<lparr>appSessionRef = 0, defaultV4GW = [], defaultV4Interface = [],
             setV4GwToSystem = False, defaultV6GW = [], defaultV6Interface = [],
             setV6GwToSystem = False\<rparr>"

text \<open>
  Modelled from the spec: the list operations \<open>le_dls_Peek\<close>, \<open>le_dls_PeekNext\<close>,
  \<open>le_dls_IsHead\<close>, \<open>le_dls_Remove\<close> and \<open>le_dls_Stack\<close> belong to the framework,
  outside \<^verbatim>\<open>dcsNet.c\<close>. The stack is an ordered sequence with the member inserted last
  at the head; it is scanned from the head, a member is removed wherever it sits, and a
  member is pushed to the head (sections 3 and 4.3).
\<close>

definition le_dls_Remove :: "DcsDefaultGwConfigDbList \<Rightarrow> nat \<Rightarrow> DcsDefaultGwConfigDbList" where
  "le_dls_Remove db i = take i db @ drop (Suc i) db"

definition le_dls_Stack ::
  "DcsDefaultGwConfigDbList \<Rightarrow> pa_dcs_DefaultGwBackup_t \<Rightarrow> DcsDefaultGwConfigDbList" where
  "le_dls_Stack db x = x # db"

definition DcsNetGetSessionRef :: "env \<Rightarrow> le_msg_SessionRef_t" where
  "DcsNetGetSessionRef e = le_net_GetClientSessionRef e"

text \<open>The \<open>for\<close> loop of \<open>GetDefaultGwConfigDb\<close>, from the member at position \<open>i\<close> on.\<close>

fun peekFrom :: "le_msg_SessionRef_t \<Rightarrow> DcsDefaultGwConfigDbList \<Rightarrow> nat \<Rightarrow> nat option" where
  "peekFrom r [] i = None"
| "peekFrom r (d # ds) i = (if appSessionRef d = r then Some i else peekFrom r ds (Suc i))"

definition GetDefaultGwConfigDb ::
  "le_msg_SessionRef_t \<Rightarrow> DcsDefaultGwConfigDbList \<Rightarrow> nat option \<times> bool" where
  "GetDefaultGwConfigDb r db =
     (case peekFrom r db 0 of
        None \<Rightarrow> (None, False)
      | Some i \<Rightarrow> (Some i, i = 0))"

text \<open>
  The second half of \<open>InsertDefaultGwBackupDb\<close>: the two flags, computed from the fields
  archived so far, and then the four copies.
\<close>

definition archiveDefaultGw ::
  "dcs_consts \<Rightarrow> bool \<Rightarrow> pa_dcs_DefaultGwBackup_t \<Rightarrow> pa_dcs_DefaultGwBackup_t \<Rightarrow>
   pa_dcs_DefaultGwBackup_t" where
  "archiveDefaultGw k found archivedData backupData =
     archivedData
       \<lparr>setV4GwToSystem :=
          (if found then
             (if strncmp0 (defaultV4GW archivedData) (defaultV4GW backupData)
                   (PA_DCS_IPV4_ADDR_MAX_BYTES k) \<and>
                 strncmp0 (defaultV4Interface archivedData) (defaultV4Interface backupData)
                   (PA_DCS_INTERFACE_NAME_MAX_BYTES k)
              then setV4GwToSystem backupData else False)
           else False),
        setV6GwToSystem :=
          (if found then
             (if strncmp0 (defaultV6GW archivedData) (defaultV6GW backupData)
                   (PA_DCS_IPV6_ADDR_MAX_BYTES k) \<and>
                 strncmp0 (defaultV6Interface archivedData) (defaultV6Interface backupData)
                   (PA_DCS_INTERFACE_NAME_MAX_BYTES k)
              then setV6GwToSystem backupData else False)
           else False),
        defaultV4GW :=
          fst (le_utf8_Copy (defaultV4GW backupData) (PA_DCS_IPV4_ADDR_MAX_BYTES k)),
        defaultV4Interface :=
          fst (le_utf8_Copy (defaultV4Interface backupData) (PA_DCS_INTERFACE_NAME_MAX_BYTES k)),
        defaultV6GW :=
          fst (le_utf8_Copy (defaultV6GW backupData) (PA_DCS_IPV6_ADDR_MAX_BYTES k)),
        defaultV6Interface :=
          fst (le_utf8_Copy (defaultV6Interface backupData)
                 (PA_DCS_INTERFACE_NAME_MAX_BYTES k))\<rparr>"

definition InsertDefaultGwBackupDb ::
  "dcs_consts \<Rightarrow> le_msg_SessionRef_t \<Rightarrow> pa_dcs_DefaultGwBackup_t \<Rightarrow> DcsDefaultGwConfigDbList \<Rightarrow>
   DcsDefaultGwConfigDbList" where
  "InsertDefaultGwBackupDb k r backupData db =
     (case GetDefaultGwConfigDb r db of
        (None, isRecent) \<Rightarrow>
          le_dls_Stack db
            (archiveDefaultGw k False (zeroed\<lparr>appSessionRef := r\<rparr>) backupData)
      | (Some i, isRecent) \<Rightarrow>
          le_dls_Stack (le_dls_Remove db i) (archiveDefaultGw k True (db ! i) backupData))"

section \<open>Backing up, restoring and setting the default gateway\<close>

text \<open>
  \<open>le_net_BackupDefaultGW\<close> zeroes a structure, lets the platform adapter fill the
  gateway fields, and inserts it for the calling session.
\<close>

definition le_net_BackupDefaultGW ::
  "dcs_consts \<Rightarrow> env \<Rightarrow> DcsDefaultGwConfigDbList \<Rightarrow> DcsDefaultGwConfigDbList" where
  "le_net_BackupDefaultGW k e db =
     (let sessionRef = DcsNetGetSessionRef e;
          reply = pa_dcs_GetDefaultGateway e;
          defGwConfigBackup =
            zeroed\<lparr>defaultV4GW := replyV4GW reply,
                   defaultV4Interface := replyV4Interface reply,
                   defaultV6GW := replyV6GW reply,
                   defaultV6Interface := replyV6Interface reply\<rparr>
      in InsertDefaultGwBackupDb k sessionRef defGwConfigBackup db)"

text \<open>
  The destructor registered in \<open>COMPONENT_INIT\<close> unlinks the object from the list; a
  null object is left alone.

  Modelled from the spec: \<open>le_mem_Release\<close> belongs to the framework, outside
  \<^verbatim>\<open>dcsNet.c\<close>. Freeing a snapshot triggers the destructor, which unlinks it from the
  stack (section 4.3); every snapshot is held once, by the allocation in
  \<open>InsertDefaultGwBackupDb\<close>.
\<close>

definition DcsDefaultGwConfigDbDestructor ::
  "DcsDefaultGwConfigDbList \<Rightarrow> nat option \<Rightarrow> DcsDefaultGwConfigDbList" where
  "DcsDefaultGwConfigDbDestructor db objPtr =
     (case objPtr of None \<Rightarrow> db | Some i \<Rightarrow> le_dls_Remove db i)"

definition le_mem_Release :: "DcsDefaultGwConfigDbList \<Rightarrow> nat \<Rightarrow> DcsDefaultGwConfigDbList" where
  "le_mem_Release db i = DcsDefaultGwConfigDbDestructor db (Some i)"

definition le_net_RestoreDefaultGW ::
  "env \<Rightarrow> DcsDefaultGwConfigDbList \<Rightarrow> le_result \<times> DcsDefaultGwConfigDbList \<times> event list" where
  "le_net_RestoreDefaultGW e db =
     (case GetDefaultGwConfigDb (DcsNetGetSessionRef e) db of
        (None, isRecent) \<Rightarrow> (LE_NOT_FOUND, db, [])
      | (Some i, isRecent) \<Rightarrow>
          let warn =
                (if \<not> isRecent then
                   [LeWarn ''Default GW configs restored not in the reversed order of being backed up'']
                 else []);
              defGwConfigBackup = db ! i;
              v4Result =
                (if setV4GwToSystem defGwConfigBackup then
                   pa_dcs_SetDefaultGateway e (defaultV4Interface defGwConfigBackup)
                     (defaultV4GW defGwConfigBackup) False
                 else LE_OK);
              v4Call =
                (if setV4GwToSystem defGwConfigBackup then
                   [PaSetDefaultGateway (defaultV4Interface defGwConfigBackup)
                      (defaultV4GW defGwConfigBackup) False]
                 else []);
              v6Result =
                (if setV6GwToSystem defGwConfigBackup then
                   pa_dcs_SetDefaultGateway e (defaultV6Interface defGwConfigBackup)
                     (defaultV6GW defGwConfigBackup) True
                 else LE_OK);
              v6Call =
                (if setV6GwToSystem defGwConfigBackup then
                   [PaSetDefaultGateway (defaultV6Interface defGwConfigBackup)
                      (defaultV6GW defGwConfigBackup) True]
                 else [])
          in (if v4Result = LE_OK \<or> v6Result = LE_OK then LE_OK else LE_FAULT,
              le_mem_Release db i,
              warn @ v4Call @ v6Call))"

text \<open>
  The first half of \<open>le_net_SetDefaultGW\<close> after the interface is known: the gateway
  addresses of the channel, from the technology when it is cellular and from the lease
  file of the interface otherwise. The two local arrays are not initialised;
  \<open>GetLeaseAddresses\<close> clears them before it writes. (A lease token that fills an
  array is left without its NUL by \<open>strncpy\<close>, and the source then reads on behind the
  array; the model reads the bytes of the array only, so it is the source's behaviour
  for tokens shorter than the arrays.)
\<close>

definition queryDefaultGWAddress ::
  "dcs_consts \<Rightarrow> env \<Rightarrow> le_dcs_channelDb_t \<Rightarrow> string \<Rightarrow> le_result \<times> string \<times> string \<times> event list"
  where
  "queryDefaultGWAddress k e channelDb intf =
     (if technology channelDb = LE_DCS_TECH_CELLULAR k then
        (case le_dcsTech_GetDefaultGWAddress e (technology channelDb) (techRef channelDb) of
           (ret, v4GwAddr, v6GwAddr) \<Rightarrow>
             (ret, v4GwAddr, v6GwAddr,
              [TechGetDefaultGWAddress (technology channelDb) (techRef channelDb)]))
      else
        (case GetLeaseAddresses k e intf LE_NET_DEFAULT_GATEWAY_ADDRESS
                (memset0 (PA_DCS_IPV4_ADDR_MAX_BYTES k)) (PA_DCS_IPV4_ADDR_MAX_BYTES k)
                (memset0 (PA_DCS_IPV6_ADDR_MAX_BYTES k)) (PA_DCS_IPV6_ADDR_MAX_BYTES k)
                MAX_NUM_DEFAULT_GATEWAY_ADDRESS_BY_TYPE of
           (ret, v4GwAddr, v6GwAddr, evs) \<Rightarrow> (ret, cstr v4GwAddr, cstr v6GwAddr, evs)))"

text \<open>
  The second half: look the caller's backup up, program the IPv6 gateway and then the
  IPv4 gateway, and mark each family that the adapter accepted in the backup found.
\<close>

definition applyDefaultGW ::
  "env \<Rightarrow> string \<Rightarrow> string \<Rightarrow> string \<Rightarrow> DcsDefaultGwConfigDbList \<Rightarrow>
   le_result \<times> DcsDefaultGwConfigDbList \<times> event list" where
  "applyDefaultGW e intf v4GwAddr v6GwAddr db =
     (case GetDefaultGwConfigDb (DcsNetGetSessionRef e) db of
        (defGwConfigDbPtr, isRecent) \<Rightarrow>
          let warn1 =
                (if defGwConfigDbPtr = None then
                   [LeWarn ''Present default GW configs on system not backed up before config changes'']
                 else []);
              warn2 =
                (if \<not> isRecent then
                   [LeWarn ''Another app made a newer default GW configs backup'']
                 else []);
              v6Ret =
                (if v6GwAddr \<noteq> [] then pa_dcs_SetDefaultGateway e intf v6GwAddr True
                 else LE_FAULT);
              v6Call = (if v6GwAddr \<noteq> [] then [PaSetDefaultGateway intf v6GwAddr True] else []);
              db6 =
                (case defGwConfigDbPtr of
                   Some i \<Rightarrow>
                     if v6GwAddr \<noteq> [] \<and> v6Ret = LE_OK
                     then db[i := (db ! i)\<lparr>setV6GwToSystem := True\<rparr>] else db
                 | None \<Rightarrow> db);
              v4Ret =
                (if v4GwAddr \<noteq> [] then pa_dcs_SetDefaultGateway e intf v4GwAddr False
                 else LE_FAULT);
              v4Call = (if v4GwAddr \<noteq> [] then [PaSetDefaultGateway intf v4GwAddr False] else []);
              db4 =
                (case defGwConfigDbPtr of
                   Some i \<Rightarrow>
                     if v4GwAddr \<noteq> [] \<and> v4Ret = LE_OK
                     then db6[i := (db6 ! i)\<lparr>setV4GwToSystem := True\<rparr>] else db6
                 | None \<Rightarrow> db6)
          in (if v4Ret = LE_OK \<or> v6Ret = LE_OK then LE_OK else LE_FAULT,
              db4,
              warn1 @ warn2 @ v6Call @ v4Call))"

definition le_net_SetDefaultGW ::
  "dcs_consts \<Rightarrow> env \<Rightarrow> le_dcs_ChannelRef_t \<Rightarrow> DcsDefaultGwConfigDbList \<Rightarrow>
   le_result \<times> DcsDefaultGwConfigDbList \<times> event list" where
  "le_net_SetDefaultGW k e channelRef db =
     (case le_dcs_GetChannelDbFromRef e channelRef of
        None \<Rightarrow> (LE_FAULT, db, [])
      | Some channelDb \<Rightarrow>
          if LE_DCS_TECH_UNKNOWN k = technology channelDb \<or>
             LE_DCS_TECH_MAX k \<le> technology channelDb
          then (LE_UNSUPPORTED, db, [])
          else
            (case le_dcsTech_GetNetInterface e (technology channelDb) channelRef of
               (ret, intf) \<Rightarrow>
                 if ret \<noteq> LE_OK then (LE_FAULT, db, [])
                 else
                   (case queryDefaultGWAddress k e channelDb intf of
                      (ret, v4GwAddr, v6GwAddr, evs) \<Rightarrow>
                        if ret \<noteq> LE_OK then (ret, db, evs)
                        else if v6GwAddr = [] \<and> v4GwAddr = [] then (LE_FAULT, db, evs)
                        else
                          (case applyDefaultGW e intf v4GwAddr v6GwAddr db of
                             (result, db', evs') \<Rightarrow> (result, db', evs @ evs')))))"

section \<open>Sequences of gateway operations\<close>

text \<open>
  A public operation on the gateway, with the environment of the call.
  \<open>COMPONENT_INIT\<close> leaves the list empty; \<open>run\<close> performs a sequence of operations
  one after the other, as the event loop of the service dispatches them.
\<close>

datatype gw_op =
    BackupDefaultGW env
  | SetDefaultGW env le_dcs_ChannelRef_t
  | RestoreDefaultGW env

fun callerOf :: "gw_op \<Rightarrow> le_msg_SessionRef_t" where
  "callerOf (BackupDefaultGW e) = DcsNetGetSessionRef e"
| "callerOf (SetDefaultGW e channelRef) = DcsNetGetSessionRef e"
| "callerOf (RestoreDefaultGW e) = DcsNetGetSessionRef e"

fun step :: "dcs_consts \<Rightarrow> gw_op \<Rightarrow> DcsDefaultGwConfigDbList \<Rightarrow> DcsDefaultGwConfigDbList" where
  "step k (BackupDefaultGW e) db = le_net_BackupDefaultGW k e db"
| "step k (SetDefaultGW e channelRef) db = fst (snd (le_net_SetDefaultGW k e channelRef db))"
| "step k (RestoreDefaultGW e) db = fst (snd (le_net_RestoreDefaultGW e db))"

fun run :: "dcs_consts \<Rightarrow> gw_op list \<Rightarrow> DcsDefaultGwConfigDbList \<Rightarrow> DcsDefaultGwConfigDbList" where
  "run k [] db = db"
| "run k (x # xs) db = run k xs (step k x db)"

definition COMPONENT_INIT :: DcsDefaultGwConfigDbList where
  "COMPONENT_INIT = []"

text \<open>The calls of the adapter's \<open>set_default_gateway\<close> for one family among some events.\<close>

fun isSetCall :: "bool \<Rightarrow> event \<Rightarrow> bool" where
  "isSetCall isV6 (PaSetDefaultGateway intf gw v6) = (v6 = isV6)"
| "isSetCall isV6 _ = False"

definition setCalls :: "bool \<Rightarrow> event list \<Rightarrow> event list" where
  "setCalls isV6 evs = filter (isSetCall isV6) evs"

text \<open>The backup that \<open>GetDefaultGwConfigDb\<close> finds for a session, if it finds one.\<close>

definition backupOf ::
  "le_msg_SessionRef_t \<Rightarrow> DcsDefaultGwConfigDbList \<Rightarrow> pa_dcs_DefaultGwBackup_t option" where
  "backupOf s db =
     (case fst (GetDefaultGwConfigDb s db) of None \<Rightarrow> None | Some i \<Rightarrow> Some (db ! i))"

text \<open>
  The flag of a family in a backup, and the call with which \<open>le_net_RestoreDefaultGW\<close>
  reprograms the archived gateway of that family.
\<close>

definition installed :: "bool \<Rightarrow> pa_dcs_DefaultGwBackup_t \<Rightarrow> bool" where
  "installed isV6 d = (if isV6 then setV6GwToSystem d else setV4GwToSystem d)"

definition archivedCall :: "bool \<Rightarrow> pa_dcs_DefaultGwBackup_t \<Rightarrow> event" where
  "archivedCall isV6 d =
     (if isV6 then PaSetDefaultGateway (defaultV6Interface d) (defaultV6GW d) True
      else PaSetDefaultGateway (defaultV4Interface d) (defaultV4GW d) False)"

fun isSetOp :: "gw_op \<Rightarrow> bool" where
  "isSetOp (SetDefaultGW e channelRef) = True"
| "isSetOp _ = False"

text \<open>
  What the second half of \<open>le_net_SetDefaultGW\<close> does to the backup of the caller: each
  flag is raised when the adapter accepted the gateway of its family, and never lowered.
\<close>

definition markInstalled ::
  "env \<Rightarrow> string \<Rightarrow> string \<Rightarrow> string \<Rightarrow> pa_dcs_DefaultGwBackup_t \<Rightarrow> pa_dcs_DefaultGwBackup_t" where
  "markInstalled e intf v4GwAddr v6GwAddr d =
     d\<lparr>setV6GwToSystem :=
         (setV6GwToSystem d \<or>
          (v6GwAddr \<noteq> [] \<and> pa_dcs_SetDefaultGateway e intf v6GwAddr True = LE_OK)),
       setV4GwToSystem :=
         (setV4GwToSystem d \<or>
          (v4GwAddr \<noteq> [] \<and> pa_dcs_SetDefaultGateway e intf v4GwAddr False = LE_OK))\<rparr>"

definition notInstalled :: "le_msg_SessionRef_t \<Rightarrow> DcsDefaultGwConfigDbList \<Rightarrow> bool" where
  "notInstalled s db =
     (case backupOf s db of
        None \<Rightarrow> True
      | Some d \<Rightarrow> \<not> setV4GwToSystem d \<and> \<not> setV6GwToSystem d)"

section \<open>Addresses and prefix lengths\<close>

text \<open>The classes of \<open>isspace\<close> and \<open>isdigit\<close> in the C locale.\<close>

definition isspace :: "char \<Rightarrow> bool" where
  "isspace c =
     (c = CHR '' '' \<or> c = CHR 0x09 \<or> c = CHR 0x0A \<or> c = CHR 0x0B \<or> c = CHR 0x0C \<or>
      c = CHR 0x0D)"

definition isdigit :: "char \<Rightarrow> bool" where
  "isdigit c = (48 \<le> (of_char c :: nat) \<and> (of_char c :: nat) \<le> 57)"

definition digitVal :: "char \<Rightarrow> int" where
  "digitVal c = int (of_char c) - 48"

text \<open>
  \<open>strtol\<close> with base 10, as the C standard describes it: white space is skipped, a
  sign is read, then the digits up to the first other character; without digits the value
  is 0; a value outside \<open>long\<close> is replaced by the nearest bound.
\<close>

definition digitsValue :: "string \<Rightarrow> int" where
  "digitsValue ds = foldl (\<lambda>a c. 10 * a + digitVal c) 0 ds"

definition strtol :: "dcs_consts \<Rightarrow> string \<Rightarrow> int" where
  "strtol k s =
     (let s1 = dropWhile isspace s;
          neg = (case s1 of [] \<Rightarrow> False | c # cs \<Rightarrow> c = CHR ''-'');
          s2 = (case s1 of [] \<Rightarrow> [] | c # cs \<Rightarrow> if c = CHR ''-'' \<or> c = CHR ''+'' then cs else s1);
          v = digitsValue (takeWhile isdigit s2)
      in if neg then max (- LONG_MAX k - 1) (- v) else min (LONG_MAX k) v)"

text \<open>
  The number written at the start of a string: after optional white space and an
  optional sign, the value of the digits up to the first other character, 0 when there is
  no digit. It is what \<open>strtol\<close> returns when no bound of \<open>long\<close> is reached.
\<close>

definition numberAtStart :: "string \<Rightarrow> int" where
  "numberAtStart s =
     (case dropWhile isspace s of
        [] \<Rightarrow> 0
      | c # cs \<Rightarrow>
          if c = CHR ''-'' then - digitsValue (takeWhile isdigit cs)
          else if c = CHR ''+'' then digitsValue (takeWhile isdigit cs)
          else digitsValue (takeWhile isdigit (c # cs)))"

text \<open>
  \<open>DcsConvertPrefixLengthString\<close>. The length is kept in a \<open>uint16_t\<close> and the result
  of \<open>strtol\<close> is cast to \<open>int16_t\<close>; the function's value is that of the \<open>int16_t\<close>.
  \<open>None\<close> is the null pointer.
\<close>

definition DcsConvertPrefixLengthString :: "dcs_consts \<Rightarrow> string option \<Rightarrow> int" where
  "DcsConvertPrefixLengthString k input =
     (case input of
        None \<Rightarrow> 0
      | Some str \<Rightarrow>
          let inputLen = (word_of_nat (length str) :: 16 word)
          in if inputLen = 0 then 0
             else if unat inputLen > IPV6_PREFIX_LEN_STR_LENGTH then - 1
             else sint (word_of_int (strtol k str) :: 16 word))"

text \<open>
  \<open>inet_pton\<close> for \<open>AF_INET\<close>, as the C library parses dotted-decimal addresses: four
  decimal fields from 0 to 255 separated by single dots, no field with a leading zero,
  nothing before or after. The loop keeps whether the current field has a digit, the
  number of fields begun, the value of the current field and the finished fields; the
  result is the four bytes of the address in network order. The IPv6 parser of the
  library is a field of the environment.
\<close>

fun inet_pton4 :: "string \<Rightarrow> bool \<Rightarrow> nat \<Rightarrow> nat \<Rightarrow> nat list \<Rightarrow> nat list option" where
  "inet_pton4 [] saw_digit octets tp tmp = (if octets < 4 then None else Some (tmp @ [tp]))"
| "inet_pton4 (ch # src) saw_digit octets tp tmp =
     (if isdigit ch then
        (let new = tp * 10 + nat (digitVal ch)
         in if saw_digit \<and> tp = 0 then None
            else if new > 255 then None
            else if \<not> saw_digit then
              (if octets + 1 > 4 then None else inet_pton4 src True (octets + 1) new tmp)
            else inet_pton4 src True octets new tmp)
      else if ch = CHR ''.'' \<and> saw_digit then
        (if octets = 4 then None else inet_pton4 src False octets 0 (tmp @ [tp]))
      else None)"

datatype address_family = AF_INET | AF_INET6

definition inet_pton :: "env \<Rightarrow> address_family \<Rightarrow> string \<Rightarrow> int" where
  "inet_pton e af src =
     (case af of
        AF_INET \<Rightarrow> (if inet_pton4 src False 0 0 [] \<noteq> None then 1 else 0)
      | AF_INET6 \<Rightarrow> (if inet_pton_AF_INET6 e src then 1 else 0))"

definition DcsNetValidateIpAddress :: "env \<Rightarrow> address_family \<Rightarrow> string \<Rightarrow> le_result" where
  "DcsNetValidateIpAddress e af addStr = (if inet_pton e af addStr \<noteq> 0 then LE_OK else LE_FAULT)"

text \<open>
  \<open>inet_aton\<close> is called in one place only, on a string that \<open>inet_pton\<close> has accepted
  for \<open>AF_INET\<close>; on such a string it stores the same four bytes. \<open>s_addr\<close> is the 32-bit
  value of those bytes as a little-endian host reads them. (A big-endian host reads the
  bytes in the opposite order, with the same number of bits set.)
\<close>

definition inet_aton :: "string \<Rightarrow> 32 word option" where
  "inet_aton cp =
     (case inet_pton4 cp False 0 0 [] of
        Some [a, b, c, d] \<Rightarrow>
          Some (word_of_nat a OR push_bit 8 (word_of_nat b) OR push_bit 16 (word_of_nat c)
                OR push_bit 24 (word_of_nat d))
      | _ \<Rightarrow> None)"

text \<open>The \<open>while\<close> loop of \<open>ConvertSubnetMaskToPrefixLength\<close>.\<close>

function countSetBits :: "32 word \<Rightarrow> int \<Rightarrow> int" where
  "countSetBits s_addr prefixLength =
     (if s_addr \<noteq> 0 then
        countSetBits (drop_bit 1 s_addr)
          (if s_addr AND 1 \<noteq> 0 then prefixLength + 1 else prefixLength)
      else prefixLength)"
  by pat_completeness auto
termination
proof (relation "measure (\<lambda>(s_addr, prefixLength). unat s_addr)", goal_cases)
  case 1
  show ?case by simp
next
  case (2 s_addr prefixLength)
  then have "unat s_addr \<noteq> 0" by (simp add: unat_eq_0)
  then have "unat s_addr div 2 < unat s_addr" by simp
  then show ?case by (simp add: drop_bit_eq_div unat_div)
qed

declare countSetBits.simps [simp del]

text \<open>The characters that \<open>printf\<close> writes for the conversion \<open>%d\<close>.\<close>

fun decimal :: "nat \<Rightarrow> string" where
  "decimal n =
     (if n < 10 then [char_of (48 + n)] else decimal (n div 10) @ [char_of (48 + n mod 10)])"

declare decimal.simps [simp del]

definition printf_d :: "int \<Rightarrow> string" where
  "printf_d i = (if i < 0 then CHR ''-'' # decimal (nat (- i)) else decimal (nat i))"

text \<open>
  \<open>ConvertSubnetMaskToPrefixLength\<close> returns its result and the string that the buffer
  of \<open>prefixLengthSz\<close> bytes holds afterwards. \<open>snprintf\<close> stores at most
  \<open>prefixLengthSz - 1\<close> characters and returns the number it had to write. When
  \<open>inet_aton\<close> fails the buffer is not written; it reads as the empty string here.
\<close>

definition ConvertSubnetMaskToPrefixLength :: "string \<Rightarrow> nat \<Rightarrow> le_result \<times> string" where
  "ConvertSubnetMaskToPrefixLength subnetMask prefixLengthSz =
     (case inet_aton subnetMask of
        None \<Rightarrow> (LE_FAULT, [])
      | Some s_addr \<Rightarrow>
          let prefixLength = countSetBits s_addr 0;
              written = printf_d prefixLength
          in (if length written > prefixLengthSz then LE_OVERFLOW else LE_OK,
              take (prefixLengthSz - 1) written))"

section \<open>Changing a route\<close>

text \<open>
  The loop that strips leading white space: \<open>n\<close> is how often the counter may still be
  raised before it reaches \<open>stringLen\<close>, which is a \<open>uint16_t\<close>.
\<close>

fun skipSpaces :: "nat \<Rightarrow> string \<Rightarrow> string" where
  "skipSpaces 0 s = s"
| "skipSpaces (Suc n) [] = []"
| "skipSpaces (Suc n) (c # cs) = (if isspace c then skipSpaces n cs else c # cs)"

definition stripLeading :: "string \<Rightarrow> string" where
  "stripLeading s = skipSpaces (unat (word_of_nat (length s) :: 16 word)) s"

definition DcsNetChangeRoute ::
  "env \<Rightarrow> string \<Rightarrow> string option \<Rightarrow> string \<Rightarrow> bool \<Rightarrow> le_result \<times> event list" where
  "DcsNetChangeRoute e destAddr prefixLength interface isAdd =
     (let action = (if isAdd then PA_DCS_ROUTE_ADD else PA_DCS_ROUTE_DELETE);
          prefixLength' = (case prefixLength of None \<Rightarrow> [] | Some str \<Rightarrow> str)
      in (pa_dcs_ChangeRoute e action destAddr prefixLength' interface,
          [PaChangeRoute action destAddr prefixLength' interface]))"

text \<open>
  The two branches of \<open>le_net_ChangeRoute\<close> that check the prefix length, for a
  destination of either family. Each gives \<open>Inl\<close> the result to return at once, or
  \<open>Inr\<close> the prefix length to go on with, and the warnings logged.
\<close>

definition checkPrefixIPv4 ::
  "dcs_consts \<Rightarrow> env \<Rightarrow> string option \<Rightarrow> (le_result + string option) \<times> event list" where
  "checkPrefixIPv4 k e prefixLength =
     (case prefixLength of
        None \<Rightarrow> (Inr None, [])
      | Some str \<Rightarrow>
          let prefixLen = DcsConvertPrefixLengthString k prefixLength
          in if prefixLen < 0 \<or> prefixLen > IPV6_PREFIX_LENGTH_MAX then
               (let warn1 = [LeWarn ''Input IPv4 subnet mask prefix length %s invalid'']
                in if DcsNetValidateIpAddress e AF_INET str = LE_OK then
                     (let warn2 =
                            [LeWarn ''Deprecated, a prefix length is expected and not a network mask.'']
                      in (case ConvertSubnetMaskToPrefixLength str 3 of
                            (ret, bufPrefixLength) \<Rightarrow>
                              if ret \<noteq> LE_OK then (Inl LE_BAD_PARAMETER, warn1 @ warn2)
                              else (Inr (Some bufPrefixLength), warn1 @ warn2)))
                   else (Inl LE_BAD_PARAMETER, warn1))
             else if prefixLen = 0 then (Inr (Some []), [])
             else (Inr prefixLength, []))"

definition checkPrefixIPv6 ::
  "dcs_consts \<Rightarrow> string option \<Rightarrow> (le_result + string option) \<times> event list" where
  "checkPrefixIPv6 k prefixLength =
     (case prefixLength of
        None \<Rightarrow> (Inr None, [])
      | Some str \<Rightarrow>
          let prefixLen = DcsConvertPrefixLengthString k prefixLength
          in if prefixLen < 0 \<or> prefixLen > IPV6_PREFIX_LENGTH_MAX then (Inl LE_BAD_PARAMETER, [])
             else if prefixLen = 0 then (Inr (Some []), [])
             else (Inr prefixLength, []))"

text \<open>The end of \<open>le_net_ChangeRoute\<close>, once the inputs are accepted.\<close>

definition initiateRouteChange ::
  "env \<Rightarrow> le_dcs_channelDb_t \<Rightarrow> le_dcs_ChannelRef_t \<Rightarrow> string \<Rightarrow> string option \<Rightarrow> bool \<Rightarrow>
   le_result \<times> event list" where
  "initiateRouteChange e channelDb channelRef destAddr prefixLength isAdd =
     (case le_dcsTech_GetNetInterface e (technology channelDb) channelRef of
        (ret, intfName) \<Rightarrow>
          if ret \<noteq> LE_OK then (ret, [])
          else DcsNetChangeRoute e destAddr prefixLength intfName isAdd)"

definition le_net_ChangeRoute ::
  "dcs_consts \<Rightarrow> env \<Rightarrow> le_dcs_ChannelRef_t \<Rightarrow> string option \<Rightarrow> string option \<Rightarrow> bool \<Rightarrow>
   le_result \<times> event list" where
  "le_net_ChangeRoute k e channelRef destAddr prefixLength isAdd =
     (case le_dcs_GetChannelDbFromRef e channelRef of
        None \<Rightarrow> (LE_FAULT, [])
      | Some channelDb \<Rightarrow>
          if LE_DCS_TECH_UNKNOWN k = technology channelDb \<or>
             LE_DCS_TECH_MAX k \<le> technology channelDb
          then (LE_UNSUPPORTED, [])
          else
            (case destAddr of
               None \<Rightarrow> (LE_BAD_PARAMETER, [])
             | Some dest0 \<Rightarrow>
                 let dest = stripLeading dest0;
                     prefix = map_option stripLeading prefixLength
                 in if DcsNetValidateIpAddress e AF_INET dest = LE_OK then
                      (case checkPrefixIPv4 k e prefix of
                         (Inl ret, warns) \<Rightarrow> (ret, warns)
                       | (Inr prefix', warns) \<Rightarrow>
                           (case initiateRouteChange e channelDb channelRef dest prefix' isAdd of
                              (ret, evs) \<Rightarrow> (ret, warns @ evs)))
                    else if DcsNetValidateIpAddress e AF_INET6 dest = LE_OK then
                      (case checkPrefixIPv6 k prefix of
                         (Inl ret, warns) \<Rightarrow> (ret, warns)
                       | (Inr prefix', warns) \<Rightarrow>
                           (case initiateRouteChange e channelDb channelRef dest prefix' isAdd of
                              (ret, evs) \<Rightarrow> (ret, warns @ evs)))
                    else (LE_BAD_PARAMETER, [])))"

fun isTechQuery :: "event \<Rightarrow> bool" where
  "isTechQuery (TechGetDefaultGWAddress tech ref) = True"
| "isTechQuery _ = False"

section \<open>An example platform\<close>

text \<open>
  Constants and an environment for the examples: three channels (1 is cellular, 2 is
  Wi-Fi, 3 has the technology tag \<open>UNKNOWN\<close>), a system whose default gateways are
  10.0.0.1 and fe80::1 on eth0, a cellular network that assigns the gateways 192.0.2.1 and
  2001:db8::1, and a lease file of two lines. The IPv6 parser of the example accepts the
  one IPv6 destination that the examples use. The caller and the answer of the adapter's
  \<open>set_default_gateway\<close> are arguments.
\<close>

definition exampleConsts :: dcs_consts where
  "exampleConsts =
     \<lparr>PA_DCS_IPV4_ADDR_MAX_BYTES = 16, PA_DCS_IPV6_ADDR_MAX_BYTES = 46,
      PA_DCS_INTERFACE_NAME_MAX_BYTES = 20, sizeof_ipv4Addr = 16, sizeof_ipv6Addr = 46,
      LE_DCS_TECH_UNKNOWN = 0, LE_DCS_TECH_CELLULAR = 2, LE_DCS_TECH_MAX = 4,
      LONG_MAX = 2147483647\<rparr>"

definition exampleEnv :: "le_msg_SessionRef_t \<Rightarrow> le_result \<Rightarrow> env" where
  "exampleEnv s setResult =
     \<lparr>le_net_GetClientSessionRef = s,
      pa_dcs_GetDefaultGateway =
        \<lparr>replyV4GW = ''10.0.0.1'', replyV4Interface = ''eth0'',
         replyV6GW = ''fe80::1'', replyV6Interface = ''eth0'',
         v4Ret = LE_OK, v6Ret = LE_OK\<rparr>,
      pa_dcs_SetDefaultGateway = (\<lambda>intf gw isV6. setResult),
      pa_dcs_ChangeRoute = (\<lambda>action dest prefix intf. LE_OK),
      pa_dcs_GetDhcpLeaseFilePath = (\<lambda>intf. (LE_OK, ''/var/run/udhcpc.leases'')),
      le_flock_TryOpenStream =
        (\<lambda>path. (LE_OK,
           Some (''routers 192.168.1.254;'' @ [CHR 0x0A] @
                 ''domain-name-servers 1.1.1.1 8.8.8.8;'' @ [CHR 0x0A]))),
      le_dcs_GetChannelDbFromRef =
        (\<lambda>channelRef.
           if channelRef = 1 then Some \<lparr>channelName = ''cell'', technology = 2, techRef = 7\<rparr>
           else if channelRef = 2 then Some \<lparr>channelName = ''wifi'', technology = 1, techRef = 8\<rparr>
           else if channelRef = 3 then Some \<lparr>channelName = ''none'', technology = 0, techRef = 9\<rparr>
           else None),
      le_dcsTech_GetNetInterface =
        (\<lambda>tech channelRef. (LE_OK, if tech = 2 then ''rmnet0'' else ''wlan0'')),
      le_dcsTech_GetDefaultGWAddress = (\<lambda>tech ref. (LE_OK, ''192.0.2.1'', ''2001:db8::1'')),
      inet_pton_AF_INET6 = (\<lambda>src. src = ''2001:db8::'')\<rparr>"

text \<open>
  The same platform when the default gateways of the system already are the ones that
  the cellular network assigns, on the interface of the cellular channel.
\<close>

definition cellularIsDefault :: "le_msg_SessionRef_t \<Rightarrow> env" where
  "cellularIsDefault s =
     (exampleEnv s LE_OK)
       \<lparr>pa_dcs_GetDefaultGateway :=
          \<lparr>replyV4GW = ''192.0.2.1'', replyV4Interface = ''rmnet0'',
           replyV6GW = ''2001:db8::1'', replyV6Interface = ''rmnet0'',
           v4Ret = LE_OK, v6Ret = LE_OK\<rparr>\<rparr>"

section \<open>Facts about the lease parser\<close>

lemma lease_entry_events:
  "\<exists>rest. snd (snd (GetDhcpLeaseFileEntry k e intf t n)) = PaGetDhcpLeaseFilePath intf # rest \<and>
          filter isTechQuery rest = []"
  by (simp add: GetDhcpLeaseFileEntry_def Let_def split: prod.splits option.splits)

lemma lease_addresses_events:
  "n \<le> MAX_NUM_DNS_ADDRESS_BY_TYPE \<Longrightarrow>
     \<exists>rest. snd (snd (snd (GetLeaseAddresses k e intf t b4 n4 b6 n6 n)))
              = PaGetDhcpLeaseFilePath intf # rest \<and> filter isTechQuery rest = []"
  using lease_entry_events [of k e intf t
      "MAX_NUM_DNS_ADDRESS_BY_TYPE * (PA_DCS_IPV4_ADDR_MAX_BYTES k + PA_DCS_IPV6_ADDR_MAX_BYTES k + 1)"]
  by (auto simp: GetLeaseAddresses_def Let_def split: prod.splits)

lemma lease_entry_ignores_tech:
  "GetDhcpLeaseFileEntry k (e\<lparr>le_dcsTech_GetDefaultGWAddress := f\<rparr>) intf t n
     = GetDhcpLeaseFileEntry k e intf t n"
  by (simp add: GetDhcpLeaseFileEntry_def Let_def split: prod.splits)

lemma lease_addresses_ignores_tech:
  "GetLeaseAddresses k (e\<lparr>le_dcsTech_GetDefaultGWAddress := f\<rparr>) intf t b4 n4 b6 n6 n
     = GetLeaseAddresses k e intf t b4 n4 b6 n6 n"
  by (simp add: GetLeaseAddresses_def lease_entry_ignores_tech Let_def split: prod.splits)

lemma leaseLines_Cons:
  "leaseLines k f = l # ls \<Longrightarrow>
     f \<noteq> [] \<and> fgets (LEASE_FILE_MAX_LINE_LENGTH_BYTES k - 1) f = l \<and>
     leaseLines k (drop (length l) f) = ls"
  by (subst (asm) leaseLines.simps) (auto simp: Let_def split: if_splits)

lemma scan_first_matching_line:
  "leaseLines k f = before @ line # after \<Longrightarrow>
   \<forall>l\<in>set before. strstr l key = None \<Longrightarrow>
   strstr line key = Some p \<Longrightarrow>
   scanLeaseFile k key n r f = copyLeaseEntry p key n"
proof (induction before arbitrary: f)
  case Nil
  then have "leaseLines k f = line # after" by simp
  from leaseLines_Cons [OF this] Nil.prems(3) show ?case
    by (subst scanLeaseFile.simps) (simp add: Let_def)
next
  case (Cons b bs)
  then have "leaseLines k f = b # (bs @ line # after)" by simp
  from leaseLines_Cons [OF this]
  have ne: "f \<noteq> []" and b: "fgets (LEASE_FILE_MAX_LINE_LENGTH_BYTES k - 1) f = b"
    and rest: "leaseLines k (drop (length b) f) = bs @ line # after"
    by simp_all
  from Cons.prems(2) have nb: "strstr b key = None" and nbs: "\<forall>l\<in>set bs. strstr l key = None"
    by simp_all
  from Cons.IH [OF rest nbs Cons.prems(3)] ne b nb show ?case
    by (subst scanLeaseFile.simps) (simp add: Let_def)
qed

lemma copy_dns_entry:
  "length rest + 16 < n \<Longrightarrow>
   copyLeaseEntry (''domain-name-servers 1.1.1.1 8.8.8.8;'' @ rest) DNS_ADDRESS_OPTION n
     = (LE_OK, ''1.1.1.1 8.8.8.8'')"
  by (simp add: copyLeaseEntry_def DNS_ADDRESS_OPTION_def DHCP_LEASE_OPTION_MAX_LEN_BYTES_def
      le_utf8_Copy_def)

lemma length_strncpy: "length (strncpy t n) = n"
  by (simp add: strncpy_def)

lemma cstr_strncpy: "NUL \<notin> set t \<Longrightarrow> length t < n \<Longrightarrow> cstr (strncpy t n @ rest) = t"
proof -
  assume t: "NUL \<notin> set t" and l: "length t < n"
  then obtain m where m: "n - length t = Suc m" by (cases "n - length t") auto
  from l have "strncpy t n = t @ replicate (n - length t) NUL" by (simp add: strncpy_def)
  with m have "strncpy t n @ rest = t @ NUL # (replicate m NUL @ rest)" by simp
  moreover from t have "takeWhile (\<lambda>c. c \<noteq> NUL) (t @ NUL # (replicate m NUL @ rest)) = t"
    by (subst takeWhile_append2) auto
  ultimately show ?thesis by (simp only: cstr_def)
qed

lemma cstr_zero: "cstr (replicate m NUL) = []"
  by (cases m) (simp_all add: cstr_def)

lemma write_at_first:
  "length a = n \<Longrightarrow> write_at (replicate (2 * n) NUL) 0 a = a @ replicate n NUL"
  by (simp add: write_at_def)

lemma write_at_second:
  "length a = n \<Longrightarrow> length b = n \<Longrightarrow> write_at (a @ replicate n NUL) n b = a @ b"
  by (simp add: write_at_def)

lemma fill_ipv4_token:
  "CHR '':'' \<notin> set t \<Longrightarrow> c4 < n \<Longrightarrow>
     fillAddresses n4 n6 n (t # ts) (b4, c4, b6, c6)
       = fillAddresses n4 n6 n ts (write_at b4 (c4 * n4) (strncpy t n4), c4 + 1, b6, c6)"
  by simp

lemma fill_two_ipv4_tokens:
  assumes "CHR '':'' \<notin> set t1" and "CHR '':'' \<notin> set t2"
  shows "fillAddresses n4 n6 2 [t1, t2] (replicate (2 * n4) NUL, 0, z6, 0)
           = (strncpy t1 n4 @ strncpy t2 n4, 2, z6, 0)"
proof -
  have w1: "write_at (replicate (2 * n4) NUL) 0 (strncpy t1 n4) = strncpy t1 n4 @ replicate n4 NUL"
    by (rule write_at_first) (rule length_strncpy)
  have w2: "write_at (strncpy t1 n4 @ replicate n4 NUL) n4 (strncpy t2 n4)
      = strncpy t1 n4 @ strncpy t2 n4"
    by (rule write_at_second) (rule length_strncpy)+
  have "fillAddresses n4 n6 2 [t1, t2] (replicate (2 * n4) NUL, 0, z6, 0)
      = fillAddresses n4 n6 2 [t2] (write_at (replicate (2 * n4) NUL) (0 * n4) (strncpy t1 n4), 0 + 1, z6, 0)"
    using assms(1) by (intro fill_ipv4_token) simp_all
  also have "\<dots> = fillAddresses n4 n6 2 [t2] (strncpy t1 n4 @ replicate n4 NUL, 1, z6, 0)"
    by (simp only: w1 mult_0 add_0)
  also have "\<dots> = fillAddresses n4 n6 2 []
      (write_at (strncpy t1 n4 @ replicate n4 NUL) (1 * n4) (strncpy t2 n4), 1 + 1, z6, 0)"
    using assms(2) by (intro fill_ipv4_token) simp_all
  also have "\<dots> = (strncpy t1 n4 @ strncpy t2 n4, 2, z6, 0)"
    by (simp only: w2 mult_1 one_add_one fillAddresses.simps)
  finally show ?thesis .
qed


lemma fill_characterised:
  "fillAddresses n4 n6 n toks (b4, c4, b6, c6) =
     (storeTokens n4 (take (n - c4) (filter (\<lambda>t. \<not> hasColon t) toks)) b4 c4,
      c4 + min (n - c4) (length (filter (\<lambda>t. \<not> hasColon t) toks)),
      storeTokens n6 (take (n - c6) (filter hasColon toks)) b6 c6,
      c6 + min (n - c6) (length (filter hasColon toks)))"
proof (induction toks arbitrary: b4 c4 b6 c6)
  case Nil
  show ?case by simp
next
  case (Cons t ts)
  show ?case
  proof (cases "hasColon t")
    case True
    show ?thesis
    proof (cases "c6 < n")
      case True
      then obtain m where m: "n - c6 = Suc m" by (cases "n - c6") auto
      then have m': "n - (c6 + 1) = m" by simp
      from \<open>hasColon t\<close> True m m' show ?thesis
        by (simp add: Cons.IH hasColon_def [symmetric] Let_def)
    next
      case False
      with \<open>hasColon t\<close> show ?thesis
        by (simp add: Cons.IH hasColon_def [symmetric] Let_def)
    qed
  next
    case False
    show ?thesis
    proof (cases "c4 < n")
      case True
      then obtain m where m: "n - c4 = Suc m" by (cases "n - c4") auto
      then have m': "n - (c4 + 1) = m" by simp
      from \<open>\<not> hasColon t\<close> True m m' show ?thesis
        by (simp add: Cons.IH hasColon_def [symmetric] Let_def)
    next
      case False
      with \<open>\<not> hasColon t\<close> show ?thesis
        by (simp add: Cons.IH hasColon_def [symmetric] Let_def)
    qed
  qed
qed

lemma dns_line_found:
  "strstr (''domain-name-servers 1.1.1.1 8.8.8.8;'' @ rest) DNS_ADDRESS_OPTION
     = Some (''domain-name-servers 1.1.1.1 8.8.8.8;'' @ rest)"
  by (simp add: DNS_ADDRESS_OPTION_def)

lemma dns_option_copied:
  "fst (le_utf8_Copy DNS_ADDRESS_OPTION DHCP_LEASE_OPTION_MAX_LEN_BYTES) = DNS_ADDRESS_OPTION"
  by (simp add: le_utf8_Copy_def DNS_ADDRESS_OPTION_def DHCP_LEASE_OPTION_MAX_LEN_BYTES_def)

lemma dns_tokens: "strtok_r [] ''1.1.1.1 8.8.8.8'' = [''1.1.1.1'', ''8.8.8.8'']"
  by simp

lemma dns_entry:
  assumes "pa_dcs_GetDhcpLeaseFilePath e intf = (LE_OK, path)"
    and "le_flock_TryOpenStream e path = (res, Some leaseFile)"
    and "leaseLines k leaseFile = before @ (''domain-name-servers 1.1.1.1 8.8.8.8;'' @ rest) # after"
    and "\<forall>l\<in>set before. strstr l DNS_ADDRESS_OPTION = None"
    and "length rest + 16 < n"
  shows "GetDhcpLeaseFileEntry k e intf LE_NET_DNS_SERVER_ADDRESS n
           = (LE_OK, ''1.1.1.1 8.8.8.8'', [PaGetDhcpLeaseFilePath intf, FlockTryOpenStream path])"
proof -
  have "scanLeaseFile k DNS_ADDRESS_OPTION n res leaseFile
      = copyLeaseEntry (''domain-name-servers 1.1.1.1 8.8.8.8;'' @ rest) DNS_ADDRESS_OPTION n"
    by (rule scan_first_matching_line [OF assms(3) assms(4) dns_line_found])
  also have "\<dots> = (LE_OK, ''1.1.1.1 8.8.8.8'')"
    by (rule copy_dns_entry [OF assms(5)])
  finally have "scanLeaseFile k DNS_ADDRESS_OPTION n res leaseFile = (LE_OK, ''1.1.1.1 8.8.8.8'')" .
  with assms(1,2) show ?thesis
    by (simp add: GetDhcpLeaseFileEntry_def Let_def dns_option_copied)
qed

lemma dns_addresses:
  assumes "pa_dcs_GetDhcpLeaseFilePath e intf = (LE_OK, path)"
    and "le_flock_TryOpenStream e path = (res, Some leaseFile)"
    and "leaseLines k leaseFile = before @ (''domain-name-servers 1.1.1.1 8.8.8.8;'' @ rest) # after"
    and "\<forall>l\<in>set before. strstr l DNS_ADDRESS_OPTION = None"
    and "length rest + 16 < 2 * (PA_DCS_IPV4_ADDR_MAX_BYTES k + PA_DCS_IPV6_ADDR_MAX_BYTES k + 1)"
  shows "GetLeaseAddresses k e intf LE_NET_DNS_SERVER_ADDRESS
           (memset0 (2 * n4)) n4 (memset0 (2 * n6)) n6 MAX_NUM_DNS_ADDRESS_BY_TYPE
         = (LE_OK, strncpy ''1.1.1.1'' n4 @ strncpy ''8.8.8.8'' n4, replicate (2 * n6) NUL,
            [PaGetDhcpLeaseFilePath intf, FlockTryOpenStream path])"
proof -
  have z4: "write_at (memset0 (2 * n4)) 0 (memset0 (n4 * 2)) = replicate (2 * n4) NUL"
    by (simp add: write_at_def memset0_def mult.commute)
  have z6: "write_at (memset0 (2 * n6)) 0 (memset0 (n6 * 2)) = replicate (2 * n6) NUL"
    by (simp add: write_at_def memset0_def mult.commute)
  have f: "fillAddresses n4 n6 2 [''1.1.1.1'', ''8.8.8.8'']
             (replicate (2 * n4) NUL, 0, replicate (2 * n6) NUL, 0)
           = (strncpy ''1.1.1.1'' n4 @ strncpy ''8.8.8.8'' n4, 2, replicate (2 * n6) NUL, 0)"
    by (rule fill_two_ipv4_tokens) simp_all
  from dns_entry [OF assms(1-4), of "2 * (PA_DCS_IPV4_ADDR_MAX_BYTES k + PA_DCS_IPV6_ADDR_MAX_BYTES k + 1)"] assms(5)
  have "GetDhcpLeaseFileEntry k e intf LE_NET_DNS_SERVER_ADDRESS
          (2 * (PA_DCS_IPV4_ADDR_MAX_BYTES k + PA_DCS_IPV6_ADDR_MAX_BYTES k + 1))
        = (LE_OK, ''1.1.1.1 8.8.8.8'', [PaGetDhcpLeaseFilePath intf, FlockTryOpenStream path])"
    by simp
  then show ?thesis
    by (simp add: GetLeaseAddresses_def MAX_NUM_DNS_ADDRESS_BY_TYPE_def Let_def z4 z6 f
        del: fillAddresses.simps strtok_r.simps add: dns_tokens)
qed

lemma strstr_suffix: "strstr l key = Some p \<Longrightarrow> set p \<subseteq> set l"
  by (induction l) (auto split: if_splits)

lemma strtok_chars: "t \<in> set (strtok_r cur s) \<Longrightarrow> set t \<subseteq> set cur \<union> set s"
  by (induction cur s rule: strtok_r.induct) (auto split: if_splits)

lemma gw_option_copied:
  "fst (le_utf8_Copy DEFAULT_GW_OPTION DHCP_LEASE_OPTION_MAX_LEN_BYTES) = DEFAULT_GW_OPTION"
  by (simp add: le_utf8_Copy_def DEFAULT_GW_OPTION_def DHCP_LEASE_OPTION_MAX_LEN_BYTES_def)

lemma copy_gw_entry:
  "length (drop (length DEFAULT_GW_OPTION + 1) p) < n \<Longrightarrow>
   copyLeaseEntry p DEFAULT_GW_OPTION n
     = (LE_OK, takeWhile (\<lambda>c. c \<noteq> CHR '';'') (drop (length DEFAULT_GW_OPTION + 1) p))"
  by (simp add: copyLeaseEntry_def DEFAULT_GW_OPTION_def DHCP_LEASE_OPTION_MAX_LEN_BYTES_def
      le_utf8_Copy_def)

lemma gw_entry:
  assumes "pa_dcs_GetDhcpLeaseFilePath e intf = (LE_OK, path)"
    and "le_flock_TryOpenStream e path = (res, Some leaseFile)"
    and "leaseLines k leaseFile = before @ line # after"
    and "\<forall>l\<in>set before. strstr l DEFAULT_GW_OPTION = None"
    and "strstr line DEFAULT_GW_OPTION = Some p"
    and "length (drop (length DEFAULT_GW_OPTION + 1) p) < n"
  shows "GetDhcpLeaseFileEntry k e intf LE_NET_DEFAULT_GATEWAY_ADDRESS n
           = (LE_OK, takeWhile (\<lambda>c. c \<noteq> CHR '';'') (drop (length DEFAULT_GW_OPTION + 1) p),
              [PaGetDhcpLeaseFilePath intf, FlockTryOpenStream path])"
proof -
  have "scanLeaseFile k DEFAULT_GW_OPTION n res leaseFile = copyLeaseEntry p DEFAULT_GW_OPTION n"
    by (rule scan_first_matching_line [OF assms(3) assms(4) assms(5)])
  also have "\<dots> = (LE_OK, takeWhile (\<lambda>c. c \<noteq> CHR '';'') (drop (length DEFAULT_GW_OPTION + 1) p))"
    by (rule copy_gw_entry [OF assms(6)])
  finally have "scanLeaseFile k DEFAULT_GW_OPTION n res leaseFile
      = (LE_OK, takeWhile (\<lambda>c. c \<noteq> CHR '';'') (drop (length DEFAULT_GW_OPTION + 1) p))" .
  with assms(1,2) show ?thesis
    by (simp add: GetDhcpLeaseFileEntry_def Let_def gw_option_copied)
qed

lemma scan_no_matching_line:
  "\<forall>l\<in>set (leaseLines k f). strstr l key = None \<Longrightarrow> scanLeaseFile k key n r f = (r, [])"
proof (induction "leaseLines k f" arbitrary: f)
  case Nil
  then have "f = []" by (subst (asm) leaseLines.simps) (simp add: Let_def split: if_splits)
  then show ?case by (subst scanLeaseFile.simps) simp
next
  case (Cons l ls)
  from leaseLines_Cons [OF Cons.hyps(2) [symmetric]]
  have ne: "f \<noteq> []" and b: "fgets (LEASE_FILE_MAX_LINE_LENGTH_BYTES k - 1) f = l"
    and rest: "leaseLines k (drop (length l) f) = ls"
    by simp_all
  from Cons.prems Cons.hyps(2) [symmetric] have nl: "strstr l key = None"
    and nls: "\<forall>x\<in>set ls. strstr x key = None" by simp_all
  from Cons.hyps(1) [OF rest [symmetric]] nls rest
  have "scanLeaseFile k key n r (drop (length l) f) = (r, [])" by simp
  with ne b nl show ?case by (subst scanLeaseFile.simps) (simp add: Let_def)
qed

lemma gw_no_entry:
  assumes "pa_dcs_GetDhcpLeaseFilePath e intf = (LE_OK, path)"
    and "le_flock_TryOpenStream e path = (res, Some leaseFile)"
    and "\<forall>l\<in>set (leaseLines k leaseFile). strstr l DEFAULT_GW_OPTION = None"
  shows "GetDhcpLeaseFileEntry k e intf LE_NET_DEFAULT_GATEWAY_ADDRESS n
           = (res, [], [PaGetDhcpLeaseFilePath intf, FlockTryOpenStream path])"
  using assms(1,2) scan_no_matching_line [OF assms(3), of n res]
  by (simp add: GetDhcpLeaseFileEntry_def Let_def gw_option_copied)

lemma gw_buffer_zeroed:
  "write_at (write_at (strncpy x n) 0 [NUL]) 0 (memset0 (n * MAX_NUM_DEFAULT_GATEWAY_ADDRESS_BY_TYPE))
     = (if n = 0 then [NUL] else replicate n NUL)"
  by (cases n) (simp_all add: write_at_def memset0_def strncpy_def
      MAX_NUM_DEFAULT_GATEWAY_ADDRESS_BY_TYPE_def)

lemma cstr_gw_buffer: "cstr (if n = 0 then [NUL] else replicate n NUL) = []"
  by (cases n) (simp_all add: cstr_def)

lemma store_first_token:
  assumes "NUL \<notin> set entry" and "length (firstToken v6 entry) < n"
  shows "cstr (storeTokens n (take (1 - 0) (filter (\<lambda>t. hasColon t = v6) (strtok_r [] entry)))
                 (if n = 0 then [NUL] else replicate n NUL) 0)
           = firstToken v6 entry"
proof (cases "filter (\<lambda>t. hasColon t = v6) (strtok_r [] entry)")
  case Nil
  then show ?thesis by (simp add: firstToken_def cstr_gw_buffer del: strtok_r.simps)
next
  case (Cons t ts)
  then have ft: "firstToken v6 entry = t" by (simp add: firstToken_def)
  from Cons have "t \<in> set (filter (\<lambda>t. hasColon t = v6) (strtok_r [] entry))" by simp
  then have "t \<in> set (strtok_r [] entry)" by simp
  from strtok_chars [OF this] assms(1) have nul: "NUL \<notin> set t" by auto
  from assms(2) ft have len: "length t < n" by simp
  then have n0: "n \<noteq> 0" by simp
  have "write_at (replicate n NUL) 0 (strncpy t n) = strncpy t n @ []"
    by (simp add: write_at_def length_strncpy)
  with cstr_strncpy [OF nul len, of "[]"] Cons ft n0 show ?thesis by simp
qed

lemma gw_addresses:
  assumes "pa_dcs_GetDhcpLeaseFilePath e intf = (LE_OK, path)"
    and "le_flock_TryOpenStream e path = (res, Some leaseFile)"
    and "leaseLines k leaseFile = before @ line # after"
    and "\<forall>l\<in>set before. strstr l DEFAULT_GW_OPTION = None"
    and "strstr line DEFAULT_GW_OPTION = Some p"
    and "NUL \<notin> set line"
    and "length (drop (length DEFAULT_GW_OPTION + 1) p)
           < MAX_NUM_DNS_ADDRESS_BY_TYPE
             * (PA_DCS_IPV4_ADDR_MAX_BYTES k + PA_DCS_IPV6_ADDR_MAX_BYTES k + 1)"
    and "entry = takeWhile (\<lambda>c. c \<noteq> CHR '';'') (drop (length DEFAULT_GW_OPTION + 1) p)"
    and "length (firstToken False entry) < n4"
    and "length (firstToken True entry) < n6"
  shows "(case GetLeaseAddresses k e intf LE_NET_DEFAULT_GATEWAY_ADDRESS
           (write_at (strncpy x4 n4) 0 [NUL]) n4 (write_at (strncpy x6 n6) 0 [NUL]) n6
           MAX_NUM_DEFAULT_GATEWAY_ADDRESS_BY_TYPE of
           (result, v4Out, v6Out, evs) \<Rightarrow> (result, cstr v4Out, cstr v6Out, evs))
         = (LE_OK, firstToken False entry, firstToken True entry,
            [PaGetDhcpLeaseFilePath intf, FlockTryOpenStream path])"
proof -
  from strstr_suffix [OF assms(5)] assms(6) have "NUL \<notin> set p" by auto
  then have "NUL \<notin> set (drop (length DEFAULT_GW_OPTION + 1) p)"
    by (auto dest: in_set_dropD)
  with assms(8) have nul: "NUL \<notin> set entry" by (auto dest: set_takeWhileD)
  have f4: "(\<lambda>t. \<not> hasColon t) = (\<lambda>t. hasColon t = False)" by simp
  have f6: "hasColon = (\<lambda>t. hasColon t = True)" by simp
  have s4: "cstr (storeTokens n4 (take (1 - 0) (filter (\<lambda>t. \<not> hasColon t) (strtok_r [] entry)))
                 (if n4 = 0 then [NUL] else replicate n4 NUL) 0) = firstToken False entry"
    by (subst f4) (rule store_first_token [OF nul assms(9)])
  have s6: "cstr (storeTokens n6 (take (1 - 0) (filter hasColon (strtok_r [] entry)))
                 (if n6 = 0 then [NUL] else replicate n6 NUL) 0) = firstToken True entry"
    by (subst f6) (rule store_first_token [OF nul assms(10)])
  from gw_entry [OF assms(1-5) assms(7)] assms(8)
  have en: "GetDhcpLeaseFileEntry k e intf LE_NET_DEFAULT_GATEWAY_ADDRESS
          (MAX_NUM_DNS_ADDRESS_BY_TYPE
             * (PA_DCS_IPV4_ADDR_MAX_BYTES k + PA_DCS_IPV6_ADDR_MAX_BYTES k + 1))
        = (LE_OK, entry, [PaGetDhcpLeaseFilePath intf, FlockTryOpenStream path])"
    by simp
  have le: "\<not> MAX_NUM_DNS_ADDRESS_BY_TYPE < MAX_NUM_DEFAULT_GATEWAY_ADDRESS_BY_TYPE"
    by (simp add: MAX_NUM_DEFAULT_GATEWAY_ADDRESS_BY_TYPE_def MAX_NUM_DNS_ADDRESS_BY_TYPE_def)
  have one: "MAX_NUM_DEFAULT_GATEWAY_ADDRESS_BY_TYPE = 1"
    by (simp add: MAX_NUM_DEFAULT_GATEWAY_ADDRESS_BY_TYPE_def)
  show ?thesis
    unfolding GetLeaseAddresses_def Let_def gw_buffer_zeroed en fill_characterised
    using le s4 s6 by (simp add: one del: strtok_r.simps storeTokens.simps)
qed

lemma gw_no_addresses:
  assumes "pa_dcs_GetDhcpLeaseFilePath e intf = (LE_OK, path)"
    and "le_flock_TryOpenStream e path = (res, Some leaseFile)"
    and "\<forall>l\<in>set (leaseLines k leaseFile). strstr l DEFAULT_GW_OPTION = None"
  shows "(case GetLeaseAddresses k e intf LE_NET_DEFAULT_GATEWAY_ADDRESS
           (write_at (strncpy x4 n4) 0 [NUL]) n4 (write_at (strncpy x6 n6) 0 [NUL]) n6
           MAX_NUM_DEFAULT_GATEWAY_ADDRESS_BY_TYPE of
           (result, v4Out, v6Out, evs) \<Rightarrow> (result, cstr v4Out, cstr v6Out, evs))
         = (res, [], [], [PaGetDhcpLeaseFilePath intf, FlockTryOpenStream path])"
proof -
  have le: "\<not> MAX_NUM_DNS_ADDRESS_BY_TYPE < MAX_NUM_DEFAULT_GATEWAY_ADDRESS_BY_TYPE"
    by (simp add: MAX_NUM_DEFAULT_GATEWAY_ADDRESS_BY_TYPE_def MAX_NUM_DNS_ADDRESS_BY_TYPE_def)
  show ?thesis
    unfolding GetLeaseAddresses_def Let_def gw_buffer_zeroed gw_no_entry [OF assms]
    using le by (simp add: cstr_gw_buffer)
qed

section \<open>Facts about addresses and prefix lengths\<close>

lemma skipSpaces_dropWhile:
  "length s \<le> n \<Longrightarrow> skipSpaces n s = dropWhile isspace s"
proof (induction n s rule: skipSpaces.induct)
  case (1 s)
  then show ?case by simp
next
  case (2 n)
  then show ?case by simp
next
  case (3 n c cs)
  then show ?case by simp
qed

lemma stripLeading_dropWhile:
  "length s < 65536 \<Longrightarrow> stripLeading s = dropWhile isspace s"
proof -
  assume "length s < 65536"
  then have "unat (word_of_nat (length s) :: 16 word) = length s"
    by (simp add: unat_of_nat)
  then show ?thesis by (simp add: stripLeading_def skipSpaces_dropWhile)
qed



lemma mask_parse: "DcsConvertPrefixLengthString k (Some ''255.255.255.0'') = - 1"
  by (simp add: DcsConvertPrefixLengthString_def IPV6_PREFIX_LEN_STR_LENGTH_def)

lemma mask_valid: "DcsNetValidateIpAddress e AF_INET ''255.255.255.0'' = LE_OK"
  by code_simp

lemma mask_convert: "ConvertSubnetMaskToPrefixLength ''255.255.255.0'' 3 = (LE_OK, ''24'')"
  by code_simp

lemma mask_check:
  "checkPrefixIPv4 k e (Some ''255.255.255.0'') =
     (Inr (Some ''24''),
      [LeWarn ''Input IPv4 subnet mask prefix length %s invalid'',
       LeWarn ''Deprecated, a prefix length is expected and not a network mask.''])"
  by (simp add: checkPrefixIPv4_def mask_parse mask_valid mask_convert IPV6_PREFIX_LENGTH_MAX_def)

lemma digitVal_range: "isdigit c \<Longrightarrow> 0 \<le> digitVal c \<and> digitVal c \<le> 9"
  by (auto simp: isdigit_def digitVal_def)

lemma foldl_digits_bound:
  "\<forall>c\<in>set ds. isdigit c \<Longrightarrow> 0 \<le> a \<Longrightarrow>
     0 \<le> foldl (\<lambda>a c. 10 * a + digitVal c) a ds \<and>
     foldl (\<lambda>a c. 10 * a + digitVal c) a ds < (a + 1) * 10 ^ length ds"
proof (induction ds arbitrary: a)
  case Nil
  then show ?case by simp
next
  case (Cons d ds)
  from Cons.prems have dv: "0 \<le> digitVal d" "digitVal d \<le> 9" using digitVal_range by auto
  let ?a = "10 * a + digitVal d"
  from Cons.prems dv have a: "0 \<le> ?a" by simp
  from Cons.prems have "\<forall>c\<in>set ds. isdigit c" by simp
  from Cons.IH [OF this a]
  have ih: "0 \<le> foldl (\<lambda>a c. 10 * a + digitVal c) ?a ds"
    "foldl (\<lambda>a c. 10 * a + digitVal c) ?a ds < (?a + 1) * 10 ^ length ds" by auto
  from dv have "?a + 1 \<le> (a + 1) * 10" by simp
  then have le: "(?a + 1) * 10 ^ length ds \<le> ((a + 1) * 10) * 10 ^ length ds"
    by (intro mult_right_mono) simp_all
  from ih(2) le have "foldl (\<lambda>a c. 10 * a + digitVal c) ?a ds < ((a + 1) * 10) * 10 ^ length ds"
    by (rule less_le_trans)
  moreover have "((a + 1) * 10) * 10 ^ length ds = (a + 1) * 10 ^ length (d # ds)"
    by simp
  ultimately have "foldl (\<lambda>a c. 10 * a + digitVal c) ?a ds < (a + 1) * 10 ^ length (d # ds)"
    by (simp only:)
  with ih(1) show ?case by (simp only: foldl_Cons)
qed

lemma digitsValue_bound:
  "length s \<le> n \<Longrightarrow> 0 \<le> digitsValue (takeWhile isdigit s) \<and>
     digitsValue (takeWhile isdigit s) < 10 ^ n"
proof -
  assume n: "length s \<le> n"
  have "\<forall>c\<in>set (takeWhile isdigit s). isdigit c" by (auto dest: set_takeWhileD)
  from foldl_digits_bound [OF this, of 0]
  have b: "0 \<le> digitsValue (takeWhile isdigit s)"
    "digitsValue (takeWhile isdigit s) < 10 ^ length (takeWhile isdigit s)"
    by (simp_all add: digitsValue_def)
  have "length (takeWhile isdigit s) \<le> n" using n length_takeWhile_le [of isdigit s] by simp
  then have le: "(10::int) ^ length (takeWhile isdigit s) \<le> 10 ^ n"
    by (intro power_increasing) simp_all
  from b(2) le have "digitsValue (takeWhile isdigit s) < 10 ^ n" by (rule less_le_trans)
  with b(1) show ?thesis by simp
qed

lemma numberAtStart_bound:
  "length s \<le> 3 \<Longrightarrow> - 99 \<le> numberAtStart s \<and> numberAtStart s \<le> 999"
proof -
  assume l: "length s \<le> 3"
  have l1: "length (dropWhile isspace s) \<le> 3" using l length_dropWhile_le [of isspace s] by simp
  show ?thesis
  proof (cases "dropWhile isspace s")
    case Nil
    show ?thesis unfolding numberAtStart_def Nil by simp
  next
    case (Cons c cs)
    with l1 have "length cs \<le> 2" "length (c # cs) \<le> 3" by simp_all
    from digitsValue_bound [OF this(1)] digitsValue_bound [OF this(2)]
    show ?thesis unfolding numberAtStart_def Cons by auto
  qed
qed

lemma strtol_numberAtStart:
  "length s \<le> 3 \<Longrightarrow> 999 \<le> LONG_MAX k \<Longrightarrow> strtol k s = numberAtStart s"
proof -
  assume l: "length s \<le> 3" and m: "999 \<le> LONG_MAX k"
  from numberAtStart_bound [OF l] m
  have b: "- LONG_MAX k - 1 \<le> numberAtStart s" "numberAtStart s \<le> LONG_MAX k" by simp_all
  have l1: "length (dropWhile isspace s) \<le> 3" using l length_dropWhile_le [of isspace s] by simp
  show ?thesis
  proof (cases "dropWhile isspace s")
    case Nil
    from m show ?thesis unfolding strtol_def numberAtStart_def Nil Let_def
      by (simp add: digitsValue_def)
  next
    case (Cons c cs)
    from b show ?thesis unfolding strtol_def numberAtStart_def Cons Let_def
      by (auto simp: min_def max_def)
  qed
qed

lemma int16_cast: "- 99 \<le> v \<Longrightarrow> v \<le> 999 \<Longrightarrow> sint (word_of_int v :: 16 word) = v"
  by (simp add: signed_of_int signed_take_bit_int_eq_self)

lemma numberAtStart_no_digit:
  "\<forall>c\<in>set s. \<not> isdigit c \<Longrightarrow> numberAtStart s = 0"
proof -
  assume nd: "\<forall>c\<in>set s. \<not> isdigit c"
  show ?thesis
  proof (cases "dropWhile isspace s")
    case Nil
    show ?thesis unfolding numberAtStart_def Nil by simp
  next
    case (Cons c cs)
    have "set (dropWhile isspace s) \<subseteq> set s" by (auto dest: set_dropWhileD)
    with Cons nd have a: "\<not> isdigit c" "\<forall>x\<in>set cs. \<not> isdigit x" by auto
    then have "takeWhile isdigit cs = []" by (cases cs) auto
    with a show ?thesis unfolding numberAtStart_def Cons by (simp add: digitsValue_def)
  qed
qed

lemma check6_invalid:
  "DcsConvertPrefixLengthString k (Some str) < 0 \<or>
   IPV6_PREFIX_LENGTH_MAX < DcsConvertPrefixLengthString k (Some str) \<Longrightarrow>
     checkPrefixIPv6 k (Some str) = (Inl LE_BAD_PARAMETER, [])"
  by (simp add: checkPrefixIPv6_def Let_def)

lemma check6_zero:
  "DcsConvertPrefixLengthString k (Some str) = 0 \<Longrightarrow>
     checkPrefixIPv6 k (Some str) = (Inr (Some []), [])"
  by (simp add: checkPrefixIPv6_def Let_def IPV6_PREFIX_LENGTH_MAX_def)

lemma check6_valid:
  "0 < DcsConvertPrefixLengthString k (Some str) \<Longrightarrow>
   DcsConvertPrefixLengthString k (Some str) \<le> IPV6_PREFIX_LENGTH_MAX \<Longrightarrow>
     checkPrefixIPv6 k (Some str) = (Inr (Some str), [])"
  by (simp add: checkPrefixIPv6_def Let_def)

lemma check4_invalid:
  "DcsConvertPrefixLengthString k (Some str) < 0 \<or>
   IPV6_PREFIX_LENGTH_MAX < DcsConvertPrefixLengthString k (Some str) \<Longrightarrow>
   DcsNetValidateIpAddress e AF_INET str \<noteq> LE_OK \<Longrightarrow>
     checkPrefixIPv4 k e (Some str)
       = (Inl LE_BAD_PARAMETER, [LeWarn ''Input IPv4 subnet mask prefix length %s invalid''])"
  by (simp add: checkPrefixIPv4_def Let_def)

lemma check4_zero:
  "DcsConvertPrefixLengthString k (Some str) = 0 \<Longrightarrow>
     checkPrefixIPv4 k e (Some str) = (Inr (Some []), [])"
  by (simp add: checkPrefixIPv4_def Let_def IPV6_PREFIX_LENGTH_MAX_def)

lemma check4_valid:
  "0 < DcsConvertPrefixLengthString k (Some str) \<Longrightarrow>
   DcsConvertPrefixLengthString k (Some str) \<le> IPV6_PREFIX_LENGTH_MAX \<Longrightarrow>
     checkPrefixIPv4 k e (Some str) = (Inr (Some str), [])"
  by (simp add: checkPrefixIPv4_def Let_def)

lemma change_route_ipv6:
  assumes "le_dcs_GetChannelDbFromRef e channelRef = Some channelDb"
    and "LE_DCS_TECH_UNKNOWN k \<noteq> technology channelDb"
    and "technology channelDb < LE_DCS_TECH_MAX k"
    and "DcsNetValidateIpAddress e AF_INET (stripLeading dest) \<noteq> LE_OK"
    and "DcsNetValidateIpAddress e AF_INET6 (stripLeading dest) = LE_OK"
  shows "le_net_ChangeRoute k e channelRef (Some dest) (Some prefix) isAdd =
           (case checkPrefixIPv6 k (Some (stripLeading prefix)) of
              (Inl ret, warns) \<Rightarrow> (ret, warns)
            | (Inr prefix', warns) \<Rightarrow>
                (case initiateRouteChange e channelDb channelRef (stripLeading dest) prefix' isAdd of
                   (ret, evs) \<Rightarrow> (ret, warns @ evs)))"
  using assms by (simp add: le_net_ChangeRoute_def Let_def)

lemma change_route_ipv4:
  assumes "le_dcs_GetChannelDbFromRef e channelRef = Some channelDb"
    and "LE_DCS_TECH_UNKNOWN k \<noteq> technology channelDb"
    and "technology channelDb < LE_DCS_TECH_MAX k"
    and "DcsNetValidateIpAddress e AF_INET (stripLeading dest) = LE_OK"
  shows "le_net_ChangeRoute k e channelRef (Some dest) (Some prefix) isAdd =
           (case checkPrefixIPv4 k e (Some (stripLeading prefix)) of
              (Inl ret, warns) \<Rightarrow> (ret, warns)
            | (Inr prefix', warns) \<Rightarrow>
                (case initiateRouteChange e channelDb channelRef (stripLeading dest) prefix' isAdd of
                   (ret, evs) \<Rightarrow> (ret, warns @ evs)))"
  using assms by (simp add: le_net_ChangeRoute_def Let_def)

lemma initiate_known_interface:
  "le_dcsTech_GetNetInterface e (technology channelDb) channelRef = (LE_OK, intf) \<Longrightarrow>
     initiateRouteChange e channelDb channelRef dest (Some p) isAdd =
       (pa_dcs_ChangeRoute e (if isAdd then PA_DCS_ROUTE_ADD else PA_DCS_ROUTE_DELETE) dest p intf,
        [PaChangeRoute (if isAdd then PA_DCS_ROUTE_ADD else PA_DCS_ROUTE_DELETE) dest p intf])"
  by (simp add: initiateRouteChange_def DcsNetChangeRoute_def)

section \<open>Facts about the stack\<close>

lemma peekFrom_None: "peekFrom r db i = None \<longleftrightarrow> r \<notin> appSessionRef ` set db"
  by (induction db arbitrary: i) auto

lemma peekFrom_Some:
  "peekFrom r db i = Some j \<Longrightarrow>
     i \<le> j \<and> j - i < length db \<and> appSessionRef (db ! (j - i)) = r"
proof (induction db arbitrary: i)
  case Nil
  then show ?case by simp
next
  case (Cons d ds)
  show ?case
  proof (cases "appSessionRef d = r")
    case True
    with Cons.prems show ?thesis by simp
  next
    case False
    with Cons.prems have "peekFrom r ds (Suc i) = Some j" by simp
    from Cons.IH [OF this] have "Suc i \<le> j" "j - Suc i < length ds"
      "appSessionRef (ds ! (j - Suc i)) = r" by auto
    moreover from \<open>Suc i \<le> j\<close> have "j - i = Suc (j - Suc i)" by simp
    ultimately show ?thesis by simp
  qed
qed

lemma GetDb_None: "fst (GetDefaultGwConfigDb r db) = None \<longleftrightarrow> r \<notin> appSessionRef ` set db"
  using peekFrom_None [of r db 0]
  by (cases "peekFrom r db 0") (simp_all add: GetDefaultGwConfigDb_def)

lemma GetDb_Some:
  "GetDefaultGwConfigDb r db = (Some i, b) \<Longrightarrow> i < length db \<and> appSessionRef (db ! i) = r"
  using peekFrom_Some [of r db 0 i]
  by (auto simp: GetDefaultGwConfigDb_def split: option.splits)

lemma sessions_Remove:
  "i < length db \<Longrightarrow> distinct (map appSessionRef db) \<Longrightarrow>
     distinct (map appSessionRef (le_dls_Remove db i)) \<and>
     appSessionRef (db ! i) \<notin> appSessionRef ` set (le_dls_Remove db i)"
proof -
  assume i: "i < length db" and d: "distinct (map appSessionRef db)"
  have "db = take i db @ db ! i # drop (Suc i) db" using i by (rule id_take_nth_drop)
  then have "map appSessionRef db =
      map appSessionRef (take i db) @ appSessionRef (db ! i) # map appSessionRef (drop (Suc i) db)"
    by (metis list.simps(9) map_append)
  with d have "distinct (map appSessionRef (take i db) @ appSessionRef (db ! i) # map appSessionRef (drop (Suc i) db))"
    by simp
  then show ?thesis by (auto simp: le_dls_Remove_def)
qed

lemma archive_session: "appSessionRef (archiveDefaultGw k f a b) = appSessionRef a"
  by (simp add: archiveDefaultGw_def)

lemma Insert_distinct:
  "distinct (map appSessionRef db) \<Longrightarrow> distinct (map appSessionRef (InsertDefaultGwBackupDb k r b db))"
proof -
  assume d: "distinct (map appSessionRef db)"
  obtain p isRecent where g: "GetDefaultGwConfigDb r db = (p, isRecent)" by (cases "GetDefaultGwConfigDb r db")
  show ?thesis
  proof (cases p)
    case None
    with g have "r \<notin> appSessionRef ` set db" using GetDb_None [of r db] by simp
    with d g None show ?thesis
      by (simp add: InsertDefaultGwBackupDb_def le_dls_Stack_def archive_session)
  next
    case (Some i)
    with g have i: "i < length db" "appSessionRef (db ! i) = r" using GetDb_Some by auto
    from sessions_Remove [OF i(1) d] i(2) g Some show ?thesis
      by (simp add: InsertDefaultGwBackupDb_def le_dls_Stack_def archive_session)
  qed
qed

lemma Restore_distinct:
  "distinct (map appSessionRef db) \<Longrightarrow> distinct (map appSessionRef (fst (snd (le_net_RestoreDefaultGW e db))))"
proof -
  assume d: "distinct (map appSessionRef db)"
  obtain p isRecent where g: "GetDefaultGwConfigDb (DcsNetGetSessionRef e) db = (p, isRecent)"
    by (cases "GetDefaultGwConfigDb (DcsNetGetSessionRef e) db")
  show ?thesis
  proof (cases p)
    case None
    with g d show ?thesis by (simp add: le_net_RestoreDefaultGW_def)
  next
    case (Some i)
    with g have i: "i < length db" using GetDb_Some by auto
    from sessions_Remove [OF i d] g Some show ?thesis
      by (simp add: le_net_RestoreDefaultGW_def Let_def le_mem_Release_def DcsDefaultGwConfigDbDestructor_def)
  qed
qed

lemma map_session_update:
  "(i < length db \<Longrightarrow> appSessionRef x = appSessionRef (db ! i)) \<Longrightarrow>
     map appSessionRef (db[i := x]) = map appSessionRef db"
proof (cases "i < length db")
  case True
  assume "i < length db \<Longrightarrow> appSessionRef x = appSessionRef (db ! i)"
  with True have "appSessionRef x = map appSessionRef db ! i" by simp
  then show ?thesis by (simp add: map_update)
next
  case False
  then have "length db \<le> i" by simp
  then show ?thesis by (simp add: list_update_beyond)
qed

lemma apply_sessions:
  "map appSessionRef (fst (snd (applyDefaultGW e intf v4 v6 db))) = map appSessionRef db"
proof -
  obtain p isRecent where g: "GetDefaultGwConfigDb (DcsNetGetSessionRef e) db = (p, isRecent)"
    by (cases "GetDefaultGwConfigDb (DcsNetGetSessionRef e) db")
  show ?thesis
  proof (cases p)
    case None
    with g show ?thesis by (simp add: applyDefaultGW_def Let_def)
  next
    case (Some i)
    have a: "map appSessionRef (db[i := (db ! i)\<lparr>setV6GwToSystem := True\<rparr>]) = map appSessionRef db"
      by (rule map_session_update) simp
    have b: "map appSessionRef (db[i := (db ! i)\<lparr>setV4GwToSystem := True\<rparr>]) = map appSessionRef db"
      by (rule map_session_update) simp
    have c: "map appSessionRef
               ((db[i := (db ! i)\<lparr>setV6GwToSystem := True\<rparr>])
                  [i := (db[i := (db ! i)\<lparr>setV6GwToSystem := True\<rparr>] ! i)\<lparr>setV4GwToSystem := True\<rparr>])
             = map appSessionRef db"
      by (simp add: map_session_update a)
    from g Some a b c show ?thesis by (simp add: applyDefaultGW_def Let_def)
  qed
qed

lemma Set_sessions:
  "map appSessionRef (fst (snd (le_net_SetDefaultGW k e ch db))) = map appSessionRef db"
proof -
  have "\<And>intf v4 v6 r db' evs. applyDefaultGW e intf v4 v6 db = (r, db', evs) \<Longrightarrow>
          map appSessionRef db' = map appSessionRef db"
    using apply_sessions by (metis fst_conv snd_conv)
  then show ?thesis
    by (auto simp: le_net_SetDefaultGW_def split: prod.splits option.splits)
qed

lemma step_sessions_distinct:
  "distinct (map appSessionRef db) \<Longrightarrow> distinct (map appSessionRef (step k x db))"
  by (cases x) (simp_all add: le_net_BackupDefaultGW_def Let_def Insert_distinct
      Restore_distinct Set_sessions)

lemma run_sessions_distinct:
  "distinct (map appSessionRef db) \<Longrightarrow> distinct (map appSessionRef (run k xs db))"
  by (induction xs arbitrary: db) (simp_all add: step_sessions_distinct)

lemma distinct_sessions_at_most_one:
  "distinct (map appSessionRef db) \<Longrightarrow> length (filter (\<lambda>d. appSessionRef d = s) db) \<le> 1"
proof (induction db)
  case Nil
  then show ?case by simp
next
  case (Cons d ds)
  show ?case
  proof (cases "appSessionRef d = s")
    case True
    with Cons.prems have "s \<notin> appSessionRef ` set ds" by auto
    then have "filter (\<lambda>d. appSessionRef d = s) ds = []" by (auto simp: filter_empty_conv)
    with True show ?thesis by simp
  next
    case False
    with Cons show ?thesis by simp
  qed
qed


lemma peekFrom_find:
  "(case peekFrom r db i of None \<Rightarrow> None | Some j \<Rightarrow> Some (db ! (j - i)))
     = find (\<lambda>d. appSessionRef d = r) db"
proof (induction db arbitrary: i)
  case Nil
  show ?case by simp
next
  case (Cons d ds)
  show ?case
  proof (cases "appSessionRef d = r")
    case True
    then show ?thesis by simp
  next
    case False
    show ?thesis
    proof (cases "peekFrom r ds (Suc i)")
      case None
      with False Cons.IH [of "Suc i"] show ?thesis by simp
    next
      case (Some j)
      from peekFrom_Some [OF Some] have "Suc i \<le> j" by simp
      then have "j - i = Suc (j - Suc i)" by simp
      with False Some Cons.IH [of "Suc i"] show ?thesis by simp
    qed
  qed
qed

lemma backupOf_find: "backupOf s db = find (\<lambda>d. appSessionRef d = s) db"
  using peekFrom_find [where r=s and db=db and i=0]
  by (simp add: backupOf_def GetDefaultGwConfigDb_def split: option.splits)

lemma find_Remove_other:
  "i < length db \<Longrightarrow> \<not> P (db ! i) \<Longrightarrow> find P (le_dls_Remove db i) = find P db"
proof (induction db arbitrary: i)
  case Nil
  then show ?case by simp
next
  case (Cons d ds)
  show ?case
  proof (cases i)
    case 0
    with Cons.prems show ?thesis by (simp add: le_dls_Remove_def)
  next
    case (Suc j)
    with Cons.prems Cons.IH [of j] show ?thesis by (simp add: le_dls_Remove_def)
  qed
qed

lemma find_update_other:
  "i < length db \<Longrightarrow> \<not> P (db ! i) \<Longrightarrow> \<not> P y \<Longrightarrow> find P (db[i := y]) = find P db"
proof (induction db arbitrary: i)
  case Nil
  then show ?case by simp
next
  case (Cons d ds)
  show ?case
  proof (cases i)
    case 0
    with Cons.prems show ?thesis by simp
  next
    case (Suc j)
    with Cons.prems Cons.IH [of j] show ?thesis by simp
  qed
qed

lemma Insert_other:
  assumes "r \<noteq> s"
  shows "backupOf s (InsertDefaultGwBackupDb k r b db) = backupOf s db"
proof -
  obtain p isRecent where g: "GetDefaultGwConfigDb r db = (p, isRecent)"
    by (cases "GetDefaultGwConfigDb r db")
  show ?thesis
  proof (cases p)
    case None
    with g assms show ?thesis
      by (simp add: backupOf_find InsertDefaultGwBackupDb_def le_dls_Stack_def archive_session)
  next
    case (Some i)
    with g have i: "i < length db" "appSessionRef (db ! i) = r" using GetDb_Some by auto
    with assms have "find (\<lambda>d. appSessionRef d = s) (le_dls_Remove db i)
        = find (\<lambda>d. appSessionRef d = s) db"
      by (intro find_Remove_other) simp_all
    with g Some i assms show ?thesis
      by (simp add: backupOf_find InsertDefaultGwBackupDb_def le_dls_Stack_def archive_session)
  qed
qed

lemma Backup_other:
  "DcsNetGetSessionRef e \<noteq> s \<Longrightarrow> backupOf s (le_net_BackupDefaultGW k e db) = backupOf s db"
  by (simp add: le_net_BackupDefaultGW_def Let_def Insert_other)

lemma Backup_own:
  "\<exists>d. backupOf (DcsNetGetSessionRef e) (le_net_BackupDefaultGW k e db) = Some d \<and>
        \<not> setV4GwToSystem d \<and> \<not> setV6GwToSystem d"
proof -
  let ?r = "DcsNetGetSessionRef e"
  obtain p isRecent where g: "GetDefaultGwConfigDb ?r db = (p, isRecent)"
    by (cases "GetDefaultGwConfigDb ?r db")
  show ?thesis
  proof (cases p)
    case None
    with g show ?thesis
      by (simp add: backupOf_find le_net_BackupDefaultGW_def Let_def InsertDefaultGwBackupDb_def
          le_dls_Stack_def archive_session)
        (simp add: archiveDefaultGw_def)
  next
    case (Some i)
    with g have i: "appSessionRef (db ! i) = ?r" using GetDb_Some by auto
    with g Some show ?thesis
      by (simp add: backupOf_find le_net_BackupDefaultGW_def Let_def InsertDefaultGwBackupDb_def
          le_dls_Stack_def archive_session)
        (simp add: archiveDefaultGw_def zeroed_def)
  qed
qed

lemma Restore_other:
  assumes "DcsNetGetSessionRef e \<noteq> s"
  shows "backupOf s (fst (snd (le_net_RestoreDefaultGW e db))) = backupOf s db"
proof -
  let ?r = "DcsNetGetSessionRef e"
  obtain p isRecent where g: "GetDefaultGwConfigDb ?r db = (p, isRecent)"
    by (cases "GetDefaultGwConfigDb ?r db")
  show ?thesis
  proof (cases p)
    case None
    with g show ?thesis by (simp add: le_net_RestoreDefaultGW_def)
  next
    case (Some i)
    with g have i: "i < length db" "appSessionRef (db ! i) = ?r" using GetDb_Some by auto
    with assms have "find (\<lambda>d. appSessionRef d = s) (le_dls_Remove db i)
        = find (\<lambda>d. appSessionRef d = s) db"
      by (intro find_Remove_other) simp_all
    with g Some show ?thesis
      by (simp add: backupOf_find le_net_RestoreDefaultGW_def Let_def le_mem_Release_def
          DcsDefaultGwConfigDbDestructor_def)
  qed
qed

lemma Restore_own:
  assumes "distinct (map appSessionRef db)"
  shows "backupOf (DcsNetGetSessionRef e) (fst (snd (le_net_RestoreDefaultGW e db))) = None"
proof -
  let ?r = "DcsNetGetSessionRef e"
  obtain p isRecent where g: "GetDefaultGwConfigDb ?r db = (p, isRecent)"
    by (cases "GetDefaultGwConfigDb ?r db")
  show ?thesis
  proof (cases p)
    case None
    with g show ?thesis by (simp add: le_net_RestoreDefaultGW_def backupOf_def)
  next
    case (Some i)
    with g have i: "i < length db" "appSessionRef (db ! i) = ?r" using GetDb_Some by auto
    from sessions_Remove [OF i(1) assms] i(2)
    have "?r \<notin> appSessionRef ` set (le_dls_Remove db i)" by simp
    then have "fst (GetDefaultGwConfigDb ?r (le_dls_Remove db i)) = None"
      by (simp add: GetDb_None)
    with g Some show ?thesis
      by (simp add: le_net_RestoreDefaultGW_def Let_def le_mem_Release_def
          DcsDefaultGwConfigDbDestructor_def backupOf_def)
  qed
qed


lemma find_update_first:
  "peekFrom r db n = Some j \<Longrightarrow> appSessionRef y = r \<Longrightarrow>
     find (\<lambda>d. appSessionRef d = r) (db[j - n := y]) = Some y"
proof (induction db arbitrary: n)
  case Nil
  then show ?case by simp
next
  case (Cons d ds)
  show ?case
  proof (cases "appSessionRef d = r")
    case True
    with Cons.prems show ?thesis by simp
  next
    case False
    with Cons.prems have p: "peekFrom r ds (Suc n) = Some j" by simp
    from peekFrom_Some [OF p] have "Suc n \<le> j" by simp
    then have "j - n = Suc (j - Suc n)" by simp
    with False Cons.IH [OF p Cons.prems(2)] show ?thesis by simp
  qed
qed

lemma apply_db:
  "GetDefaultGwConfigDb (DcsNetGetSessionRef e) db = (Some i, isRecent) \<Longrightarrow>
     fst (snd (applyDefaultGW e intf v4 v6 db)) = db[i := markInstalled e intf v4 v6 (db ! i)]"
proof -
  assume g: "GetDefaultGwConfigDb (DcsNetGetSessionRef e) db = (Some i, isRecent)"
  then have i: "i < length db" using GetDb_Some by blast
  have h6: "\<And>d a. setV6GwToSystem d = a \<Longrightarrow> d\<lparr>setV6GwToSystem := a\<rparr> = d" by auto
  have h4: "\<And>d a. setV4GwToSystem d = a \<Longrightarrow> d\<lparr>setV4GwToSystem := a\<rparr> = d" by auto
  from g i show ?thesis
    by (cases "setV6GwToSystem (db ! i)"; cases "setV4GwToSystem (db ! i)")
       (simp_all add: applyDefaultGW_def Let_def markInstalled_def h6 h4)
qed

lemma apply_own:
  "backupOf (DcsNetGetSessionRef e) (fst (snd (applyDefaultGW e intf v4 v6 db)))
     = map_option (markInstalled e intf v4 v6) (backupOf (DcsNetGetSessionRef e) db)"
proof -
  let ?r = "DcsNetGetSessionRef e"
  obtain p isRecent where g: "GetDefaultGwConfigDb ?r db = (p, isRecent)"
    by (cases "GetDefaultGwConfigDb ?r db")
  show ?thesis
  proof (cases p)
    case None
    with g show ?thesis by (simp add: applyDefaultGW_def Let_def backupOf_def)
  next
    case (Some i)
    with g have i: "i < length db" "appSessionRef (db ! i) = ?r" using GetDb_Some by auto
    from g Some have pk: "peekFrom ?r db 0 = Some i"
      by (simp add: GetDefaultGwConfigDb_def split: option.splits)
    have "appSessionRef (markInstalled e intf v4 v6 (db ! i)) = ?r"
      using i by (simp add: markInstalled_def)
    from find_update_first [OF pk this]
    have "find (\<lambda>d. appSessionRef d = ?r) (db[i := markInstalled e intf v4 v6 (db ! i)])
        = Some (markInstalled e intf v4 v6 (db ! i))" by simp
    moreover from g Some have "backupOf ?r db = Some (db ! i)" by (simp add: backupOf_def)
    ultimately show ?thesis using g Some by (simp add: apply_db backupOf_find)
  qed
qed

lemma apply_other:
  assumes "DcsNetGetSessionRef e \<noteq> s"
  shows "backupOf s (fst (snd (applyDefaultGW e intf v4 v6 db))) = backupOf s db"
proof -
  let ?r = "DcsNetGetSessionRef e"
  obtain p isRecent where g: "GetDefaultGwConfigDb ?r db = (p, isRecent)"
    by (cases "GetDefaultGwConfigDb ?r db")
  show ?thesis
  proof (cases p)
    case None
    with g show ?thesis by (simp add: applyDefaultGW_def Let_def)
  next
    case (Some i)
    with g have i: "i < length db" "appSessionRef (db ! i) = ?r" using GetDb_Some by auto
    have "find (\<lambda>d. appSessionRef d = s) (db[i := markInstalled e intf v4 v6 (db ! i)])
        = find (\<lambda>d. appSessionRef d = s) db"
      using i assms by (intro find_update_other) (simp_all add: markInstalled_def)
    with g Some show ?thesis by (simp add: apply_db backupOf_find)
  qed
qed

lemma apply_events:
  "snd (snd (applyDefaultGW e intf v4 v6 db)) =
     (if fst (GetDefaultGwConfigDb (DcsNetGetSessionRef e) db) = None
      then [LeWarn ''Present default GW configs on system not backed up before config changes'']
      else []) @
     (if \<not> snd (GetDefaultGwConfigDb (DcsNetGetSessionRef e) db)
      then [LeWarn ''Another app made a newer default GW configs backup''] else []) @
     (if v6 \<noteq> [] then [PaSetDefaultGateway intf v6 True] else []) @
     (if v4 \<noteq> [] then [PaSetDefaultGateway intf v4 False] else [])"
  by (simp add: applyDefaultGW_def Let_def split: prod.splits)


lemma lease_entry_no_set:
  "setCalls F (snd (snd (GetDhcpLeaseFileEntry k e intf t n))) = []"
  by (simp add: GetDhcpLeaseFileEntry_def setCalls_def Let_def split: prod.splits option.splits)

lemma lease_addresses_no_set:
  "setCalls F (snd (snd (snd (GetLeaseAddresses k e intf t b4 n4 b6 n6 n)))) = []"
proof -
  have "\<And>r a evs. GetDhcpLeaseFileEntry k e intf t
          (MAX_NUM_DNS_ADDRESS_BY_TYPE * (PA_DCS_IPV4_ADDR_MAX_BYTES k + PA_DCS_IPV6_ADDR_MAX_BYTES k + 1))
          = (r, a, evs) \<Longrightarrow> setCalls F evs = []"
    using lease_entry_no_set [of F k e intf t] by (metis snd_conv)
  then show ?thesis
    by (auto simp: GetLeaseAddresses_def Let_def setCalls_def split: prod.splits)
qed

lemma query_no_set:
  "setCalls F (snd (snd (snd (queryDefaultGWAddress k e cdb intf)))) = []"
proof (cases "technology cdb = LE_DCS_TECH_CELLULAR k")
  case True
  then show ?thesis by (simp add: queryDefaultGWAddress_def setCalls_def split: prod.splits)
next
  case False
  have "\<And>r a b evs. GetLeaseAddresses k e intf LE_NET_DEFAULT_GATEWAY_ADDRESS
          (memset0 (PA_DCS_IPV4_ADDR_MAX_BYTES k)) (PA_DCS_IPV4_ADDR_MAX_BYTES k)
          (memset0 (PA_DCS_IPV6_ADDR_MAX_BYTES k)) (PA_DCS_IPV6_ADDR_MAX_BYTES k)
          MAX_NUM_DEFAULT_GATEWAY_ADDRESS_BY_TYPE = (r, a, b, evs) \<Longrightarrow> setCalls F evs = []"
    using lease_addresses_no_set [of F k e intf] by (metis snd_conv)
  with False show ?thesis by (simp add: queryDefaultGWAddress_def split: prod.splits)
qed

lemma Set_shape:
  "(fst (snd (le_net_SetDefaultGW k e ch db)) = db \<and>
    setCalls F (snd (snd (le_net_SetDefaultGW k e ch db))) = []) \<or>
   (\<exists>intf v4 v6.
      fst (snd (le_net_SetDefaultGW k e ch db)) = fst (snd (applyDefaultGW e intf v4 v6 db)) \<and>
      setCalls F (snd (snd (le_net_SetDefaultGW k e ch db)))
        = setCalls F (snd (snd (applyDefaultGW e intf v4 v6 db))))"
proof (cases "le_dcs_GetChannelDbFromRef e ch")
  case None
  then show ?thesis by (simp add: le_net_SetDefaultGW_def setCalls_def)
next
  case (Some cdb)
  obtain ret intf where ni: "le_dcsTech_GetNetInterface e (technology cdb) ch = (ret, intf)"
    by (cases "le_dcsTech_GetNetInterface e (technology cdb) ch")
  obtain ret' v4 v6 evs where q: "queryDefaultGWAddress k e cdb intf = (ret', v4, v6, evs)"
    by (cases "queryDefaultGWAddress k e cdb intf") auto
  with query_no_set [of F k e cdb intf] have ns: "setCalls F evs = []" by simp
  obtain r db' evs' where a: "applyDefaultGW e intf v4 v6 db = (r, db', evs')"
    by (cases "applyDefaultGW e intf v4 v6 db") auto
  show ?thesis
  proof (cases "LE_DCS_TECH_UNKNOWN k = technology cdb \<or> LE_DCS_TECH_MAX k \<le> technology cdb
                 \<or> ret \<noteq> LE_OK \<or> ret' \<noteq> LE_OK \<or> (v6 = [] \<and> v4 = [])")
    case True
    with Some ni q ns have "fst (snd (le_net_SetDefaultGW k e ch db)) = db \<and>
        setCalls F (snd (snd (le_net_SetDefaultGW k e ch db))) = []"
      by (auto simp: le_net_SetDefaultGW_def setCalls_def)
    then show ?thesis by blast
  next
    case False
    with Some ni q a have "le_net_SetDefaultGW k e ch db = (r, db', evs @ evs')"
      by (auto simp: le_net_SetDefaultGW_def)
    with a ns have "fst (snd (le_net_SetDefaultGW k e ch db)) = fst (snd (applyDefaultGW e intf v4 v6 db)) \<and>
      setCalls F (snd (snd (le_net_SetDefaultGW k e ch db)))
        = setCalls F (snd (snd (applyDefaultGW e intf v4 v6 db)))"
      by (simp add: setCalls_def)
    then show ?thesis by blast
  qed
qed

lemma Set_other:
  "DcsNetGetSessionRef e \<noteq> s \<Longrightarrow>
     backupOf s (fst (snd (le_net_SetDefaultGW k e ch db))) = backupOf s db"
  using Set_shape [of k e ch db True] by (auto simp: apply_other)

lemma Restore_events:
  "backupOf (DcsNetGetSessionRef e) db = Some d \<Longrightarrow>
     setCalls F (snd (snd (le_net_RestoreDefaultGW e db))) =
       (if F then (if setV6GwToSystem d
                   then [PaSetDefaultGateway (defaultV6Interface d) (defaultV6GW d) True] else [])
        else (if setV4GwToSystem d
              then [PaSetDefaultGateway (defaultV4Interface d) (defaultV4GW d) False] else []))"
  by (auto simp: backupOf_def le_net_RestoreDefaultGW_def Let_def setCalls_def
      split: option.splits prod.splits)

lemma run_append: "run k (xs @ ys) db = run k ys (run k xs db)"
  by (induction xs arbitrary: db) simp_all


lemma Restore_setCalls:
  "backupOf (DcsNetGetSessionRef e) db = Some d \<Longrightarrow>
     setCalls F (snd (snd (le_net_RestoreDefaultGW e db))) =
       (if installed F d then [archivedCall F d] else [])"
  by (simp add: Restore_events installed_def archivedCall_def)

lemma Restore_none:
  "backupOf (DcsNetGetSessionRef e) db = None \<Longrightarrow>
     le_net_RestoreDefaultGW e db = (LE_NOT_FOUND, db, [])"
  by (auto simp: backupOf_def le_net_RestoreDefaultGW_def split: option.splits prod.splits)

lemma markInstalled_keeps:
  "archivedCall F (markInstalled e intf v4 v6 d) = archivedCall F d"
  "installed F d \<Longrightarrow> installed F (markInstalled e intf v4 v6 d)"
  by (simp_all add: archivedCall_def installed_def markInstalled_def)

lemma Set_own_keeps:
  assumes "backupOf (DcsNetGetSessionRef e) db = Some d" and "installed F d"
  shows "\<exists>d'. backupOf (DcsNetGetSessionRef e) (fst (snd (le_net_SetDefaultGW k e ch db))) = Some d' \<and>
              archivedCall F d' = archivedCall F d \<and> installed F d'"
  using Set_shape [of k e ch db F] assms
  by (auto simp: apply_own markInstalled_keeps)

lemma Set_own_success:
  assumes b: "backupOf (DcsNetGetSessionRef e) db = Some d"
    and c: "PaSetDefaultGateway intf gw F \<in> set (snd (snd (le_net_SetDefaultGW k e ch db)))"
    and ok: "pa_dcs_SetDefaultGateway e intf gw F = LE_OK"
  shows "\<exists>d'. backupOf (DcsNetGetSessionRef e) (fst (snd (le_net_SetDefaultGW k e ch db))) = Some d' \<and>
              archivedCall F d' = archivedCall F d \<and> installed F d'"
proof -
  from c have m: "PaSetDefaultGateway intf gw F \<in> set (setCalls F (snd (snd (le_net_SetDefaultGW k e ch db))))"
    by (simp add: setCalls_def)
  from Set_shape [of k e ch db F] m
  obtain intf0 v4 v6 where
    db': "fst (snd (le_net_SetDefaultGW k e ch db)) = fst (snd (applyDefaultGW e intf0 v4 v6 db))" and
    ev: "setCalls F (snd (snd (le_net_SetDefaultGW k e ch db)))
        = setCalls F (snd (snd (applyDefaultGW e intf0 v4 v6 db)))"
    by auto
  from m ev have "PaSetDefaultGateway intf gw F \<in> set (setCalls F (snd (snd (applyDefaultGW e intf0 v4 v6 db))))"
    by simp
  then have "intf = intf0 \<and> (if F then v6 \<noteq> [] \<and> gw = v6 else v4 \<noteq> [] \<and> gw = v4)"
    by (auto simp: apply_events setCalls_def split: if_splits)
  with ok have "installed F (markInstalled e intf0 v4 v6 d)"
    by (auto simp: installed_def markInstalled_def split: if_splits)
  with b db' show ?thesis by (simp add: apply_own markInstalled_keeps)
qed

lemma step_keeps_installed:
  assumes "callerOf x = s \<longrightarrow> isSetOp x" and "backupOf s db = Some d" and "installed F d"
  shows "\<exists>d'. backupOf s (step k x db) = Some d' \<and>
              archivedCall F d' = archivedCall F d \<and> installed F d'"
proof (cases x)
  case (BackupDefaultGW e)
  with assms show ?thesis by (simp add: Backup_other)
next
  case (SetDefaultGW e ch)
  show ?thesis
  proof (cases "DcsNetGetSessionRef e = s")
    case True
    with assms SetDefaultGW Set_own_keeps [of e db d F k ch] show ?thesis by simp
  next
    case False
    with assms SetDefaultGW show ?thesis by (simp add: Set_other)
  qed
next
  case (RestoreDefaultGW e)
  with assms show ?thesis by (simp add: Restore_other)
qed

lemma run_keeps_installed:
  assumes "\<forall>x\<in>set xs. callerOf x = s \<longrightarrow> isSetOp x"
    and "backupOf s db = Some d" and "installed F d"
  shows "\<exists>d'. backupOf s (run k xs db) = Some d' \<and>
              archivedCall F d' = archivedCall F d \<and> installed F d'"
  using assms
proof (induction xs arbitrary: db d)
  case Nil
  then show ?case by simp
next
  case (Cons x xs)
  from Cons.prems have "callerOf x = s \<longrightarrow> isSetOp x" by simp
  from step_keeps_installed [OF this Cons.prems(2,3)]
  obtain d1 where d1: "backupOf s (step k x db) = Some d1"
    "archivedCall F d1 = archivedCall F d" "installed F d1" by blast
  from Cons.prems have "\<forall>x\<in>set xs. callerOf x = s \<longrightarrow> isSetOp x" by simp
  from Cons.IH [OF this d1(1) d1(3)] d1(2) show ?case by simp
qed


lemma step_notInstalled:
  assumes "\<not> (callerOf x = s \<and> isSetOp x)" and "distinct (map appSessionRef db)"
    and "notInstalled s db"
  shows "notInstalled s (step k x db)"
proof (cases x)
  case (BackupDefaultGW e)
  show ?thesis
  proof (cases "DcsNetGetSessionRef e = s")
    case True
    with BackupDefaultGW Backup_own [of e k db] show ?thesis by (auto simp: notInstalled_def)
  next
    case False
    with BackupDefaultGW assms show ?thesis by (simp add: notInstalled_def Backup_other)
  qed
next
  case (SetDefaultGW e ch)
  with assms show ?thesis by (simp add: notInstalled_def Set_other)
next
  case (RestoreDefaultGW e)
  show ?thesis
  proof (cases "DcsNetGetSessionRef e = s")
    case True
    with RestoreDefaultGW assms(2) Restore_own [of db e] show ?thesis
      by (auto simp: notInstalled_def)
  next
    case False
    with RestoreDefaultGW assms show ?thesis by (simp add: notInstalled_def Restore_other)
  qed
qed

lemma run_notInstalled:
  assumes "\<forall>x\<in>set xs. \<not> (callerOf x = s \<and> isSetOp x)" and "distinct (map appSessionRef db)"
    and "notInstalled s db"
  shows "notInstalled s (run k xs db)"
  using assms
proof (induction xs arbitrary: db)
  case Nil
  then show ?case by simp
next
  case (Cons x xs)
  from Cons.prems have "notInstalled s (step k x db)"
    by (intro step_notInstalled) simp_all
  moreover from Cons.prems have "distinct (map appSessionRef (step k x db))"
    by (intro step_sessions_distinct)
  ultimately show ?case using Cons.IH Cons.prems(1) by simp
qed

section \<open>The claims\<close>

text \<open>
  C1. The specification has a second backup by a session keep each flag of its backup
  when the gateway address and the interface reported now equal the archived ones.
  \<open>InsertDefaultGwBackupDb\<close> compares them, but then takes the flag from the incoming
  structure, which \<open>le_net_BackupDefaultGW\<close> has zeroed. Session 1 backs up, sets the
  gateways of the cellular channel (the adapter accepts both, so both flags are raised),
  and backs up again; the system reports the same gateways on the same interface all
  along. The second backup lowers both flags.
\<close>

theorem rebackup_of_same_gateway_lowers_flags:
  "backupOf 1 (run exampleConsts
       [BackupDefaultGW (cellularIsDefault 1), SetDefaultGW (cellularIsDefault 1) 1]
       COMPONENT_INIT)
     = Some \<lparr>appSessionRef = 1, defaultV4GW = ''192.0.2.1'', defaultV4Interface = ''rmnet0'',
        setV4GwToSystem = True, defaultV6GW = ''2001:db8::1'', defaultV6Interface = ''rmnet0'',
        setV6GwToSystem = True\<rparr> \<and>
   pa_dcs_GetDefaultGateway (cellularIsDefault 1)
     = \<lparr>replyV4GW = ''192.0.2.1'', replyV4Interface = ''rmnet0'',
        replyV6GW = ''2001:db8::1'', replyV6Interface = ''rmnet0'',
        v4Ret = LE_OK, v6Ret = LE_OK\<rparr> \<and>
   backupOf 1 (run exampleConsts
       [BackupDefaultGW (cellularIsDefault 1), SetDefaultGW (cellularIsDefault 1) 1,
        BackupDefaultGW (cellularIsDefault 1)]
       COMPONENT_INIT)
     = Some \<lparr>appSessionRef = 1, defaultV4GW = ''192.0.2.1'', defaultV4Interface = ''rmnet0'',
        setV4GwToSystem = False, defaultV6GW = ''2001:db8::1'', defaultV6Interface = ''rmnet0'',
        setV6GwToSystem = False\<rparr>"
  by code_simp

text \<open>
  C2. The specification has every later \<open>le_net_RestoreDefaultGW\<close> of a session call the
  adapter once for a family that \<open>le_net_SetDefaultGW\<close> installed while the session had a
  backup. Session 1 archives the gateway 10.0.0.1 on eth0, installs the cellular
  channel's gateway 192.0.2.1 on rmnet0 (the adapter answers \<open>LE_OK\<close>), and backs up
  again, now that the system's default gateway is 192.0.2.1 on rmnet0: the new snapshot
  replaces the archived one with both flags lowered, and the restore that follows
  returns \<open>LE_OK\<close> without any adapter call.
\<close>

theorem later_restore_after_new_backup_programs_nothing:
  "backupOf 1 (run exampleConsts [BackupDefaultGW (exampleEnv 1 LE_OK)] COMPONENT_INIT)
     = Some \<lparr>appSessionRef = 1, defaultV4GW = ''10.0.0.1'', defaultV4Interface = ''eth0'',
        setV4GwToSystem = False, defaultV6GW = ''fe80::1'', defaultV6Interface = ''eth0'',
        setV6GwToSystem = False\<rparr> \<and>
   snd (snd (le_net_SetDefaultGW exampleConsts (exampleEnv 1 LE_OK) 1
       (run exampleConsts [BackupDefaultGW (exampleEnv 1 LE_OK)] COMPONENT_INIT)))
     = [TechGetDefaultGWAddress 2 7, PaSetDefaultGateway ''rmnet0'' ''2001:db8::1'' True,
        PaSetDefaultGateway ''rmnet0'' ''192.0.2.1'' False] \<and>
   pa_dcs_SetDefaultGateway (exampleEnv 1 LE_OK) ''rmnet0'' ''192.0.2.1'' False = LE_OK \<and>
   le_net_RestoreDefaultGW (exampleEnv 1 LE_OK)
     (run exampleConsts
        [BackupDefaultGW (exampleEnv 1 LE_OK), SetDefaultGW (exampleEnv 1 LE_OK) 1,
         BackupDefaultGW (cellularIsDefault 1)]
        COMPONENT_INIT)
     = (LE_OK, [], [])"
  by code_simp

text \<open>
  C2, as the code has it. Let a session \<open>s\<close> have the backup \<open>d\<close> in the list, and let
  \<open>s\<close> call \<open>le_net_SetDefaultGW\<close> so that the adapter's \<open>set_default_gateway\<close> is called
  for a family and answers \<open>LE_OK\<close>. Whatever the other sessions do next, and however
  often \<open>s\<close> sets the default gateway again, as long as \<open>s\<close> itself does not back up
  again, the next \<open>le_net_RestoreDefaultGW\<close> by \<open>s\<close> calls the adapter for that family
  exactly once, with the interface and the gateway address archived in \<open>d\<close>.
\<close>

theorem restore_reprograms_installed_gateway:
  assumes "DcsNetGetSessionRef e = s"
    and "backupOf s db = Some d"
    and "le_net_SetDefaultGW k e channelRef db = (r, db1, evs)"
    and "PaSetDefaultGateway intf gw isV6 \<in> set evs"
    and "pa_dcs_SetDefaultGateway e intf gw isV6 = LE_OK"
    and "\<forall>x\<in>set mid. callerOf x = s \<longrightarrow> isSetOp x"
    and "DcsNetGetSessionRef e' = s"
  shows "setCalls isV6 (snd (snd (le_net_RestoreDefaultGW e' (run k mid db1))))
           = [archivedCall isV6 d]"
proof -
  from assms(1-5) Set_own_success [of e db d intf gw isV6 k channelRef]
  obtain d1 where d1: "backupOf s db1 = Some d1" "archivedCall isV6 d1 = archivedCall isV6 d"
    "installed isV6 d1" by auto
  from run_keeps_installed [OF assms(6) d1(1) d1(3)]
  obtain d2 where d2: "backupOf s (run k mid db1) = Some d2"
    "archivedCall isV6 d2 = archivedCall isV6 d1" "installed isV6 d2" by blast
  with assms(7) d1(2) show ?thesis by (simp add: Restore_setCalls)
qed

theorem restore_reprograms_installed_gateway_witness:
  "setCalls False
     (snd (snd (le_net_RestoreDefaultGW (exampleEnv 1 LE_FAULT)
        (run exampleConsts
           [BackupDefaultGW (exampleEnv 2 LE_OK), SetDefaultGW (exampleEnv 1 LE_OK) 2]
           [\<lparr>appSessionRef = 1, defaultV4GW = ''10.0.0.1'', defaultV4Interface = ''eth0'',
              setV4GwToSystem = True, defaultV6GW = ''fe80::1'',
              defaultV6Interface = ''eth0'', setV6GwToSystem = True\<rparr>]))))
   = [PaSetDefaultGateway ''eth0'' ''10.0.0.1'' False]"
proof -
  let ?d = "\<lparr>appSessionRef = 1, defaultV4GW = ''10.0.0.1'', defaultV4Interface = ''eth0'',
        setV4GwToSystem = False, defaultV6GW = ''fe80::1'', defaultV6Interface = ''eth0'',
        setV6GwToSystem = False\<rparr>"
  let ?d1 = "\<lparr>appSessionRef = 1, defaultV4GW = ''10.0.0.1'', defaultV4Interface = ''eth0'',
        setV4GwToSystem = True, defaultV6GW = ''fe80::1'', defaultV6Interface = ''eth0'',
        setV6GwToSystem = True\<rparr>"
  have h1: "DcsNetGetSessionRef (exampleEnv 1 LE_OK) = 1" by code_simp
  have h2: "backupOf 1 [?d] = Some ?d" by code_simp
  have h3: "le_net_SetDefaultGW exampleConsts (exampleEnv 1 LE_OK) 1 [?d]
      = (LE_OK, [?d1],
         [TechGetDefaultGWAddress 2 7, PaSetDefaultGateway ''rmnet0'' ''2001:db8::1'' True,
          PaSetDefaultGateway ''rmnet0'' ''192.0.2.1'' False])"
    by code_simp
  have h4: "PaSetDefaultGateway ''rmnet0'' ''192.0.2.1'' False
      \<in> set [TechGetDefaultGWAddress 2 7, PaSetDefaultGateway ''rmnet0'' ''2001:db8::1'' True,
          PaSetDefaultGateway ''rmnet0'' ''192.0.2.1'' False]"
    by simp
  have h5: "pa_dcs_SetDefaultGateway (exampleEnv 1 LE_OK) ''rmnet0'' ''192.0.2.1'' False = LE_OK"
    by code_simp
  have h6: "\<forall>x\<in>set [BackupDefaultGW (exampleEnv 2 LE_OK), SetDefaultGW (exampleEnv 1 LE_OK) 2].
      callerOf x = 1 \<longrightarrow> isSetOp x"
    by (simp add: DcsNetGetSessionRef_def exampleEnv_def)
  have h7: "DcsNetGetSessionRef (exampleEnv 1 LE_FAULT) = 1" by code_simp
  from restore_reprograms_installed_gateway [OF h1 h2 h3 h4 h5 h6 h7]
  show ?thesis by (simp add: archivedCall_def)
qed

text \<open>
  C3. However the three gateway operations are interleaved after initialisation, and
  whatever the collaborators answer, the list never holds two backups of one session: for
  every session reference \<open>s\<close>, the number of members whose \<open>appSessionRef\<close> is \<open>s\<close> is at
  most one.
\<close>

theorem at_most_one_backup_per_session:
  "length (filter (\<lambda>d. appSessionRef d = s) (run k ops COMPONENT_INIT)) \<le> 1"
proof -
  have "distinct (map appSessionRef COMPONENT_INIT)" by (simp add: COMPONENT_INIT_def)
  then have "distinct (map appSessionRef (run k ops COMPONENT_INIT))"
    by (rule run_sessions_distinct)
  then show ?thesis by (rule distinct_sessions_at_most_one)
qed

theorem at_most_one_backup_per_session_witness:
  "length (filter (\<lambda>d. appSessionRef d = 1)
     (run exampleConsts
        [BackupDefaultGW (exampleEnv 1 LE_OK), BackupDefaultGW (exampleEnv 2 LE_OK),
         SetDefaultGW (exampleEnv 1 LE_OK) 1, BackupDefaultGW (exampleEnv 1 LE_OK)]
        COMPONENT_INIT)) \<le> 1"
  by (rule at_most_one_backup_per_session)

text \<open>
  C4. After a session has backed up, and as long as it does not call
  \<open>le_net_SetDefaultGW\<close> itself, its next \<open>le_net_RestoreDefaultGW\<close> makes no call of
  the adapter's \<open>set_default_gateway\<close>, for either family; whatever was done before the
  backup, and whatever other sessions do in between.
\<close>

theorem restore_without_set_programs_nothing:
  assumes "DcsNetGetSessionRef e = s"
    and "\<forall>x\<in>set mid. \<not> (callerOf x = s \<and> isSetOp x)"
    and "DcsNetGetSessionRef e' = s"
  shows "setCalls isV6
           (snd (snd (le_net_RestoreDefaultGW e'
              (run k (pre @ BackupDefaultGW e # mid) COMPONENT_INIT)))) = []"
proof -
  let ?db0 = "run k pre COMPONENT_INIT"
  let ?db1 = "le_net_BackupDefaultGW k e ?db0"
  have "distinct (map appSessionRef COMPONENT_INIT)" by (simp add: COMPONENT_INIT_def)
  then have "distinct (map appSessionRef ?db0)" by (rule run_sessions_distinct)
  then have d1: "distinct (map appSessionRef ?db1)"
    using step_sessions_distinct [of ?db0 k "BackupDefaultGW e"] by simp
  have "notInstalled s ?db1"
    using Backup_own [of e k ?db0] assms(1) by (auto simp: notInstalled_def)
  from run_notInstalled [OF assms(2) d1 this]
  have n: "notInstalled s (run k mid ?db1)" .
  have r: "run k (pre @ BackupDefaultGW e # mid) COMPONENT_INIT = run k mid ?db1"
    by (simp add: run_append)
  show ?thesis
  proof (cases "backupOf s (run k mid ?db1)")
    case None
    with assms(3) r show ?thesis by (simp add: Restore_none setCalls_def)
  next
    case (Some d)
    with n have "\<not> installed isV6 d" by (simp add: notInstalled_def installed_def)
    with Some assms(3) r show ?thesis by (simp add: Restore_setCalls)
  qed
qed

theorem restore_without_set_programs_nothing_witness:
  "setCalls False
     (snd (snd (le_net_RestoreDefaultGW (exampleEnv 1 LE_OK)
        (run exampleConsts
           ([BackupDefaultGW (exampleEnv 1 LE_OK), SetDefaultGW (exampleEnv 1 LE_OK) 1]
            @ BackupDefaultGW (exampleEnv 1 LE_OK)
            # [BackupDefaultGW (exampleEnv 2 LE_OK), SetDefaultGW (exampleEnv 2 LE_OK) 1])
           COMPONENT_INIT)))) = []"
proof -
  have h1: "DcsNetGetSessionRef (exampleEnv 1 LE_OK) = 1" by code_simp
  have h2: "\<forall>x\<in>set [BackupDefaultGW (exampleEnv 2 LE_OK), SetDefaultGW (exampleEnv 2 LE_OK) 1].
      \<not> (callerOf x = 1 \<and> isSetOp x)"
    by (simp add: DcsNetGetSessionRef_def exampleEnv_def)
  from restore_without_set_programs_nothing [OF h1 h2 h1]
  show ?thesis .
qed

text \<open>
  C5. On a channel that exists and whose technology is supported, \<open>le_net_ChangeRoute\<close>
  returns \<open>LE_BAD_PARAMETER\<close> and calls nothing (in particular not the adapter's
  \<open>change_route\<close>) when the destination is the null pointer, or when the destination
  with its leading white space stripped is accepted by \<open>inet_pton\<close> neither as IPv4 nor
  as IPv6. The stripping loop counts in a \<open>uint16_t\<close>; on a destination of fewer than
  65536 characters it removes exactly the leading white space.
\<close>

theorem change_route_rejects_invalid_destination:
  assumes "le_dcs_GetChannelDbFromRef e channelRef = Some channelDb"
    and "LE_DCS_TECH_UNKNOWN k \<noteq> technology channelDb"
    and "technology channelDb < LE_DCS_TECH_MAX k"
    and "\<forall>d. destAddr = Some d \<longrightarrow>
           DcsNetValidateIpAddress e AF_INET (stripLeading d) \<noteq> LE_OK \<and>
           DcsNetValidateIpAddress e AF_INET6 (stripLeading d) \<noteq> LE_OK"
  shows "le_net_ChangeRoute k e channelRef destAddr prefixLength isAdd = (LE_BAD_PARAMETER, []) \<and>
         (\<forall>d. destAddr = Some d \<longrightarrow> length d < 65536 \<longrightarrow>
               stripLeading d = dropWhile isspace d)"
proof -
  have "le_net_ChangeRoute k e channelRef destAddr prefixLength isAdd = (LE_BAD_PARAMETER, [])"
  proof (cases destAddr)
    case None
    with assms(1-3) show ?thesis by (simp add: le_net_ChangeRoute_def)
  next
    case (Some d)
    with assms show ?thesis by (simp add: le_net_ChangeRoute_def Let_def)
  qed
  then show ?thesis by (simp add: stripLeading_dropWhile)
qed

theorem change_route_rejects_invalid_destination_witness:
  "le_net_ChangeRoute exampleConsts (exampleEnv 1 LE_OK) 2 (Some ''  10.0.0.256'') (Some ''24'') True
     = (LE_BAD_PARAMETER, []) \<and>
   stripLeading ''  10.0.0.256'' = ''10.0.0.256''"
proof -
  have h1: "le_dcs_GetChannelDbFromRef (exampleEnv 1 LE_OK) 2
      = Some \<lparr>channelName = ''wifi'', technology = 1, techRef = 8\<rparr>" by code_simp
  have h2: "LE_DCS_TECH_UNKNOWN exampleConsts
      \<noteq> technology \<lparr>channelName = ''wifi'', technology = 1, techRef = 8\<rparr>" by code_simp
  have h3: "technology \<lparr>channelName = ''wifi'', technology = 1, techRef = 8\<rparr>
      < LE_DCS_TECH_MAX exampleConsts" by code_simp
  have v: "DcsNetValidateIpAddress (exampleEnv 1 LE_OK) AF_INET (stripLeading ''  10.0.0.256'') \<noteq> LE_OK \<and>
           DcsNetValidateIpAddress (exampleEnv 1 LE_OK) AF_INET6 (stripLeading ''  10.0.0.256'') \<noteq> LE_OK"
    by code_simp
  then have h4: "\<forall>d. Some ''  10.0.0.256'' = Some d \<longrightarrow>
           DcsNetValidateIpAddress (exampleEnv 1 LE_OK) AF_INET (stripLeading d) \<noteq> LE_OK \<and>
           DcsNetValidateIpAddress (exampleEnv 1 LE_OK) AF_INET6 (stripLeading d) \<noteq> LE_OK"
    by simp
  have h5: "dropWhile isspace ''  10.0.0.256'' = ''10.0.0.256''" by code_simp
  from change_route_rejects_invalid_destination [OF h1 h2 h3 h4, of "Some ''24''" True] h5
  show ?thesis by simp
qed

text \<open>
  C6. The specification has an input with non-digit content yield 0 or a negative value,
  which \<open>le_net_ChangeRoute\<close> would treat as invalid. The input "1a" has a character that is
  no digit and yields 1, and a route to an IPv6 destination with that prefix input is
  passed on to the adapter.
\<close>

theorem prefix_length_of_1a_is_positive:
  "CHR ''a'' \<in> set ''1a'' \<and> \<not> isdigit (CHR ''a'') \<and>
   \<not> DcsConvertPrefixLengthString exampleConsts (Some ''1a'') \<le> 0 \<and>
   le_net_ChangeRoute exampleConsts (exampleEnv 1 LE_OK) 2 (Some ''2001:db8::'') (Some ''1a'') True
     = (LE_OK, [PaChangeRoute PA_DCS_ROUTE_ADD ''2001:db8::'' ''1a'' ''wlan0''])"
  by code_simp

text \<open>
  C6, as the code has it (\<open>long\<close> reaching 999 at least). An input whose length, as the
  \<open>uint16_t\<close> the parser keeps it in, exceeds 3 yields -1. An input of at most 3
  characters yields the number written at its start, between -99 and 999: the characters
  after the leading digits are not looked at, and an input without any digit yields 0.
  What \<open>le_net_ChangeRoute\<close> makes of the value \<open>n\<close> of the stripped prefix input, on a
  channel that exists, with a technology that is supported and an interface that is
  known: if \<open>n\<close> is negative or above 128 it returns \<open>LE_BAD_PARAMETER\<close> and calls
  nothing, for an IPv6 destination always and for an IPv4 destination when the input is
  no IPv4 netmask either; if \<open>n\<close> is 0 it calls the adapter with the empty prefix; if
  \<open>n\<close> is from 1 to 128 it calls the adapter with the stripped input as it is.
\<close>

theorem prefix_length_parser_reads_a_leading_number:
  assumes "999 \<le> LONG_MAX k"
  shows "(3 < length str mod 65536 \<longrightarrow> DcsConvertPrefixLengthString k (Some str) = - 1) \<and>
         (length str \<le> 3 \<longrightarrow>
            DcsConvertPrefixLengthString k (Some str) = numberAtStart str \<and>
            - 99 \<le> numberAtStart str \<and> numberAtStart str \<le> 999) \<and>
         (length str \<le> 3 \<and> (\<forall>c\<in>set str. \<not> isdigit c) \<longrightarrow>
            DcsConvertPrefixLengthString k (Some str) = 0) \<and>
         (DcsConvertPrefixLengthString k (Some str) < 0 \<or>
          IPV6_PREFIX_LENGTH_MAX < DcsConvertPrefixLengthString k (Some str) \<longrightarrow>
            checkPrefixIPv6 k (Some str) = (Inl LE_BAD_PARAMETER, [])) \<and>
         (DcsConvertPrefixLengthString k (Some str) = 0 \<longrightarrow>
            checkPrefixIPv6 k (Some str) = (Inr (Some []), []) \<and>
            checkPrefixIPv4 k e (Some str) = (Inr (Some []), [])) \<and>
         (0 < DcsConvertPrefixLengthString k (Some str) \<and>
          DcsConvertPrefixLengthString k (Some str) \<le> IPV6_PREFIX_LENGTH_MAX \<longrightarrow>
            checkPrefixIPv6 k (Some str) = (Inr (Some str), []) \<and>
            checkPrefixIPv4 k e (Some str) = (Inr (Some str), [])) \<and>
         (le_dcs_GetChannelDbFromRef e channelRef = Some channelDb \<and>
          LE_DCS_TECH_UNKNOWN k \<noteq> technology channelDb \<and>
          technology channelDb < LE_DCS_TECH_MAX k \<and>
          le_dcsTech_GetNetInterface e (technology channelDb) channelRef = (LE_OK, intf) \<and>
          action = (if isAdd then PA_DCS_ROUTE_ADD else PA_DCS_ROUTE_DELETE) \<and>
          n = DcsConvertPrefixLengthString k (Some (stripLeading prefix)) \<longrightarrow>
            (DcsNetValidateIpAddress e AF_INET (stripLeading dest) \<noteq> LE_OK \<and>
              DcsNetValidateIpAddress e AF_INET6 (stripLeading dest) = LE_OK \<longrightarrow>
                (n < 0 \<or> IPV6_PREFIX_LENGTH_MAX < n \<longrightarrow>
                   le_net_ChangeRoute k e channelRef (Some dest) (Some prefix) isAdd
                     = (LE_BAD_PARAMETER, [])) \<and>
                (n = 0 \<longrightarrow>
                   le_net_ChangeRoute k e channelRef (Some dest) (Some prefix) isAdd
                     = (pa_dcs_ChangeRoute e action (stripLeading dest) [] intf,
                        [PaChangeRoute action (stripLeading dest) [] intf])) \<and>
                (0 < n \<and> n \<le> IPV6_PREFIX_LENGTH_MAX \<longrightarrow>
                   le_net_ChangeRoute k e channelRef (Some dest) (Some prefix) isAdd
                     = (pa_dcs_ChangeRoute e action (stripLeading dest) (stripLeading prefix) intf,
                        [PaChangeRoute action (stripLeading dest) (stripLeading prefix) intf]))) \<and>
            (DcsNetValidateIpAddress e AF_INET (stripLeading dest) = LE_OK \<longrightarrow>
                ((n < 0 \<or> IPV6_PREFIX_LENGTH_MAX < n) \<and>
                 DcsNetValidateIpAddress e AF_INET (stripLeading prefix) \<noteq> LE_OK \<longrightarrow>
                   le_net_ChangeRoute k e channelRef (Some dest) (Some prefix) isAdd
                     = (LE_BAD_PARAMETER,
                        [LeWarn ''Input IPv4 subnet mask prefix length %s invalid''])) \<and>
                (n = 0 \<longrightarrow>
                   le_net_ChangeRoute k e channelRef (Some dest) (Some prefix) isAdd
                     = (pa_dcs_ChangeRoute e action (stripLeading dest) [] intf,
                        [PaChangeRoute action (stripLeading dest) [] intf])) \<and>
                (0 < n \<and> n \<le> IPV6_PREFIX_LENGTH_MAX \<longrightarrow>
                   le_net_ChangeRoute k e channelRef (Some dest) (Some prefix) isAdd
                     = (pa_dcs_ChangeRoute e action (stripLeading dest) (stripLeading prefix) intf,
                        [PaChangeRoute action (stripLeading dest) (stripLeading prefix) intf]))))"
proof -
  have len: "unat (word_of_nat (length str) :: 16 word) = length str mod 65536"
    by (simp add: unat_of_nat)
  have zero: "(word_of_nat (length str) :: 16 word) = 0 \<longleftrightarrow> length str mod 65536 = 0"
    using len by (metis unat_eq_0)
  have a: "3 < length str mod 65536 \<longrightarrow> DcsConvertPrefixLengthString k (Some str) = - 1"
    using len zero
    by (auto simp: DcsConvertPrefixLengthString_def Let_def IPV6_PREFIX_LEN_STR_LENGTH_def)
  have b: "DcsConvertPrefixLengthString k (Some str) = numberAtStart str \<and>
            - 99 \<le> numberAtStart str \<and> numberAtStart str \<le> 999" if l: "length str \<le> 3"
  proof -
    from l have m: "length str mod 65536 = length str" by simp
    note nb = numberAtStart_bound [OF l]
    show ?thesis
    proof (cases "str = []")
      case True
      then show ?thesis by (simp add: DcsConvertPrefixLengthString_def numberAtStart_def)
    next
      case False
      with m zero have "(word_of_nat (length str) :: 16 word) \<noteq> 0" by simp
      with len m l nb assms show ?thesis
        by (simp add: DcsConvertPrefixLengthString_def Let_def IPV6_PREFIX_LEN_STR_LENGTH_def
            strtol_numberAtStart int16_cast)
    qed
  qed
  have c: "length str \<le> 3 \<and> (\<forall>c\<in>set str. \<not> isdigit c) \<longrightarrow>
            DcsConvertPrefixLengthString k (Some str) = 0"
    using b numberAtStart_no_digit by auto
  have d: "DcsConvertPrefixLengthString k (Some str) < 0 \<or>
          IPV6_PREFIX_LENGTH_MAX < DcsConvertPrefixLengthString k (Some str) \<longrightarrow>
            checkPrefixIPv6 k (Some str) = (Inl LE_BAD_PARAMETER, [])"
    by (simp add: checkPrefixIPv6_def Let_def)
  have g: "0 < DcsConvertPrefixLengthString k (Some str) \<and>
          DcsConvertPrefixLengthString k (Some str) \<le> IPV6_PREFIX_LENGTH_MAX \<longrightarrow>
            checkPrefixIPv6 k (Some str) = (Inr (Some str), []) \<and>
            checkPrefixIPv4 k e (Some str) = (Inr (Some str), [])"
    by (simp add: checkPrefixIPv6_def checkPrefixIPv4_def Let_def)
  have f: "DcsConvertPrefixLengthString k (Some str) = 0 \<longrightarrow>
            checkPrefixIPv6 k (Some str) = (Inr (Some []), []) \<and>
            checkPrefixIPv4 k e (Some str) = (Inr (Some []), [])"
    by (simp add: checkPrefixIPv6_def checkPrefixIPv4_def Let_def IPV6_PREFIX_LENGTH_MAX_def)
  have h: "(DcsNetValidateIpAddress e AF_INET (stripLeading dest) \<noteq> LE_OK \<and>
          DcsNetValidateIpAddress e AF_INET6 (stripLeading dest) = LE_OK \<longrightarrow>
            (n < 0 \<or> IPV6_PREFIX_LENGTH_MAX < n \<longrightarrow>
               le_net_ChangeRoute k e channelRef (Some dest) (Some prefix) isAdd
                 = (LE_BAD_PARAMETER, [])) \<and>
            (n = 0 \<longrightarrow>
               le_net_ChangeRoute k e channelRef (Some dest) (Some prefix) isAdd
                 = (pa_dcs_ChangeRoute e action (stripLeading dest) [] intf,
                    [PaChangeRoute action (stripLeading dest) [] intf])) \<and>
            (0 < n \<and> n \<le> IPV6_PREFIX_LENGTH_MAX \<longrightarrow>
               le_net_ChangeRoute k e channelRef (Some dest) (Some prefix) isAdd
                 = (pa_dcs_ChangeRoute e action (stripLeading dest) (stripLeading prefix) intf,
                    [PaChangeRoute action (stripLeading dest) (stripLeading prefix) intf]))) \<and>
           (DcsNetValidateIpAddress e AF_INET (stripLeading dest) = LE_OK \<longrightarrow>
               ((n < 0 \<or> IPV6_PREFIX_LENGTH_MAX < n) \<and>
                DcsNetValidateIpAddress e AF_INET (stripLeading prefix) \<noteq> LE_OK \<longrightarrow>
                  le_net_ChangeRoute k e channelRef (Some dest) (Some prefix) isAdd
                    = (LE_BAD_PARAMETER,
                       [LeWarn ''Input IPv4 subnet mask prefix length %s invalid''])) \<and>
               (n = 0 \<longrightarrow>
                  le_net_ChangeRoute k e channelRef (Some dest) (Some prefix) isAdd
                    = (pa_dcs_ChangeRoute e action (stripLeading dest) [] intf,
                       [PaChangeRoute action (stripLeading dest) [] intf])) \<and>
               (0 < n \<and> n \<le> IPV6_PREFIX_LENGTH_MAX \<longrightarrow>
                  le_net_ChangeRoute k e channelRef (Some dest) (Some prefix) isAdd
                    = (pa_dcs_ChangeRoute e action (stripLeading dest) (stripLeading prefix) intf,
                       [PaChangeRoute action (stripLeading dest) (stripLeading prefix) intf])))"
    if ch: "le_dcs_GetChannelDbFromRef e channelRef = Some channelDb"
      and t1: "LE_DCS_TECH_UNKNOWN k \<noteq> technology channelDb"
      and t2: "technology channelDb < LE_DCS_TECH_MAX k"
      and ni: "le_dcsTech_GetNetInterface e (technology channelDb) channelRef = (LE_OK, intf)"
      and ac: "action = (if isAdd then PA_DCS_ROUTE_ADD else PA_DCS_ROUTE_DELETE)"
      and n: "n = DcsConvertPrefixLengthString k (Some (stripLeading prefix))"
  proof -
    note i = initiate_known_interface [OF ni]
    have v6: "(DcsNetValidateIpAddress e AF_INET (stripLeading dest) \<noteq> LE_OK \<and>
            DcsNetValidateIpAddress e AF_INET6 (stripLeading dest) = LE_OK \<longrightarrow>
              (n < 0 \<or> IPV6_PREFIX_LENGTH_MAX < n \<longrightarrow>
                 le_net_ChangeRoute k e channelRef (Some dest) (Some prefix) isAdd
                   = (LE_BAD_PARAMETER, [])) \<and>
              (n = 0 \<longrightarrow>
                 le_net_ChangeRoute k e channelRef (Some dest) (Some prefix) isAdd
                   = (pa_dcs_ChangeRoute e action (stripLeading dest) [] intf,
                      [PaChangeRoute action (stripLeading dest) [] intf])) \<and>
              (0 < n \<and> n \<le> IPV6_PREFIX_LENGTH_MAX \<longrightarrow>
                 le_net_ChangeRoute k e channelRef (Some dest) (Some prefix) isAdd
                   = (pa_dcs_ChangeRoute e action (stripLeading dest) (stripLeading prefix) intf,
                      [PaChangeRoute action (stripLeading dest) (stripLeading prefix) intf])))"
      using n ac
      by (auto simp: change_route_ipv6 [OF ch t1 t2] check6_invalid check6_zero check6_valid i)
    have v4: "(DcsNetValidateIpAddress e AF_INET (stripLeading dest) = LE_OK \<longrightarrow>
              ((n < 0 \<or> IPV6_PREFIX_LENGTH_MAX < n) \<and>
               DcsNetValidateIpAddress e AF_INET (stripLeading prefix) \<noteq> LE_OK \<longrightarrow>
                 le_net_ChangeRoute k e channelRef (Some dest) (Some prefix) isAdd
                   = (LE_BAD_PARAMETER,
                      [LeWarn ''Input IPv4 subnet mask prefix length %s invalid''])) \<and>
              (n = 0 \<longrightarrow>
                 le_net_ChangeRoute k e channelRef (Some dest) (Some prefix) isAdd
                   = (pa_dcs_ChangeRoute e action (stripLeading dest) [] intf,
                      [PaChangeRoute action (stripLeading dest) [] intf])) \<and>
              (0 < n \<and> n \<le> IPV6_PREFIX_LENGTH_MAX \<longrightarrow>
                 le_net_ChangeRoute k e channelRef (Some dest) (Some prefix) isAdd
                   = (pa_dcs_ChangeRoute e action (stripLeading dest) (stripLeading prefix) intf,
                      [PaChangeRoute action (stripLeading dest) (stripLeading prefix) intf])))"
      using n ac
      by (auto simp: change_route_ipv4 [OF ch t1 t2] check4_invalid check4_zero check4_valid i)
    from v6 v4 show ?thesis by blast
  qed
  from a b c d f g h show ?thesis by blast
qed

theorem prefix_length_parser_reads_a_leading_number_witness:
  "DcsConvertPrefixLengthString exampleConsts (Some ''1234'') = - 1 \<and>
   DcsConvertPrefixLengthString exampleConsts (Some ''12x'') = 12 \<and>
   DcsConvertPrefixLengthString exampleConsts (Some ''ab'') = 0 \<and>
   le_net_ChangeRoute exampleConsts (exampleEnv 1 LE_OK) 2 (Some ''2001:db8::'') (Some ''129'') True
     = (LE_BAD_PARAMETER, []) \<and>
   le_net_ChangeRoute exampleConsts (exampleEnv 1 LE_OK) 2 (Some ''2001:db8::'') (Some ''1234'') True
     = (LE_BAD_PARAMETER, []) \<and>
   le_net_ChangeRoute exampleConsts (exampleEnv 1 LE_OK) 2 (Some ''2001:db8::'') (Some ''ab'') True
     = (LE_OK, [PaChangeRoute PA_DCS_ROUTE_ADD ''2001:db8::'' [] ''wlan0'']) \<and>
   le_net_ChangeRoute exampleConsts (exampleEnv 1 LE_OK) 2 (Some ''2001:db8::'') (Some ''12x'') True
     = (LE_OK, [PaChangeRoute PA_DCS_ROUTE_ADD ''2001:db8::'' ''12x'' ''wlan0'']) \<and>
   le_net_ChangeRoute exampleConsts (exampleEnv 1 LE_OK) 2 (Some ''10.0.0.0'') (Some ''-5'') False
     = (LE_BAD_PARAMETER, [LeWarn ''Input IPv4 subnet mask prefix length %s invalid'']) \<and>
   le_net_ChangeRoute exampleConsts (exampleEnv 1 LE_OK) 2 (Some ''10.0.0.0'') (Some '' ab'') False
     = (LE_OK, [PaChangeRoute PA_DCS_ROUTE_DELETE ''10.0.0.0'' [] ''wlan0'']) \<and>
   le_net_ChangeRoute exampleConsts (exampleEnv 1 LE_OK) 2 (Some ''10.0.0.0'') (Some ''24'') False
     = (LE_OK, [PaChangeRoute PA_DCS_ROUTE_DELETE ''10.0.0.0'' ''24'' ''wlan0''])"
proof -
  let ?e = "exampleEnv 1 LE_OK"
  let ?wifi = "\<lparr>channelName = ''wifi'', technology = 1, techRef = 8\<rparr>"
  have h: "999 \<le> LONG_MAX exampleConsts" by code_simp
  have env: "le_dcs_GetChannelDbFromRef ?e 2 = Some ?wifi \<and>
      LE_DCS_TECH_UNKNOWN exampleConsts \<noteq> technology ?wifi \<and>
      technology ?wifi < LE_DCS_TECH_MAX exampleConsts \<and>
      le_dcsTech_GetNetInterface ?e (technology ?wifi) 2 = (LE_OK, ''wlan0'')"
    by code_simp
  have ok: "\<And>a d p i. pa_dcs_ChangeRoute ?e a d p i = LE_OK" by (simp add: exampleEnv_def)
  have strip: "stripLeading ''2001:db8::'' = ''2001:db8::''" "stripLeading ''10.0.0.0'' = ''10.0.0.0''"
    "stripLeading ''129'' = ''129''" "stripLeading ''1234'' = ''1234''"
    "stripLeading ''ab'' = ''ab''" "stripLeading ''12x'' = ''12x''" "stripLeading ''-5'' = ''-5''"
    "stripLeading '' ab'' = ''ab''" "stripLeading ''24'' = ''24''"
    by code_simp+
  have v6: "DcsNetValidateIpAddress ?e AF_INET ''2001:db8::'' \<noteq> LE_OK \<and>
      DcsNetValidateIpAddress ?e AF_INET6 ''2001:db8::'' = LE_OK" by code_simp
  have v4: "DcsNetValidateIpAddress ?e AF_INET ''10.0.0.0'' = LE_OK" by code_simp
  have l1: "3 < length ''1234'' mod 65536" by simp
  have l2: "length ''12x'' \<le> 3" by simp
  have n2: "numberAtStart ''12x'' = 12" by code_simp
  have l3: "length ''ab'' \<le> 3 \<and> (\<forall>c\<in>set ''ab''. \<not> isdigit c)" by code_simp
  have p129: "DcsConvertPrefixLengthString exampleConsts (Some ''129'') = 129 \<and>
      IPV6_PREFIX_LENGTH_MAX < 129" by code_simp
  have p1234: "DcsConvertPrefixLengthString exampleConsts (Some ''1234'') = - 1"
    by code_simp
  have pab: "DcsConvertPrefixLengthString exampleConsts (Some ''ab'') = 0" by code_simp
  have p12x: "DcsConvertPrefixLengthString exampleConsts (Some ''12x'') = 12 \<and>
      12 \<le> IPV6_PREFIX_LENGTH_MAX" by code_simp
  have pm5: "DcsConvertPrefixLengthString exampleConsts (Some ''-5'') = - 5 \<and>
      DcsNetValidateIpAddress ?e AF_INET ''-5'' \<noteq> LE_OK" by code_simp
  have p24: "DcsConvertPrefixLengthString exampleConsts (Some ''24'') = 24 \<and>
      24 \<le> IPV6_PREFIX_LENGTH_MAX" by code_simp
  from prefix_length_parser_reads_a_leading_number 
         [OF h, of "''1234''" ?e 2 ?wifi "''wlan0''" PA_DCS_ROUTE_ADD True 0 "[]" "[]"]
       l1
  have a1: "DcsConvertPrefixLengthString exampleConsts (Some ''1234'') = - 1" by simp
  from prefix_length_parser_reads_a_leading_number 
         [OF h, of "''12x''" ?e 2 ?wifi "''wlan0''" PA_DCS_ROUTE_ADD True 0 "[]" "[]"]
       l2 n2
  have a2: "DcsConvertPrefixLengthString exampleConsts (Some ''12x'') = 12" by simp
  from prefix_length_parser_reads_a_leading_number 
         [OF h, of "''ab''" ?e 2 ?wifi "''wlan0''" PA_DCS_ROUTE_ADD True 0 "[]" "[]"]
       l3
  have a3: "DcsConvertPrefixLengthString exampleConsts (Some ''ab'') = 0" by simp
  from env v6 p129
       prefix_length_parser_reads_a_leading_number
         [OF h, of "[]" ?e 2 ?wifi "''wlan0''" PA_DCS_ROUTE_ADD True 129 "''129''" "''2001:db8::''"]
  have b1: "le_net_ChangeRoute exampleConsts ?e 2 (Some ''2001:db8::'') (Some ''129'') True
     = (LE_BAD_PARAMETER, [])" by (simp add: strip)
  from env v6 p1234
       prefix_length_parser_reads_a_leading_number
         [OF h, of "[]" ?e 2 ?wifi "''wlan0''" PA_DCS_ROUTE_ADD True "- 1" "''1234''" "''2001:db8::''"]
  have b2: "le_net_ChangeRoute exampleConsts ?e 2 (Some ''2001:db8::'') (Some ''1234'') True
     = (LE_BAD_PARAMETER, [])" by (simp add: strip)
  from env v6 pab ok
       prefix_length_parser_reads_a_leading_number
         [OF h, of "[]" ?e 2 ?wifi "''wlan0''" PA_DCS_ROUTE_ADD True 0 "''ab''" "''2001:db8::''"]
  have b3: "le_net_ChangeRoute exampleConsts ?e 2 (Some ''2001:db8::'') (Some ''ab'') True
     = (LE_OK, [PaChangeRoute PA_DCS_ROUTE_ADD ''2001:db8::'' [] ''wlan0''])" by (simp add: strip)
  from env v6 p12x ok
       prefix_length_parser_reads_a_leading_number
         [OF h, of "[]" ?e 2 ?wifi "''wlan0''" PA_DCS_ROUTE_ADD True 12 "''12x''" "''2001:db8::''"]
  have b4: "le_net_ChangeRoute exampleConsts ?e 2 (Some ''2001:db8::'') (Some ''12x'') True
     = (LE_OK, [PaChangeRoute PA_DCS_ROUTE_ADD ''2001:db8::'' ''12x'' ''wlan0''])" by (simp add: strip)
  from env v4 pm5
       prefix_length_parser_reads_a_leading_number
         [OF h, of "[]" ?e 2 ?wifi "''wlan0''" PA_DCS_ROUTE_DELETE False "- 5" "''-5''" "''10.0.0.0''"]
  have b5: "le_net_ChangeRoute exampleConsts ?e 2 (Some ''10.0.0.0'') (Some ''-5'') False
     = (LE_BAD_PARAMETER, [LeWarn ''Input IPv4 subnet mask prefix length %s invalid''])" by (simp add: strip)
  from env v4 pab ok
       prefix_length_parser_reads_a_leading_number
         [OF h, of "[]" ?e 2 ?wifi "''wlan0''" PA_DCS_ROUTE_DELETE False 0 "'' ab''" "''10.0.0.0''"]
  have b6: "le_net_ChangeRoute exampleConsts ?e 2 (Some ''10.0.0.0'') (Some '' ab'') False
     = (LE_OK, [PaChangeRoute PA_DCS_ROUTE_DELETE ''10.0.0.0'' [] ''wlan0''])" by (simp add: strip)
  from env v4 p24 ok
       prefix_length_parser_reads_a_leading_number
         [OF h, of "[]" ?e 2 ?wifi "''wlan0''" PA_DCS_ROUTE_DELETE False 24 "''24''" "''10.0.0.0''"]
  have b7: "le_net_ChangeRoute exampleConsts ?e 2 (Some ''10.0.0.0'') (Some ''24'') False
     = (LE_OK, [PaChangeRoute PA_DCS_ROUTE_DELETE ''10.0.0.0'' ''24'' ''wlan0''])" by (simp add: strip)
  from a1 a2 a3 b1 b2 b3 b4 b5 b6 b7 show ?thesis by simp
qed

text \<open>
  C7. On a channel that exists, whose technology is supported and whose interface is
  known, with a destination that is an IPv4 address, the prefix input 255.255.255.0
  (leading white space apart) is taken as a netmask: its address value has 24 bits set,
  which \<open>%d\<close> prints as "24". The adapter's \<open>change_route\<close> is called with the prefix
  string "24", and its answer is the result; before that two warnings are logged, the
  second one the deprecation warning.
\<close>

theorem legacy_netmask_becomes_prefix_24:
  assumes "le_dcs_GetChannelDbFromRef e channelRef = Some channelDb"
    and "LE_DCS_TECH_UNKNOWN k \<noteq> technology channelDb"
    and "technology channelDb < LE_DCS_TECH_MAX k"
    and "le_dcsTech_GetNetInterface e (technology channelDb) channelRef = (LE_OK, intf)"
    and "DcsNetValidateIpAddress e AF_INET (stripLeading dest) = LE_OK"
    and "stripLeading prefix = ''255.255.255.0''"
    and "action = (if isAdd then PA_DCS_ROUTE_ADD else PA_DCS_ROUTE_DELETE)"
  shows "le_net_ChangeRoute k e channelRef (Some dest) (Some prefix) isAdd =
           (pa_dcs_ChangeRoute e action (stripLeading dest) ''24'' intf,
            [LeWarn ''Input IPv4 subnet mask prefix length %s invalid'',
             LeWarn ''Deprecated, a prefix length is expected and not a network mask.'',
             PaChangeRoute action (stripLeading dest) ''24'' intf]) \<and>
         inet_aton ''255.255.255.0'' = Some 0x00FFFFFF \<and>
         countSetBits 0x00FFFFFF 0 = 24 \<and> printf_d 24 = ''24''"
proof -
  have "le_net_ChangeRoute k e channelRef (Some dest) (Some prefix) isAdd =
           (pa_dcs_ChangeRoute e action (stripLeading dest) ''24'' intf,
            [LeWarn ''Input IPv4 subnet mask prefix length %s invalid'',
             LeWarn ''Deprecated, a prefix length is expected and not a network mask.'',
             PaChangeRoute action (stripLeading dest) ''24'' intf])"
    using assms
    by (simp add: le_net_ChangeRoute_def Let_def mask_check initiateRouteChange_def
        DcsNetChangeRoute_def)
  moreover have "inet_aton ''255.255.255.0'' = Some 0x00FFFFFF" by code_simp
  moreover have "countSetBits 0x00FFFFFF 0 = 24" by code_simp
  moreover have "printf_d 24 = ''24''" by code_simp
  ultimately show ?thesis by blast
qed

theorem legacy_netmask_becomes_prefix_24_witness:
  "le_net_ChangeRoute exampleConsts (exampleEnv 1 LE_OK) 2 (Some ''10.0.0.0'')
     (Some ''255.255.255.0'') True
   = (LE_OK,
      [LeWarn ''Input IPv4 subnet mask prefix length %s invalid'',
       LeWarn ''Deprecated, a prefix length is expected and not a network mask.'',
       PaChangeRoute PA_DCS_ROUTE_ADD ''10.0.0.0'' ''24'' ''wlan0''])"
proof -
  have h1: "le_dcs_GetChannelDbFromRef (exampleEnv 1 LE_OK) 2
      = Some \<lparr>channelName = ''wifi'', technology = 1, techRef = 8\<rparr>" by code_simp
  have h2: "LE_DCS_TECH_UNKNOWN exampleConsts
      \<noteq> technology \<lparr>channelName = ''wifi'', technology = 1, techRef = 8\<rparr>" by code_simp
  have h3: "technology \<lparr>channelName = ''wifi'', technology = 1, techRef = 8\<rparr>
      < LE_DCS_TECH_MAX exampleConsts" by code_simp
  have h4: "le_dcsTech_GetNetInterface (exampleEnv 1 LE_OK)
      (technology \<lparr>channelName = ''wifi'', technology = 1, techRef = 8\<rparr>) 2 = (LE_OK, ''wlan0'')"
    by code_simp
  have h5: "DcsNetValidateIpAddress (exampleEnv 1 LE_OK) AF_INET (stripLeading ''10.0.0.0'') = LE_OK"
    by code_simp
  have h6: "stripLeading ''255.255.255.0'' = ''255.255.255.0''" by code_simp
  have h7: "PA_DCS_ROUTE_ADD = (if True then PA_DCS_ROUTE_ADD else PA_DCS_ROUTE_DELETE)" by simp
  have h8: "stripLeading ''10.0.0.0'' = ''10.0.0.0''" by code_simp
  have h9: "pa_dcs_ChangeRoute (exampleEnv 1 LE_OK) PA_DCS_ROUTE_ADD ''10.0.0.0'' ''24'' ''wlan0''
      = LE_OK" by code_simp
  from legacy_netmask_becomes_prefix_24 [OF h1 h2 h3 h4 h5 h6 h7] h8 h9
  show ?thesis by simp
qed

text \<open>
  C8. Let the lease file of the interface of a channel open, and let the first line of it
  that holds the option \<open>domain-name-servers\<close> be
  \<open>domain-name-servers 1.1.1.1 8.8.8.8;\<close> (with a rest short enough for the buffer, such
  as the newline). With address buffers and output fields of 8 bytes or more,
  \<open>le_net_GetDNS\<close> returns \<open>LE_OK\<close> with the first IPv4 address 1.1.1.1, the second
  8.8.8.8 and both IPv6 addresses empty. In general the token loop stores, for each family,
  the first \<open>n\<close> tokens of the family in their order and ignores the others, a token
  being of IPv6 when it has a colon.
\<close>

theorem get_dns_returns_both_ipv4_servers:
  assumes "le_dcs_GetChannelDbFromRef e channelRef = Some channelDb"
    and "le_dcsTech_GetNetInterface e (technology channelDb) channelRef = (LE_OK, intf)"
    and "pa_dcs_GetDhcpLeaseFilePath e intf = (LE_OK, path)"
    and "le_flock_TryOpenStream e path = (res, Some leaseFile)"
    and "leaseLines k leaseFile = before @ (''domain-name-servers 1.1.1.1 8.8.8.8;'' @ rest) # after"
    and "\<forall>l\<in>set before. strstr l DNS_ADDRESS_OPTION = None"
    and "length rest + 16 < 2 * (PA_DCS_IPV4_ADDR_MAX_BYTES k + PA_DCS_IPV6_ADDR_MAX_BYTES k + 1)"
    and "8 \<le> PA_DCS_IPV4_ADDR_MAX_BYTES k" and "8 \<le> sizeof_ipv4Addr k"
  shows "le_net_GetDNS k e channelRef (Some a) =
           (LE_OK,
            Some \<lparr>ipv4Addr1 = ''1.1.1.1'', ipv4Addr2 = ''8.8.8.8'', ipv6Addr1 = [], ipv6Addr2 = []\<rparr>,
            [PaGetDhcpLeaseFilePath intf, FlockTryOpenStream path]) \<and>
         (\<forall>n4 n6 n toks b4 b6.
            fillAddresses n4 n6 n toks (b4, 0, b6, 0) =
              (storeTokens n4 (take n (filter (\<lambda>t. \<not> hasColon t) toks)) b4 0,
               min n (length (filter (\<lambda>t. \<not> hasColon t) toks)),
               storeTokens n6 (take n (filter hasColon toks)) b6 0,
               min n (length (filter hasColon toks))))"
proof -
  let ?n4 = "PA_DCS_IPV4_ADDR_MAX_BYTES k" and ?n6 = "PA_DCS_IPV6_ADDR_MAX_BYTES k"
  let ?v4 = "strncpy ''1.1.1.1'' ?n4 @ strncpy ''8.8.8.8'' ?n4"
  have nul: "NUL \<notin> set ''1.1.1.1''" "NUL \<notin> set ''8.8.8.8''" by (simp_all add: NUL_def)
  from assms(8) have l: "length ''1.1.1.1'' < ?n4" "length ''8.8.8.8'' < ?n4" by simp_all
  have a1: "cstr ?v4 = ''1.1.1.1''" by (rule cstr_strncpy [OF nul(1) l(1)])
  have "drop ?n4 ?v4 = strncpy ''8.8.8.8'' ?n4" by (simp add: length_strncpy)
  moreover have "cstr (strncpy ''8.8.8.8'' ?n4 @ []) = ''8.8.8.8''"
    by (rule cstr_strncpy [OF nul(2) l(2)])
  ultimately have a2: "cstr (drop ?n4 ?v4) = ''8.8.8.8''" by simp
  have a2': "cstr (strncpy ''8.8.8.8'' ?n4) = ''8.8.8.8''"
    using cstr_strncpy [OF nul(2) l(2), of "[]"] by simp
  have a3: "cstr (replicate (2 * ?n6) NUL) = []" by (rule cstr_zero)
  have "drop ?n6 (replicate (2 * ?n6) NUL) = replicate ?n6 NUL" by simp
  then have a4: "cstr (drop ?n6 (replicate (2 * ?n6) NUL)) = []" by (simp only: cstr_zero)
  from assms(9) have c: "fst (le_utf8_Copy ''1.1.1.1'' (sizeof_ipv4Addr k)) = ''1.1.1.1''"
    "fst (le_utf8_Copy ''8.8.8.8'' (sizeof_ipv4Addr k)) = ''8.8.8.8''"
    "fst (le_utf8_Copy [] (sizeof_ipv6Addr k)) = []"
    by (simp_all add: le_utf8_Copy_def)
  from assms(1,2) dns_addresses [OF assms(3-7), of ?n4 ?n6]
  have "le_net_GetDNS k e channelRef (Some a) =
           (LE_OK,
            Some \<lparr>ipv4Addr1 = ''1.1.1.1'', ipv4Addr2 = ''8.8.8.8'', ipv6Addr1 = [], ipv6Addr2 = []\<rparr>,
            [PaGetDhcpLeaseFilePath intf, FlockTryOpenStream path])"
    by (simp add: le_net_GetDNS_def Let_def a1 a2' length_strncpy cstr_zero c)
  then show ?thesis using fill_characterised [where ?c4.0 = 0 and ?c6.0 = 0] by simp
qed

theorem get_dns_returns_both_ipv4_servers_witness:
  "le_net_GetDNS exampleConsts (exampleEnv 1 LE_OK) 2
     (Some \<lparr>ipv4Addr1 = ''x'', ipv4Addr2 = ''y'', ipv6Addr1 = ''z'', ipv6Addr2 = ''w''\<rparr>)
   = (LE_OK,
      Some \<lparr>ipv4Addr1 = ''1.1.1.1'', ipv4Addr2 = ''8.8.8.8'', ipv6Addr1 = [], ipv6Addr2 = []\<rparr>,
      [PaGetDhcpLeaseFilePath ''wlan0'', FlockTryOpenStream ''/var/run/udhcpc.leases''])"
proof -
  let ?file = "''routers 192.168.1.254;'' @ [CHR 0x0A] @
                 ''domain-name-servers 1.1.1.1 8.8.8.8;'' @ [CHR 0x0A]"
  have h1: "le_dcs_GetChannelDbFromRef (exampleEnv 1 LE_OK) 2
      = Some \<lparr>channelName = ''wifi'', technology = 1, techRef = 8\<rparr>" by code_simp
  have h2: "le_dcsTech_GetNetInterface (exampleEnv 1 LE_OK)
      (technology \<lparr>channelName = ''wifi'', technology = 1, techRef = 8\<rparr>) 2 = (LE_OK, ''wlan0'')"
    by code_simp
  have h3: "pa_dcs_GetDhcpLeaseFilePath (exampleEnv 1 LE_OK) ''wlan0''
      = (LE_OK, ''/var/run/udhcpc.leases'')" by code_simp
  have h4: "le_flock_TryOpenStream (exampleEnv 1 LE_OK) ''/var/run/udhcpc.leases''
      = (LE_OK, Some ?file)" by code_simp
  have h5: "leaseLines exampleConsts ?file
      = [''routers 192.168.1.254;'' @ [CHR 0x0A]]
        @ (''domain-name-servers 1.1.1.1 8.8.8.8;'' @ [CHR 0x0A]) # []" by code_simp
  have h6: "\<forall>l\<in>set [''routers 192.168.1.254;'' @ [CHR 0x0A]]. strstr l DNS_ADDRESS_OPTION = None"
    by code_simp
  have h7: "length [CHR 0x0A] + 16
      < 2 * (PA_DCS_IPV4_ADDR_MAX_BYTES exampleConsts + PA_DCS_IPV6_ADDR_MAX_BYTES exampleConsts + 1)"
    by code_simp
  have h8: "8 \<le> PA_DCS_IPV4_ADDR_MAX_BYTES exampleConsts" by code_simp
  have h9: "8 \<le> sizeof_ipv4Addr exampleConsts" by code_simp
  from get_dns_returns_both_ipv4_servers [OF h1 h2 h3 h4 h5 h6 h7 h8 h9]
  show ?thesis by blast
qed

text \<open>
  C9. When a session that has a backup in the list calls \<open>le_net_RestoreDefaultGW\<close>,
  the backup is removed from the list whatever the operation returns: the list is one
  shorter, holds no backup of the session, and a restore that the session calls next
  returns \<open>LE_NOT_FOUND\<close> and changes nothing. The operation returns \<open>LE_FAULT\<close>
  exactly when both flags of the backup were raised and the adapter refused both calls.
\<close>

theorem restore_frees_backup_whatever_the_result:
  assumes "DcsNetGetSessionRef e = s"
    and "backupOf s (run k ops COMPONENT_INIT) = Some d"
    and "le_net_RestoreDefaultGW e (run k ops COMPONENT_INIT) = (r, db', evs)"
    and "DcsNetGetSessionRef e' = s"
  shows "s \<notin> appSessionRef ` set db' \<and>
         length db' + 1 = length (run k ops COMPONENT_INIT) \<and>
         le_net_RestoreDefaultGW e' db' = (LE_NOT_FOUND, db', []) \<and>
         (r = LE_FAULT \<longleftrightarrow>
            setV4GwToSystem d \<and> setV6GwToSystem d \<and>
            pa_dcs_SetDefaultGateway e (defaultV4Interface d) (defaultV4GW d) False \<noteq> LE_OK \<and>
            pa_dcs_SetDefaultGateway e (defaultV6Interface d) (defaultV6GW d) True \<noteq> LE_OK)"
proof -
  let ?db = "run k ops COMPONENT_INIT"
  have "distinct (map appSessionRef COMPONENT_INIT)" by (simp add: COMPONENT_INIT_def)
  then have dis: "distinct (map appSessionRef ?db)" by (rule run_sessions_distinct)
  from assms(2) obtain i isRecent where g: "GetDefaultGwConfigDb s ?db = (Some i, isRecent)"
    and di: "d = ?db ! i"
    by (cases "GetDefaultGwConfigDb s ?db") (auto simp: backupOf_def split: option.splits)
  from g have i: "i < length ?db" "appSessionRef (?db ! i) = s" using GetDb_Some by auto
  from assms(1,3) g have db': "db' = le_dls_Remove ?db i"
    by (auto simp: le_net_RestoreDefaultGW_def Let_def le_mem_Release_def
        DcsDefaultGwConfigDbDestructor_def)
  from sessions_Remove [OF i(1) dis] i(2) db' have absent: "s \<notin> appSessionRef ` set db'" by simp
  then have "fst (GetDefaultGwConfigDb s db') = None" by (simp add: GetDb_None)
  then have "backupOf s db' = None" by (simp add: backupOf_def)
  with assms(4) have again: "le_net_RestoreDefaultGW e' db' = (LE_NOT_FOUND, db', [])"
    by (simp add: Restore_none)
  from i(1) db' have len: "length db' + 1 = length ?db"
    by (simp add: le_dls_Remove_def min_def)
  from assms(1,3) g di have res: "r = LE_FAULT \<longleftrightarrow>
            setV4GwToSystem d \<and> setV6GwToSystem d \<and>
            pa_dcs_SetDefaultGateway e (defaultV4Interface d) (defaultV4GW d) False \<noteq> LE_OK \<and>
            pa_dcs_SetDefaultGateway e (defaultV6Interface d) (defaultV6GW d) True \<noteq> LE_OK"
    by (auto simp: le_net_RestoreDefaultGW_def Let_def split: if_splits)
  from absent len again res show ?thesis by blast
qed

theorem restore_frees_backup_whatever_the_result_witness:
  "le_net_RestoreDefaultGW (exampleEnv 1 LE_FAULT)
     (run exampleConsts
        [BackupDefaultGW (exampleEnv 1 LE_OK), SetDefaultGW (exampleEnv 1 LE_OK) 1]
        COMPONENT_INIT)
     = (LE_FAULT, [],
        [PaSetDefaultGateway ''eth0'' ''10.0.0.1'' False,
         PaSetDefaultGateway ''eth0'' ''fe80::1'' True]) \<and>
   le_net_RestoreDefaultGW (exampleEnv 1 LE_OK) [] = (LE_NOT_FOUND, [], [])"
proof -
  let ?d1 = "\<lparr>appSessionRef = 1, defaultV4GW = ''10.0.0.1'', defaultV4Interface = ''eth0'',
        setV4GwToSystem = True, defaultV6GW = ''fe80::1'', defaultV6Interface = ''eth0'',
        setV6GwToSystem = True\<rparr>"
  let ?ops = "[BackupDefaultGW (exampleEnv 1 LE_OK), SetDefaultGW (exampleEnv 1 LE_OK) 1]"
  have h1: "DcsNetGetSessionRef (exampleEnv 1 LE_FAULT) = 1" by code_simp
  have h2: "backupOf 1 (run exampleConsts ?ops COMPONENT_INIT) = Some ?d1" by code_simp
  have h3: "le_net_RestoreDefaultGW (exampleEnv 1 LE_FAULT) (run exampleConsts ?ops COMPONENT_INIT)
      = (LE_FAULT, [],
         [PaSetDefaultGateway ''eth0'' ''10.0.0.1'' False,
          PaSetDefaultGateway ''eth0'' ''fe80::1'' True])"
    by code_simp
  have h4: "DcsNetGetSessionRef (exampleEnv 1 LE_OK) = 1" by code_simp
  from restore_frees_backup_whatever_the_result [OF h1 h2 h3 h4] h3
  show ?thesis by simp
qed

text \<open>
  C10. \<open>le_net_GetDefaultGW\<close> never queries a technology for gateway addresses, and
  what the technology provider would answer does not change its outcome. For a channel
  that exists and whose interface is known, with an output structure that is not null, it
  asks for the lease file of that interface first, and its result is the one of
  \<open>GetLeaseAddresses\<close> on the interface. Nothing is assumed of the technology tag: the
  unknown tag and tags out of range are served like any other. With such a tag
  \<open>le_net_SetDefaultGW\<close> returns \<open>LE_UNSUPPORTED\<close>, and with the cellular tag it starts
  by querying the technology.

  The addresses returned are the lease file's, whatever the output structure held
  before. Let the lease file of the interface open, and let the first of its lines that
  holds the option \<open>routers\<close> have no NUL byte, at least one character after the option,
  and a remainder that fits the address buffer. With \<open>entry\<close> the text one character
  past the option, up to the first semicolon, and its first token of each family shorter
  than the field that receives it, the call returns \<open>LE_OK\<close>, the first token of
  \<open>entry\<close> without a colon as the IPv4 address and the first token with a colon as the
  IPv6 address, each empty when \<open>entry\<close> has no such token. When no line of the lease
  file holds the option, the call returns the result of opening the file and two empty
  addresses. In both cases the only calls made are the one for the path of the lease
  file and the one that opens it.
\<close>

theorem get_default_gateway_reads_the_lease_file_only:
  "filter isTechQuery (snd (snd (le_net_GetDefaultGW k e channelRef addr))) = [] \<and>
   le_net_GetDefaultGW k (e\<lparr>le_dcsTech_GetDefaultGWAddress := f\<rparr>) channelRef addr
     = le_net_GetDefaultGW k e channelRef addr \<and>
   (le_dcs_GetChannelDbFromRef e channelRef = Some channelDb \<and>
    le_dcsTech_GetNetInterface e (technology channelDb) channelRef = (LE_OK, intf) \<longrightarrow>
      (\<exists>rest. snd (snd (le_net_GetDefaultGW k e channelRef (Some a)))
                = PaGetDhcpLeaseFilePath intf # rest) \<and>
      fst (le_net_GetDefaultGW k e channelRef (Some a))
        = fst (GetLeaseAddresses k e intf LE_NET_DEFAULT_GATEWAY_ADDRESS
                 (memset0 (sizeof_ipv4Addr k)) (sizeof_ipv4Addr k)
                 (memset0 (sizeof_ipv6Addr k)) (sizeof_ipv6Addr k) 1)) \<and>
   (le_dcs_GetChannelDbFromRef e channelRef = Some channelDb \<and>
    (LE_DCS_TECH_UNKNOWN k = technology channelDb \<or> LE_DCS_TECH_MAX k \<le> technology channelDb)
      \<longrightarrow> le_net_SetDefaultGW k e channelRef db = (LE_UNSUPPORTED, db, [])) \<and>
   (le_dcs_GetChannelDbFromRef e channelRef = Some channelDb \<and>
    le_dcsTech_GetNetInterface e (technology channelDb) channelRef = (LE_OK, intf) \<and>
    LE_DCS_TECH_UNKNOWN k \<noteq> technology channelDb \<and> technology channelDb < LE_DCS_TECH_MAX k \<and>
    technology channelDb = LE_DCS_TECH_CELLULAR k
      \<longrightarrow> hd (snd (snd (le_net_SetDefaultGW k e channelRef db)))
            = TechGetDefaultGWAddress (technology channelDb) (techRef channelDb)) \<and>
   (le_dcs_GetChannelDbFromRef e channelRef = Some channelDb \<and>
    le_dcsTech_GetNetInterface e (technology channelDb) channelRef = (LE_OK, intf) \<and>
    pa_dcs_GetDhcpLeaseFilePath e intf = (LE_OK, path) \<and>
    le_flock_TryOpenStream e path = (res, Some leaseFile) \<and>
    leaseLines k leaseFile = before @ line # after \<and>
    (\<forall>l\<in>set before. strstr l DEFAULT_GW_OPTION = None) \<and>
    strstr line DEFAULT_GW_OPTION = Some p \<and>
    NUL \<notin> set line \<and>
    length DEFAULT_GW_OPTION < length p \<and>
    length (drop (length DEFAULT_GW_OPTION + 1) p)
      < MAX_NUM_DNS_ADDRESS_BY_TYPE
        * (PA_DCS_IPV4_ADDR_MAX_BYTES k + PA_DCS_IPV6_ADDR_MAX_BYTES k + 1) \<and>
    entry = takeWhile (\<lambda>c. c \<noteq> CHR '';'') (drop (length DEFAULT_GW_OPTION + 1) p) \<and>
    length (firstToken False entry) < sizeof_ipv4Addr k \<and>
    length (firstToken True entry) < sizeof_ipv6Addr k
      \<longrightarrow> le_net_GetDefaultGW k e channelRef (Some a)
            = (LE_OK,
               Some \<lparr>ipv4Addr = firstToken False entry, ipv6Addr = firstToken True entry\<rparr>,
               [PaGetDhcpLeaseFilePath intf, FlockTryOpenStream path])) \<and>
   (le_dcs_GetChannelDbFromRef e channelRef = Some channelDb \<and>
    le_dcsTech_GetNetInterface e (technology channelDb) channelRef = (LE_OK, intf) \<and>
    pa_dcs_GetDhcpLeaseFilePath e intf = (LE_OK, path) \<and>
    le_flock_TryOpenStream e path = (res, Some leaseFile) \<and>
    (\<forall>l\<in>set (leaseLines k leaseFile). strstr l DEFAULT_GW_OPTION = None)
      \<longrightarrow> le_net_GetDefaultGW k e channelRef (Some a)
            = (res, Some \<lparr>ipv4Addr = [], ipv6Addr = []\<rparr>,
               [PaGetDhcpLeaseFilePath intf, FlockTryOpenStream path]))"
proof -
  have c1: "filter isTechQuery (snd (snd (le_net_GetDefaultGW k e channelRef addr))) = []"
  proof (cases addr)
    case None
    then show ?thesis by (simp add: le_net_GetDefaultGW_def)
  next
    case (Some a')
    show ?thesis
    proof (cases "le_dcs_GetChannelDbFromRef e channelRef")
      case None
      with Some show ?thesis by (simp add: le_net_GetDefaultGW_def)
    next
      case (Some cdb)
      obtain ret i where ni: "le_dcsTech_GetNetInterface e (technology cdb) channelRef = (ret, i)"
        by (cases "le_dcsTech_GetNetInterface e (technology cdb) channelRef")
      let ?G = "GetLeaseAddresses k e i LE_NET_DEFAULT_GATEWAY_ADDRESS
              (write_at (strncpy (ipv4Addr a') (sizeof_ipv4Addr k)) 0 [NUL]) (sizeof_ipv4Addr k)
              (write_at (strncpy (ipv6Addr a') (sizeof_ipv6Addr k)) 0 [NUL]) (sizeof_ipv6Addr k)
              MAX_NUM_DEFAULT_GATEWAY_ADDRESS_BY_TYPE"
      obtain r v4 v6 evs where g: "?G = (r, v4, v6, evs)" by (cases ?G) auto
      have "MAX_NUM_DEFAULT_GATEWAY_ADDRESS_BY_TYPE \<le> MAX_NUM_DNS_ADDRESS_BY_TYPE"
        by (simp add: MAX_NUM_DEFAULT_GATEWAY_ADDRESS_BY_TYPE_def MAX_NUM_DNS_ADDRESS_BY_TYPE_def)
      from lease_addresses_events [OF this, of k e i LE_NET_DEFAULT_GATEWAY_ADDRESS
          "write_at (strncpy (ipv4Addr a') (sizeof_ipv4Addr k)) 0 [NUL]" "sizeof_ipv4Addr k"
          "write_at (strncpy (ipv6Addr a') (sizeof_ipv6Addr k)) 0 [NUL]" "sizeof_ipv6Addr k"] g
      have "filter isTechQuery evs = []" by auto
      with \<open>addr = Some a'\<close> Some ni g show ?thesis
        by (simp add: le_net_GetDefaultGW_def)
    qed
  qed
  have c2: "le_net_GetDefaultGW k (e\<lparr>le_dcsTech_GetDefaultGWAddress := f\<rparr>) channelRef addr
           = le_net_GetDefaultGW k e channelRef addr"
    by (simp add: le_net_GetDefaultGW_def lease_addresses_ignores_tech
        split: option.splits prod.splits)
  have c3: "(\<exists>rest. snd (snd (le_net_GetDefaultGW k e channelRef (Some a)))
                = PaGetDhcpLeaseFilePath intf # rest) \<and>
      fst (le_net_GetDefaultGW k e channelRef (Some a))
        = fst (GetLeaseAddresses k e intf LE_NET_DEFAULT_GATEWAY_ADDRESS
                 (memset0 (sizeof_ipv4Addr k)) (sizeof_ipv4Addr k)
                 (memset0 (sizeof_ipv6Addr k)) (sizeof_ipv6Addr k) 1)"
    if ch: "le_dcs_GetChannelDbFromRef e channelRef = Some channelDb"
      and ni: "le_dcsTech_GetNetInterface e (technology channelDb) channelRef = (LE_OK, intf)"
  proof -
    let ?b4 = "write_at (strncpy (ipv4Addr a) (sizeof_ipv4Addr k)) 0 [NUL]"
    let ?b6 = "write_at (strncpy (ipv6Addr a) (sizeof_ipv6Addr k)) 0 [NUL]"
    let ?G = "\<lambda>b4 b6. GetLeaseAddresses k e intf LE_NET_DEFAULT_GATEWAY_ADDRESS
              b4 (sizeof_ipv4Addr k) b6 (sizeof_ipv6Addr k) MAX_NUM_DEFAULT_GATEWAY_ADDRESS_BY_TYPE"
    obtain r v4 v6 evs where g: "?G ?b4 ?b6 = (r, v4, v6, evs)" by (cases "?G ?b4 ?b6") auto
    from ch ni g have out: "le_net_GetDefaultGW k e channelRef (Some a)
        = (r, Some \<lparr>ipv4Addr = cstr v4, ipv6Addr = cstr v6\<rparr>, evs)"
      by (simp add: le_net_GetDefaultGW_def)
    have "MAX_NUM_DEFAULT_GATEWAY_ADDRESS_BY_TYPE \<le> MAX_NUM_DNS_ADDRESS_BY_TYPE"
      by (simp add: MAX_NUM_DEFAULT_GATEWAY_ADDRESS_BY_TYPE_def MAX_NUM_DNS_ADDRESS_BY_TYPE_def)
    from lease_addresses_events [OF this, of k e intf LE_NET_DEFAULT_GATEWAY_ADDRESS ?b4
        "sizeof_ipv4Addr k" ?b6 "sizeof_ipv6Addr k"] g
    have ev: "\<exists>rest. evs = PaGetDhcpLeaseFilePath intf # rest" by auto
    have "fst (?G ?b4 ?b6) = fst (?G (memset0 (sizeof_ipv4Addr k)) (memset0 (sizeof_ipv6Addr k)))"
      by (simp add: GetLeaseAddresses_def Let_def split: prod.splits)
    with g have "r = fst (GetLeaseAddresses k e intf LE_NET_DEFAULT_GATEWAY_ADDRESS
                      (memset0 (sizeof_ipv4Addr k)) (sizeof_ipv4Addr k)
                      (memset0 (sizeof_ipv6Addr k)) (sizeof_ipv6Addr k) 1)"
      by (simp add: MAX_NUM_DEFAULT_GATEWAY_ADDRESS_BY_TYPE_def)
    with out ev show ?thesis by simp
  qed
  have c4: "le_dcs_GetChannelDbFromRef e channelRef = Some channelDb \<and>
    (LE_DCS_TECH_UNKNOWN k = technology channelDb \<or> LE_DCS_TECH_MAX k \<le> technology channelDb)
      \<longrightarrow> le_net_SetDefaultGW k e channelRef db = (LE_UNSUPPORTED, db, [])"
    by (auto simp: le_net_SetDefaultGW_def)
  have c5: "le_dcs_GetChannelDbFromRef e channelRef = Some channelDb \<and>
    le_dcsTech_GetNetInterface e (technology channelDb) channelRef = (LE_OK, intf) \<and>
    LE_DCS_TECH_UNKNOWN k \<noteq> technology channelDb \<and> technology channelDb < LE_DCS_TECH_MAX k \<and>
    technology channelDb = LE_DCS_TECH_CELLULAR k
      \<longrightarrow> hd (snd (snd (le_net_SetDefaultGW k e channelRef db)))
            = TechGetDefaultGWAddress (technology channelDb) (techRef channelDb)"
    by (auto simp: le_net_SetDefaultGW_def queryDefaultGWAddress_def split: prod.splits)
  have c6: "le_net_GetDefaultGW k e channelRef (Some a)
            = (LE_OK,
               Some \<lparr>ipv4Addr = firstToken False entry, ipv6Addr = firstToken True entry\<rparr>,
               [PaGetDhcpLeaseFilePath intf, FlockTryOpenStream path])"
    if ch: "le_dcs_GetChannelDbFromRef e channelRef = Some channelDb"
      and ni: "le_dcsTech_GetNetInterface e (technology channelDb) channelRef = (LE_OK, intf)"
      and pa: "pa_dcs_GetDhcpLeaseFilePath e intf = (LE_OK, path)"
      and op: "le_flock_TryOpenStream e path = (res, Some leaseFile)"
      and ll: "leaseLines k leaseFile = before @ line # after"
      and nb: "\<forall>l\<in>set before. strstr l DEFAULT_GW_OPTION = None"
      and st: "strstr line DEFAULT_GW_OPTION = Some p"
      and nu: "NUL \<notin> set line"
      and ln: "length (drop (length DEFAULT_GW_OPTION + 1) p)
          < MAX_NUM_DNS_ADDRESS_BY_TYPE
            * (PA_DCS_IPV4_ADDR_MAX_BYTES k + PA_DCS_IPV6_ADDR_MAX_BYTES k + 1)"
      and en: "entry = takeWhile (\<lambda>c. c \<noteq> CHR '';'') (drop (length DEFAULT_GW_OPTION + 1) p)"
      and l4: "length (firstToken False entry) < sizeof_ipv4Addr k"
      and l6: "length (firstToken True entry) < sizeof_ipv6Addr k"
  proof -
    let ?G = "GetLeaseAddresses k e intf LE_NET_DEFAULT_GATEWAY_ADDRESS
              (write_at (strncpy (ipv4Addr a) (sizeof_ipv4Addr k)) 0 [NUL]) (sizeof_ipv4Addr k)
              (write_at (strncpy (ipv6Addr a) (sizeof_ipv6Addr k)) 0 [NUL]) (sizeof_ipv6Addr k)
              MAX_NUM_DEFAULT_GATEWAY_ADDRESS_BY_TYPE"
    obtain r v4 v6 evs where g: "?G = (r, v4, v6, evs)" by (cases ?G) auto
    from gw_addresses [OF pa op ll nb st nu ln en l4 l6, of "ipv4Addr a" "ipv6Addr a"] g
    have "r = LE_OK \<and> cstr v4 = firstToken False entry \<and> cstr v6 = firstToken True entry \<and>
        evs = [PaGetDhcpLeaseFilePath intf, FlockTryOpenStream path]"
      by simp
    with ch ni g show ?thesis by (simp add: le_net_GetDefaultGW_def)
  qed
  have c7: "le_net_GetDefaultGW k e channelRef (Some a)
            = (res, Some \<lparr>ipv4Addr = [], ipv6Addr = []\<rparr>,
               [PaGetDhcpLeaseFilePath intf, FlockTryOpenStream path])"
    if ch: "le_dcs_GetChannelDbFromRef e channelRef = Some channelDb"
      and ni: "le_dcsTech_GetNetInterface e (technology channelDb) channelRef = (LE_OK, intf)"
      and pa: "pa_dcs_GetDhcpLeaseFilePath e intf = (LE_OK, path)"
      and op: "le_flock_TryOpenStream e path = (res, Some leaseFile)"
      and no: "\<forall>l\<in>set (leaseLines k leaseFile). strstr l DEFAULT_GW_OPTION = None"
  proof -
    let ?G = "GetLeaseAddresses k e intf LE_NET_DEFAULT_GATEWAY_ADDRESS
              (write_at (strncpy (ipv4Addr a) (sizeof_ipv4Addr k)) 0 [NUL]) (sizeof_ipv4Addr k)
              (write_at (strncpy (ipv6Addr a) (sizeof_ipv6Addr k)) 0 [NUL]) (sizeof_ipv6Addr k)
              MAX_NUM_DEFAULT_GATEWAY_ADDRESS_BY_TYPE"
    obtain r v4 v6 evs where g: "?G = (r, v4, v6, evs)" by (cases ?G) auto
    from gw_no_addresses [OF pa op no, of "ipv4Addr a" "sizeof_ipv4Addr k" "ipv6Addr a"
        "sizeof_ipv6Addr k"] g
    have "r = res \<and> cstr v4 = [] \<and> cstr v6 = [] \<and>
        evs = [PaGetDhcpLeaseFilePath intf, FlockTryOpenStream path]"
      by simp
    with ch ni g show ?thesis by (simp add: le_net_GetDefaultGW_def)
  qed
  from c1 c2 c3 c4 c5 c6 c7 show ?thesis by blast
qed

theorem get_default_gateway_reads_the_lease_file_only_witness:
  "le_net_GetDefaultGW exampleConsts (exampleEnv 1 LE_OK) 3 (Some \<lparr>ipv4Addr = [], ipv6Addr = []\<rparr>)
     = (LE_OK, Some \<lparr>ipv4Addr = ''192.168.1.254'', ipv6Addr = []\<rparr>,
        [PaGetDhcpLeaseFilePath ''wlan0'', FlockTryOpenStream ''/var/run/udhcpc.leases'']) \<and>
   fst (GetLeaseAddresses exampleConsts (exampleEnv 1 LE_OK) ''wlan0''
          LE_NET_DEFAULT_GATEWAY_ADDRESS
          (memset0 (sizeof_ipv4Addr exampleConsts)) (sizeof_ipv4Addr exampleConsts)
          (memset0 (sizeof_ipv6Addr exampleConsts)) (sizeof_ipv6Addr exampleConsts) 1) = LE_OK \<and>
   le_net_SetDefaultGW exampleConsts (exampleEnv 1 LE_OK) 3 [] = (LE_UNSUPPORTED, [], []) \<and>
   hd (snd (snd (le_net_SetDefaultGW exampleConsts (exampleEnv 1 LE_OK) 1 [])))
     = TechGetDefaultGWAddress 2 7 \<and>
   le_net_GetDefaultGW exampleConsts (exampleEnv 1 LE_OK) 3
       (Some \<lparr>ipv4Addr = ''9.9.9.9'', ipv6Addr = ''::1''\<rparr>)
     = (LE_OK, Some \<lparr>ipv4Addr = ''192.168.1.254'', ipv6Addr = []\<rparr>,
        [PaGetDhcpLeaseFilePath ''wlan0'', FlockTryOpenStream ''/var/run/udhcpc.leases'']) \<and>
   le_net_GetDefaultGW exampleConsts
       ((exampleEnv 1 LE_OK)
          \<lparr>le_flock_TryOpenStream :=
             (\<lambda>path. (LE_OK, Some (''lease {'' @ [CHR 0x0A] @
                '' option routers 10.1.1.1 fe80::1 10.2.2.2;'' @ [CHR 0x0A])))\<rparr>)
       3 (Some \<lparr>ipv4Addr = ''9.9.9.9'', ipv6Addr = ''::1''\<rparr>)
     = (LE_OK, Some \<lparr>ipv4Addr = ''10.1.1.1'', ipv6Addr = ''fe80::1''\<rparr>,
        [PaGetDhcpLeaseFilePath ''wlan0'', FlockTryOpenStream ''/var/run/udhcpc.leases'']) \<and>
   le_net_GetDefaultGW exampleConsts
       ((exampleEnv 1 LE_OK)
          \<lparr>le_flock_TryOpenStream := (\<lambda>path. (LE_OK, Some (''lease {'' @ [CHR 0x0A])))\<rparr>)
       3 (Some \<lparr>ipv4Addr = ''9.9.9.9'', ipv6Addr = ''::1''\<rparr>)
     = (LE_OK, Some \<lparr>ipv4Addr = [], ipv6Addr = []\<rparr>,
        [PaGetDhcpLeaseFilePath ''wlan0'', FlockTryOpenStream ''/var/run/udhcpc.leases''])"
proof -
  let ?none = "\<lparr>channelName = ''none'', technology = 0, techRef = 9\<rparr>"
  let ?cell = "\<lparr>channelName = ''cell'', technology = 2, techRef = 7\<rparr>"
  let ?mine = "\<lparr>ipv4Addr = ''9.9.9.9'', ipv6Addr = ''::1''\<rparr>"
  let ?path = "''/var/run/udhcpc.leases''"
  let ?tech = "\<lambda>(t :: nat) (r :: nat). (LE_OK, ''192.0.2.1'', ''2001:db8::1'')"
  let ?l1 = "''routers 192.168.1.254;'' @ [CHR 0x0A]"
  let ?l2 = "''domain-name-servers 1.1.1.1 8.8.8.8;'' @ [CHR 0x0A]"
  let ?m1 = "''lease {'' @ [CHR 0x0A]"
  let ?m2 = "'' option routers 10.1.1.1 fe80::1 10.2.2.2;'' @ [CHR 0x0A]"
  let ?p2 = "''routers 10.1.1.1 fe80::1 10.2.2.2;'' @ [CHR 0x0A]"
  let ?e2 = "(exampleEnv 1 LE_OK)\<lparr>le_flock_TryOpenStream := (\<lambda>path. (LE_OK, Some (?m1 @ ?m2)))\<rparr>"
  let ?e3 = "(exampleEnv 1 LE_OK)\<lparr>le_flock_TryOpenStream := (\<lambda>path. (LE_OK, Some ?m1))\<rparr>"
  have h1: "le_dcs_GetChannelDbFromRef (exampleEnv 1 LE_OK) 3 = Some ?none" by code_simp
  have h2: "le_dcsTech_GetNetInterface (exampleEnv 1 LE_OK) (technology ?none) 3 = (LE_OK, ''wlan0'')"
    by code_simp
  have v: "le_net_GetDefaultGW exampleConsts (exampleEnv 1 LE_OK) 3
        (Some \<lparr>ipv4Addr = [], ipv6Addr = []\<rparr>)
     = (LE_OK, Some \<lparr>ipv4Addr = ''192.168.1.254'', ipv6Addr = []\<rparr>,
        [PaGetDhcpLeaseFilePath ''wlan0'', FlockTryOpenStream ''/var/run/udhcpc.leases''])"
    by code_simp
  have u: "LE_DCS_TECH_UNKNOWN exampleConsts = technology ?none" by code_simp
  have g1: "le_dcs_GetChannelDbFromRef (exampleEnv 1 LE_OK) 1 = Some ?cell" by code_simp
  have g2: "le_dcsTech_GetNetInterface (exampleEnv 1 LE_OK) (technology ?cell) 1 = (LE_OK, ''rmnet0'')"
    by code_simp
  have g3: "LE_DCS_TECH_UNKNOWN exampleConsts \<noteq> technology ?cell \<and>
      technology ?cell < LE_DCS_TECH_MAX exampleConsts \<and>
      technology ?cell = LE_DCS_TECH_CELLULAR exampleConsts" by code_simp
  have t: "technology ?cell = 2 \<and> techRef ?cell = 7" by simp
  from get_default_gateway_reads_the_lease_file_only
         [of exampleConsts "exampleEnv 1 LE_OK" 3 "Some \<lparr>ipv4Addr = [], ipv6Addr = []\<rparr>"
             ?tech ?none "''wlan0''" "\<lparr>ipv4Addr = [], ipv6Addr = []\<rparr>" "[]"
             "[]" LE_OK "[]" "[]" "[]" "[]" "[]" "[]"]
       h1 h2 v u
  have a: "fst (GetLeaseAddresses exampleConsts (exampleEnv 1 LE_OK) ''wlan0''
          LE_NET_DEFAULT_GATEWAY_ADDRESS
          (memset0 (sizeof_ipv4Addr exampleConsts)) (sizeof_ipv4Addr exampleConsts)
          (memset0 (sizeof_ipv6Addr exampleConsts)) (sizeof_ipv6Addr exampleConsts) 1) = LE_OK"
    "le_net_SetDefaultGW exampleConsts (exampleEnv 1 LE_OK) 3 [] = (LE_UNSUPPORTED, [], [])"
    by simp_all
  from get_default_gateway_reads_the_lease_file_only
         [of exampleConsts "exampleEnv 1 LE_OK" 1 None ?tech ?cell "''rmnet0''"
             "\<lparr>ipv4Addr = [], ipv6Addr = []\<rparr>" "[]"
             "[]" LE_OK "[]" "[]" "[]" "[]" "[]" "[]"]
       g1 g2 g3 t
  have b: "hd (snd (snd (le_net_SetDefaultGW exampleConsts (exampleEnv 1 LE_OK) 1 [])))
     = TechGetDefaultGWAddress 2 7"
    by simp
  have i1: "le_dcs_GetChannelDbFromRef (exampleEnv 1 LE_OK) 3 = Some ?none \<and>
    le_dcsTech_GetNetInterface (exampleEnv 1 LE_OK) (technology ?none) 3 = (LE_OK, ''wlan0'') \<and>
    pa_dcs_GetDhcpLeaseFilePath (exampleEnv 1 LE_OK) ''wlan0'' = (LE_OK, ?path) \<and>
    le_flock_TryOpenStream (exampleEnv 1 LE_OK) ?path = (LE_OK, Some (?l1 @ ?l2)) \<and>
    leaseLines exampleConsts (?l1 @ ?l2) = [] @ ?l1 # [?l2] \<and>
    (\<forall>l\<in>set []. strstr l DEFAULT_GW_OPTION = None) \<and>
    strstr ?l1 DEFAULT_GW_OPTION = Some ?l1 \<and>
    NUL \<notin> set ?l1 \<and>
    length DEFAULT_GW_OPTION < length ?l1 \<and>
    length (drop (length DEFAULT_GW_OPTION + 1) ?l1)
      < MAX_NUM_DNS_ADDRESS_BY_TYPE
        * (PA_DCS_IPV4_ADDR_MAX_BYTES exampleConsts + PA_DCS_IPV6_ADDR_MAX_BYTES exampleConsts + 1) \<and>
    ''192.168.1.254''
      = takeWhile (\<lambda>c. c \<noteq> CHR '';'') (drop (length DEFAULT_GW_OPTION + 1) ?l1) \<and>
    length (firstToken False ''192.168.1.254'') < sizeof_ipv4Addr exampleConsts \<and>
    length (firstToken True ''192.168.1.254'') < sizeof_ipv6Addr exampleConsts"
    by code_simp
  have t1: "firstToken False ''192.168.1.254'' = ''192.168.1.254'' \<and>
      firstToken True ''192.168.1.254'' = []" by code_simp
  from get_default_gateway_reads_the_lease_file_only
         [of exampleConsts "exampleEnv 1 LE_OK" 3 None ?tech ?none "''wlan0''" ?mine "[]"
             ?path LE_OK "?l1 @ ?l2" "[]" ?l1 "[?l2]" ?l1 "''192.168.1.254''"]
       i1
  have "le_net_GetDefaultGW exampleConsts (exampleEnv 1 LE_OK) 3 (Some ?mine)
     = (LE_OK,
        Some \<lparr>ipv4Addr = firstToken False ''192.168.1.254'',
              ipv6Addr = firstToken True ''192.168.1.254''\<rparr>,
        [PaGetDhcpLeaseFilePath ''wlan0'', FlockTryOpenStream ?path])"
    by blast
  with t1 have c: "le_net_GetDefaultGW exampleConsts (exampleEnv 1 LE_OK) 3 (Some ?mine)
     = (LE_OK, Some \<lparr>ipv4Addr = ''192.168.1.254'', ipv6Addr = []\<rparr>,
        [PaGetDhcpLeaseFilePath ''wlan0'', FlockTryOpenStream ?path])"
    by simp
  have i2: "le_dcs_GetChannelDbFromRef ?e2 3 = Some ?none \<and>
    le_dcsTech_GetNetInterface ?e2 (technology ?none) 3 = (LE_OK, ''wlan0'') \<and>
    pa_dcs_GetDhcpLeaseFilePath ?e2 ''wlan0'' = (LE_OK, ?path) \<and>
    le_flock_TryOpenStream ?e2 ?path = (LE_OK, Some (?m1 @ ?m2)) \<and>
    leaseLines exampleConsts (?m1 @ ?m2) = [?m1] @ ?m2 # [] \<and>
    (\<forall>l\<in>set [?m1]. strstr l DEFAULT_GW_OPTION = None) \<and>
    strstr ?m2 DEFAULT_GW_OPTION = Some ?p2 \<and>
    NUL \<notin> set ?m2 \<and>
    length DEFAULT_GW_OPTION < length ?p2 \<and>
    length (drop (length DEFAULT_GW_OPTION + 1) ?p2)
      < MAX_NUM_DNS_ADDRESS_BY_TYPE
        * (PA_DCS_IPV4_ADDR_MAX_BYTES exampleConsts + PA_DCS_IPV6_ADDR_MAX_BYTES exampleConsts + 1) \<and>
    ''10.1.1.1 fe80::1 10.2.2.2''
      = takeWhile (\<lambda>c. c \<noteq> CHR '';'') (drop (length DEFAULT_GW_OPTION + 1) ?p2) \<and>
    length (firstToken False ''10.1.1.1 fe80::1 10.2.2.2'') < sizeof_ipv4Addr exampleConsts \<and>
    length (firstToken True ''10.1.1.1 fe80::1 10.2.2.2'') < sizeof_ipv6Addr exampleConsts"
    by code_simp
  have t2: "firstToken False ''10.1.1.1 fe80::1 10.2.2.2'' = ''10.1.1.1'' \<and>
      firstToken True ''10.1.1.1 fe80::1 10.2.2.2'' = ''fe80::1''" by code_simp
  from get_default_gateway_reads_the_lease_file_only
         [of exampleConsts ?e2 3 None ?tech ?none "''wlan0''" ?mine "[]"
             ?path LE_OK "?m1 @ ?m2" "[?m1]" ?m2 "[]" ?p2 "''10.1.1.1 fe80::1 10.2.2.2''"]
       i2
  have "le_net_GetDefaultGW exampleConsts ?e2 3 (Some ?mine)
     = (LE_OK,
        Some \<lparr>ipv4Addr = firstToken False ''10.1.1.1 fe80::1 10.2.2.2'',
              ipv6Addr = firstToken True ''10.1.1.1 fe80::1 10.2.2.2''\<rparr>,
        [PaGetDhcpLeaseFilePath ''wlan0'', FlockTryOpenStream ?path])"
    by blast
  with t2 have d: "le_net_GetDefaultGW exampleConsts ?e2 3 (Some ?mine)
     = (LE_OK, Some \<lparr>ipv4Addr = ''10.1.1.1'', ipv6Addr = ''fe80::1''\<rparr>,
        [PaGetDhcpLeaseFilePath ''wlan0'', FlockTryOpenStream ?path])"
    by simp
  have i3: "le_dcs_GetChannelDbFromRef ?e3 3 = Some ?none \<and>
    le_dcsTech_GetNetInterface ?e3 (technology ?none) 3 = (LE_OK, ''wlan0'') \<and>
    pa_dcs_GetDhcpLeaseFilePath ?e3 ''wlan0'' = (LE_OK, ?path) \<and>
    le_flock_TryOpenStream ?e3 ?path = (LE_OK, Some ?m1) \<and>
    (\<forall>l\<in>set (leaseLines exampleConsts ?m1). strstr l DEFAULT_GW_OPTION = None)"
    by code_simp
  from get_default_gateway_reads_the_lease_file_only
         [of exampleConsts ?e3 3 None ?tech ?none "''wlan0''" ?mine "[]"
             ?path LE_OK ?m1 "[]" "[]" "[]" "[]" "[]"]
       i3
  have f: "le_net_GetDefaultGW exampleConsts ?e3 3 (Some ?mine)
     = (LE_OK, Some \<lparr>ipv4Addr = [], ipv6Addr = []\<rparr>,
        [PaGetDhcpLeaseFilePath ''wlan0'', FlockTryOpenStream ?path])"
    by blast
  from v a b c d f show ?thesis by simp
qed

end
